(* ===== verification/Prelude.thy ===== *)
theory Prelude
  imports Main "HOL-Library.Sublist"
begin

text \<open>
  Shared vocabulary of the development: the unit of Go's \<open>time.Duration\<close>, the
  collection of characteristic equations of the Go runtime model, and generic facts
  on lists and on step relations that the component theories use: a progress
  lemma that turns a decreasing measure into reachability of a final state, and
  a few facts on prefixes and filtered lists.
\<close>

named_theorems go_simps
  "characteristic equations of the Go runtime and gRPC transport model"

text \<open>
  Go's \<open>time.Duration\<close> is an \<open>int64\<close> count of nanoseconds, and instants on the
  monotonic clock are nanoseconds too. They are modelled as unbounded \<open>int\<close>: the
  program's durations (at most five seconds) are nine orders of magnitude below
  the point where \<open>int64\<close> wraps, and no property depends on wrap-around.
\<close>

type_synonym duration = int
type_synonym instant = int

abbreviation second :: duration where
  "second \<equiv> 1000000000"

abbreviation millisecond :: duration where
  "millisecond \<equiv> 1000000"

subsection \<open>Progress by a decreasing measure\<close>

text \<open>
  If every state of an invariant \<open>R\<close> that is not final has a successor that keeps
  \<open>R\<close> and has a smaller measure, every state of \<open>R\<close> reaches a final state.
  This is the shape of the deadlock-freedom arguments of the concurrent drivers.
\<close>

lemma progress_reaches_final:
  fixes m :: "'s \<Rightarrow> nat"
  assumes step_ok: "\<And>s. R s \<Longrightarrow> \<not> F s \<Longrightarrow> \<exists>t. step s t \<and> R t \<and> m t < m s"
    and "R s"
  shows "\<exists>t. step\<^sup>*\<^sup>* s t \<and> F t"
  using \<open>R s\<close>
proof (induction "m s" arbitrary: s rule: less_induct)
  case less
  show ?case
  proof (cases "F s")
    case True
    then show ?thesis by blast
  next
    case False
    with less.prems step_ok obtain t where t: "step s t" "R t" "m t < m s"
      by blast
    with less.hyps obtain u where "step\<^sup>*\<^sup>* t u" "F u"
      by blast
    with t(1) show ?thesis
      by (blast intro: converse_rtranclp_into_rtranclp)
  qed
qed

subsection \<open>Lists\<close>

lemma prefix_append_snoc_take:
  "prefix xs ys \<Longrightarrow> length xs < length ys \<Longrightarrow> prefix (xs @ [ys ! length xs]) ys"
  by (metis prefix_def append_eq_conv_conj append_take_drop_id take_Suc_conv_app_nth
      take_all_iff less_imp_le)

text \<open>Splitting a trace at an event, after one more event is appended.\<close>

lemma after_event_snoc:
  "(\<forall>xs ys. es @ [e] = xs @ c # ys \<longrightarrow> P ys) \<longleftrightarrow>
   (\<forall>xs ys. es = xs @ c # ys \<longrightarrow> P (ys @ [e])) \<and> (e = c \<longrightarrow> P [])"
proof (intro iffI conjI allI impI)
  fix xs ys assume "\<forall>xs ys. es @ [e] = xs @ c # ys \<longrightarrow> P ys" "es = xs @ c # ys"
  then show "P (ys @ [e])" by simp
next
  assume "\<forall>xs ys. es @ [e] = xs @ c # ys \<longrightarrow> P ys" "e = c"
  then show "P []" by simp
next
  fix xs ys
  assume a: "(\<forall>xs ys. es = xs @ c # ys \<longrightarrow> P (ys @ [e])) \<and> (e = c \<longrightarrow> P [])"
    and eq: "es @ [e] = xs @ c # ys"
  show "P ys"
  proof (cases ys rule: rev_cases)
    case Nil
    with eq a show ?thesis by simp
  next
    case (snoc ys' y)
    with eq have "es = xs @ c # ys'" and "y = e" by simp_all
    with a snoc show ?thesis by simp
  qed
qed

end
