(* ===== verification/Messages.thy ===== *)
theory Messages
  imports Prelude
begin

text \<open>
  The protocol-buffer messages of the greet service. Their Go types live in the
  generated package \<open>grpc_client\<close>, which is not part of the sources; they are
  modelled from the spec (section 3): a \<open>Greeting\<close> is a first and a last name, every
  request wraps one greeting, every response carries one result string. A message
  field the code does not set holds Go's zero value, the empty string.
  The request literals that \<open>client.go\<close> builds are defined here too, one
  definition per literal.
\<close>

record greeting =
  first_name :: string
  last_name :: string

text \<open>One constructor per request message of the service, in the order of the RPCs.\<close>

datatype request =
    GreetRequest (get_greeting: greeting)
  | GreetManyTimesRequest (get_greeting: greeting)
  | LongGreetRequest (get_greeting: greeting)
  | GreetEveryoneRequest (get_greeting: greeting)
  | GreetWithDeadlineRequest (get_greeting: greeting)

datatype response =
    GreetResponse (result: string)
  | GreetManyTimesResponse (result: string)
  | LongGreetResponse (result: string)
  | GreetEveryoneResponse (result: string)
  | GreetWithDeadlineResponse (result: string)

subsection \<open>The request literals of client.go\<close>

text \<open>
  \<open>&grpc_client.Greeting{FirstName: "Stephane", LastName: "Maarek"}\<close>, the greeting
  of the unary, server-streaming and deadline calls.
\<close>

definition stephane :: greeting where
  "stephane = \<lparr>first_name = ''Stephane'', last_name = ''Maarek''\<rparr>"

text \<open>A greeting literal that sets only \<open>FirstName\<close>.\<close>

definition first_only :: "string \<Rightarrow> greeting" where
  "first_only n = \<lparr>first_name = n, last_name = []\<rparr>"

definition stream_names :: "string list" where
  "stream_names = [''Roger'', ''John'', ''Dimitri'', ''Siska'', ''Yuri'']"

text \<open>The slice \<open>requests\<close> of \<open>doClientStreaming\<close>.\<close>

definition long_greet_requests :: "request list" where
  "long_greet_requests = map (\<lambda>n. LongGreetRequest (first_only n)) stream_names"

text \<open>The slice \<open>requests\<close> of \<open>doBiDiStreaming\<close>.\<close>

definition greet_everyone_requests :: "request list" where
  "greet_everyone_requests = map (\<lambda>n. GreetEveryoneRequest (first_only n)) stream_names"

end
