(* ===== verification/GoRuntime.thy ===== *)
theory GoRuntime
  imports Messages
begin

text \<open>
  The parts of the Go standard library and of grpc-go that \<open>client.go\<close> calls, as
  far as its behaviour depends on them: status codes and status errors
  (\<open>google.golang.org/grpc/codes\<close>, \<open>.../status\<close>), \<open>io.EOF\<close>, contexts with a
  timeout and their cancel functions (\<open>context\<close>), the console (\<open>fmt\<close>, \<open>log\<close>),
  \<open>time.Sleep\<close>, and the two control effects that shape the program: \<open>defer\<close> and
  \<open>log.Fatalf\<close>, which calls \<open>os.Exit(1)\<close> and so skips every deferred call.

  A Go process is modelled by a record \<open>rt\<close>: the monotonic clock, the contexts
  created so far with their state, and the trace of observable events in program
  order (console lines, context creation and cancellation, connection and wire
  events). A statement sequence is a function \<open>rt \<Rightarrow> outcome \<times> rt\<close>, whose
  outcome is \<open>Returned\<close>, or \<open>Exited n\<close> when the process has exited.
\<close>

subsection \<open>Status codes and errors\<close>

text \<open>\<open>codes.Code\<close>: the seventeen canonical gRPC status codes, in their numeric order.\<close>

datatype code =
    OK | Canceled | Unknown | InvalidArgument | DeadlineExceeded | NotFound
  | AlreadyExists | PermissionDenied | ResourceExhausted | FailedPrecondition
  | Aborted | OutOfRange | Unimplemented | Internal | Unavailable | DataLoss
  | Unauthenticated

text \<open>\<open>*status.Status\<close>: a code and a message.\<close>

record status =
  st_code :: code
  st_message :: string

text \<open>
  The values of Go's \<open>error\<close> interface that reach the client: \<open>io.EOF\<close>, an error
  that carries a gRPC status (it implements \<open>GRPCStatus()\<close>), and any other error
  with its \<open>Error()\<close> text.
\<close>

datatype go_error = EOF | StatusError code string | PlainError string

text \<open>
  \<open>status.FromError(err)\<close> for a non-nil \<open>err\<close>: the carried status and \<open>true\<close>
  for a status error, otherwise \<open>status.New(codes.Unknown, err.Error())\<close> and
  \<open>false\<close>.
\<close>

fun status_FromError :: "go_error \<Rightarrow> status \<times> bool" where
  "status_FromError (StatusError c m) = (\<lparr>st_code = c, st_message = m\<rparr>, True)"
| "status_FromError EOF = (\<lparr>st_code = Unknown, st_message = ''EOF''\<rparr>, False)"
| "status_FromError (PlainError m) = (\<lparr>st_code = Unknown, st_message = m\<rparr>, False)"

subsection \<open>Contexts\<close>

text \<open>
  A context is \<open>context.Background()\<close>, or one made by \<open>context.WithTimeout\<close>,
  identified by its creation index and carrying its absolute deadline. The runtime
  keeps the state of every timeout context: live until its cancel function runs.
\<close>

datatype ctx = Background | TimeoutCtx nat instant

datatype ctx_state = Live instant | Cancelled

fun ctx_deadline :: "ctx \<Rightarrow> instant option" where
  "ctx_deadline Background = None"
| "ctx_deadline (TimeoutCtx i dl) = Some dl"

subsection \<open>Events, process state, outcomes\<close>

text \<open>The argument of a \<open>%v\<close> verb, kept structured rather than formatted.\<close>

datatype val = VStr string | VErr go_error | VStatus status | VReq request | VResp response

datatype event =
    Print string              \<comment> \<open>\<open>fmt.Println\<close> of a literal\<close>
  | PrintV string val         \<comment> \<open>\<open>fmt.Printf(format, v)\<close>\<close>
  | LogV string val           \<comment> \<open>\<open>log.Printf(format, v)\<close>\<close>
  | FatalV string val         \<comment> \<open>\<open>log.Fatalf(format, v)\<close>, then \<open>os.Exit(1)\<close>\<close>
  | Dialed string             \<comment> \<open>\<open>grpc.Dial(target)\<close>\<close>
  | ConnClosed                \<comment> \<open>\<open>cc.Close()\<close>\<close>
  | CtxNew nat instant        \<comment> \<open>\<open>context.WithTimeout\<close> made context \<open>i\<close>\<close>
  | CtxCancel nat             \<comment> \<open>a call of the cancel function of context \<open>i\<close>\<close>
  | Call string request       \<comment> \<open>a unary RPC issued on the wire\<close>
  | Open string               \<comment> \<open>a client- or bidi-streaming RPC opened\<close>
  | StreamSend request        \<comment> \<open>\<open>stream.Send(req)\<close>\<close>
  | StreamCloseSend           \<comment> \<open>the send half closed\<close>

record rt =
  clock :: instant
  ctxs :: "ctx_state list"
  out :: "event list"

datatype outcome = Returned | Exited int

type_synonym go_proc = "rt \<Rightarrow> outcome \<times> rt"

text \<open>A process at start: clock at zero, no context, nothing printed.\<close>

definition init_rt :: rt where
  "init_rt = \<lparr>clock = 0, ctxs = [], out = []\<rparr>"

subsection \<open>Library calls\<close>

definition emit :: "event \<Rightarrow> rt \<Rightarrow> rt" where
  "emit e s = s\<lparr>out := out s @ [e]\<rparr>"

definition fmt_Println :: "string \<Rightarrow> rt \<Rightarrow> rt" where
  "fmt_Println m = emit (Print m)"

definition fmt_Printf :: "string \<Rightarrow> val \<Rightarrow> rt \<Rightarrow> rt" where
  "fmt_Printf f v = emit (PrintV f v)"

definition log_Printf :: "string \<Rightarrow> val \<Rightarrow> rt \<Rightarrow> rt" where
  "log_Printf f v = emit (LogV f v)"

text \<open>\<open>log.Fatalf\<close> prints and calls \<open>os.Exit(1)\<close>: no deferred call runs.\<close>

definition log_Fatalf :: "string \<Rightarrow> val \<Rightarrow> go_proc" where
  "log_Fatalf f v s = (Exited 1, emit (FatalV f v) s)"

text \<open>\<open>time.Sleep(d)\<close> returns at once for \<open>d \<le> 0\<close>.\<close>

definition time_Sleep :: "duration \<Rightarrow> rt \<Rightarrow> rt" where
  "time_Sleep d s = s\<lparr>clock := clock s + max 0 d\<rparr>"

text \<open>
  \<open>context.WithTimeout(context.Background(), d)\<close>: a fresh context whose deadline is
  the current instant plus \<open>d\<close>, live until cancelled.
\<close>

definition context_WithTimeout :: "duration \<Rightarrow> rt \<Rightarrow> ctx \<times> rt" where
  "context_WithTimeout d s =
     (let i = length (ctxs s); dl = clock s + d
      in (TimeoutCtx i dl, emit (CtxNew i dl) (s\<lparr>ctxs := ctxs s @ [Live dl]\<rparr>)))"

text \<open>The cancel function returned with a context; the background context has none.\<close>

fun cancel :: "ctx \<Rightarrow> rt \<Rightarrow> rt" where
  "cancel Background s = s"
| "cancel (TimeoutCtx i dl) s = emit (CtxCancel i) (s\<lparr>ctxs := (ctxs s)[i := Cancelled]\<rparr>)"

text \<open>
  \<open>defer f\<close> in a function body: \<open>f\<close> runs when the body returns, and not when the
  process exits inside it.
\<close>

fun go_defer :: "(rt \<Rightarrow> rt) \<Rightarrow> outcome \<times> rt \<Rightarrow> outcome \<times> rt" where
  "go_defer f (Returned, s) = (Returned, f s)"
| "go_defer f (Exited n, s) = (Exited n, s)"

text \<open>Two statements in sequence: the second runs only if the process is still alive.\<close>

definition go_then :: "go_proc \<Rightarrow> go_proc \<Rightarrow> go_proc" where
  "go_then p q s = (case p s of (Returned, s') \<Rightarrow> q s' | (Exited n, s') \<Rightarrow> (Exited n, s'))"

lemmas [go_simps] = init_rt_def emit_def fmt_Println_def fmt_Printf_def log_Printf_def log_Fatalf_def
  time_Sleep_def context_WithTimeout_def go_then_def

end
