(* ===== verification/GreetService.thy ===== *)
theory GreetService
  imports GoRuntime
begin

text \<open>
  The interface between the client and the rest of the system. The generated
  \<open>grpc_client.GreetServiceClient\<close> is a record of five call functions, one per RPC;
  the drivers of \<open>client.go\<close> are defined over any such record, so their lemmas hold
  for every implementation that meets the contract stated with them. One
  implementation is given here: grpc-go's client transport over a server, with the
  deadline rule of the transport (a call whose context expires before the reply
  arrives fails with \<open>DeadlineExceeded\<close> at the deadline) and the server-side rule
  that a handler error without a status reaches the client as \<open>codes.Unknown\<close>.
  The fake server of the spec's testable properties (section 8) closes the
  definitions, and the transport is shown to meet the unary contract.
  None of this code is in the sources: it is modelled from the spec.
\<close>

subsection \<open>Streams as the client sees them\<close>

text \<open>
  A server stream is the sequence of results of successive \<open>Recv()\<close> calls: a message,
  or an error (\<open>io.EOF\<close> at the normal end).
\<close>

type_synonym recv_stream = "nat \<Rightarrow> go_error + response"

text \<open>
  A client stream (\<open>LongGreet\<close>): optionally the number of messages after which the
  handler stops reading and returns (a later \<open>Send\<close> fails with \<open>io.EOF\<close> and its
  message is lost), and the reply of \<open>CloseAndRecv()\<close> as a function of the messages
  the server has received.
\<close>

record client_stream =
  cs_limit :: "nat option"
  cs_reply :: "request list \<Rightarrow> go_error + response"

text \<open>
  The server end of a bidirectional stream (\<open>GreetEveryone\<close>): the responses it
  sends for each received request; optionally the number of requests after which
  the handler returns without waiting for the client's half-close; and the status
  with which the handler returns (\<open>None\<close>: OK, seen by the client as \<open>io.EOF\<close>).
\<close>

record bidi_server =
  on_msg :: "request \<Rightarrow> response list"
  quit_after :: "nat option"
  final_status :: "go_error option"

type_synonym unary_call = "ctx \<Rightarrow> request \<Rightarrow> rt \<Rightarrow> (go_error + response) \<times> rt"

record greet_service_client =
  greet :: unary_call
  greet_many_times :: "ctx \<Rightarrow> request \<Rightarrow> rt \<Rightarrow> (go_error + recv_stream) \<times> rt"
  long_greet :: "ctx \<Rightarrow> rt \<Rightarrow> (go_error + client_stream) \<times> rt"
  greet_everyone :: "ctx \<Rightarrow> rt \<Rightarrow> (go_error + bidi_server) \<times> rt"
  greet_with_deadline :: unary_call

subsection \<open>The contract of a unary call\<close>

text \<open>
  What the drivers need of a unary call: it leaves the contexts alone, only appends
  events and never a cancellation, and every error it returns carries a status.
\<close>

fun is_status_error :: "go_error \<Rightarrow> bool" where
  "is_status_error (StatusError c m) = True"
| "is_status_error EOF = False"
| "is_status_error (PlainError m) = False"

fun is_cancel :: "event \<Rightarrow> bool" where
  "is_cancel (CtxCancel i) = True"
| "is_cancel e = False"

definition unary_contract :: "unary_call \<Rightarrow> bool" where
  "unary_contract call \<longleftrightarrow>
     (\<forall>c req s. ctxs (snd (call c req s)) = ctxs s
        \<and> (\<exists>es. out (snd (call c req s)) = out s @ es \<and> \<not> list_ex is_cancel es)
        \<and> (\<forall>e. fst (call c req s) = Inl e \<longrightarrow> is_status_error e))"

subsection \<open>The grpc-go transport\<close>

text \<open>
  A server: one handler per RPC. A unary handler returns its reply and the time it
  takes; a server-streaming handler the messages it sends and its return status.
\<close>

record greet_server =
  h_greet :: "request \<Rightarrow> (go_error + response) \<times> nat"
  h_greet_many_times :: "request \<Rightarrow> response list \<times> go_error option"
  h_long_greet :: client_stream
  h_greet_everyone :: bidi_server
  h_greet_with_deadline :: "request \<Rightarrow> (go_error + response) \<times> nat"

text \<open>A handler error reaches the client as a status error; one without a status as \<open>Unknown\<close>.\<close>

definition to_status_error :: "go_error \<Rightarrow> go_error" where
  "to_status_error e = (let st = fst (status_FromError e) in StatusError (st_code st) (st_message st))"

definition to_client_result :: "go_error + response \<Rightarrow> go_error + response" where
  "to_client_result r = (case r of Inl e \<Rightarrow> Inl (to_status_error e) | Inr m \<Rightarrow> Inr m)"

definition deadline_error :: go_error where
  "deadline_error = StatusError DeadlineExceeded ''context deadline exceeded''"

definition grpc_unary :: "string \<Rightarrow> (request \<Rightarrow> (go_error + response) \<times> nat) \<Rightarrow> unary_call" where
  "grpc_unary name h c req s =
     (let (r, d) = h req; s1 = emit (Call name req) s; now = clock s1; r' = to_client_result r
      in case ctx_deadline c of
           Some dl \<Rightarrow>
             if dl \<le> now + int d then (Inl deadline_error, s1\<lparr>clock := max now dl\<rparr>)
             else (r', s1\<lparr>clock := now + int d\<rparr>)
         | None \<Rightarrow> (r', s1\<lparr>clock := now + int d\<rparr>))"

text \<open>
  \<open>stream.Send(req)\<close> on a client stream whose server has received \<open>delivered\<close>:
  the message is delivered, or, once the handler has stopped reading, dropped with
  \<open>io.EOF\<close>.
\<close>

definition stream_send ::
  "client_stream \<Rightarrow> request list \<Rightarrow> request \<Rightarrow> rt \<Rightarrow> (go_error + unit) \<times> request list \<times> rt" where
  "stream_send cs delivered req s =
     (case cs_limit cs of
        Some n \<Rightarrow> if n \<le> length delivered then (Inl EOF, delivered, s)
                 else (Inr (), delivered @ [req], emit (StreamSend req) s)
      | None \<Rightarrow> (Inr (), delivered @ [req], emit (StreamSend req) s))"

text \<open>After its last message a stream keeps answering with its final status.\<close>

definition stream_of :: "response list \<Rightarrow> go_error option \<Rightarrow> recv_stream" where
  "stream_of ms st i =
     (if i < length ms then Inr (ms ! i)
      else Inl (case st of None \<Rightarrow> EOF | Some e \<Rightarrow> to_status_error e))"

definition grpc_stub :: "greet_server \<Rightarrow> greet_service_client" where
  "grpc_stub srv =
     \<lparr>greet = grpc_unary ''Greet'' (h_greet srv),
      greet_many_times = (\<lambda>c req s.
         (Inr (case h_greet_many_times srv req of (ms, st) \<Rightarrow> stream_of ms st),
          emit (Call ''GreetManyTimes'' req) s)),
      long_greet = (\<lambda>c s. (Inr (h_long_greet srv), emit (Open ''LongGreet'') s)),
      greet_everyone = (\<lambda>c s. (Inr (h_greet_everyone srv), emit (Open ''GreetEveryone'') s)),
      greet_with_deadline = grpc_unary ''GreetWithDeadline'' (h_greet_with_deadline srv)\<rparr>"

subsection \<open>The fake server of the spec\<close>

text \<open>\<open>strconv.Itoa\<close> on a natural number.\<close>

fun itoa :: "nat \<Rightarrow> string" where
  "itoa n = (if n < 10 then [char_of (48 + n)] else itoa (n div 10) @ [char_of (48 + n mod 10)])"

definition hello :: "greeting \<Rightarrow> string" where
  "hello g = ''Hello '' @ first_name g @ '' '' @ last_name g"

definition hello_bang :: "greeting \<Rightarrow> string" where
  "hello_bang g = ''Hello '' @ first_name g @ ''! ''"

text \<open>
  The fake service: the unary calls answer \<open>"Hello " + firstName + " " + lastName\<close>
  after \<open>delay\<close> nanoseconds; \<open>GreetManyTimes\<close> sends \<open>n\<close> numbered greetings;
  \<open>LongGreet\<close> concatenates a greeting per received request; \<open>GreetEveryone\<close> answers
  each request with one greeting and returns OK when the client half-closes.
\<close>

definition fake_server :: "nat \<Rightarrow> nat \<Rightarrow> greet_server" where
  "fake_server delay n =
     \<lparr>h_greet = (\<lambda>req. (Inr (GreetResponse (hello (get_greeting req))), delay)),
      h_greet_many_times = (\<lambda>req.
         (map (\<lambda>i. GreetManyTimesResponse
                 (''Hello '' @ first_name (get_greeting req) @ '' number '' @ itoa i)) [0..<n],
          None)),
      h_long_greet =
        \<lparr>cs_limit = None,
         cs_reply = (\<lambda>reqs. Inr (LongGreetResponse (concat (map (hello_bang \<circ> get_greeting) reqs))))\<rparr>,
      h_greet_everyone =
        \<lparr>on_msg = (\<lambda>req. [GreetEveryoneResponse (hello_bang (get_greeting req))]),
         quit_after = None, final_status = None\<rparr>,
      h_greet_with_deadline = (\<lambda>req. (Inr (GreetWithDeadlineResponse (hello (get_greeting req))), delay))\<rparr>"

lemmas [go_simps] = grpc_unary_def to_status_error_def to_client_result_def stream_of_def stream_send_def

subsection \<open>The transport meets the contract\<close>

lemma unary_contractD:
  assumes "unary_contract call" and "call c req s = (r, s')"
  shows "ctxs s' = ctxs s" and "\<exists>es. out s' = out s @ es \<and> \<not> list_ex is_cancel es"
    and "\<forall>e. r = Inl e \<longrightarrow> is_status_error e"
  using assms unfolding unary_contract_def by (metis fst_conv snd_conv)+

lemma count_cancel_no_cancel:
  "\<not> list_ex is_cancel es \<Longrightarrow> count_list es (CtxCancel i) = 0"
  by (induction es) auto

lemma to_client_result_status:
  "to_client_result r = Inl e \<Longrightarrow> is_status_error e"
  by (auto simp: to_client_result_def to_status_error_def Let_def split: sum.splits prod.splits)

lemma grpc_unary_meets_contract: "unary_contract (grpc_unary name h)"
  unfolding unary_contract_def
proof (intro allI conjI)
  fix c req s
  obtain r d where h: "h req = (r, d)" by fastforce
  show "ctxs (snd (grpc_unary name h c req s)) = ctxs s"
    using h by (simp add: grpc_unary_def emit_def Let_def split: option.split)
  show "\<exists>es. out (snd (grpc_unary name h c req s)) = out s @ es \<and> \<not> list_ex is_cancel es"
    using h by (auto simp: grpc_unary_def emit_def Let_def split: option.split)
  show "fst (grpc_unary name h c req s) = Inl e \<longrightarrow> is_status_error e" for e
    using h by (auto simp: grpc_unary_def deadline_error_def Let_def split: option.split
        dest: to_client_result_status)
qed

end
