(* ===== verification/Unary.thy ===== *)
theory Unary
  imports GreetService
begin

text \<open>
  The two unary drivers of \<open>client.go\<close>: \<open>doUnary\<close> (one \<open>Greet\<close> call on the
  background context) and \<open>doUnaryWithDeadline\<close> (one \<open>GreetWithDeadline\<close> call on
  a context with a timeout, cancelled by a deferred call, whose error is classified
  by its status code). The spec's contract of the deadline driver (section 4.5) is
  the datatype \<open>deadline_outcome\<close> with the classification \<open>spec_classify\<close>; the
  lemmas show that the driver reports exactly that classification, that it always
  releases its context when it returns, and that on every implementation an error
  without a status skips that release; and that over the transport the call takes
  at most its timeout.
\<close>

subsection \<open>doUnary\<close>

definition doUnary :: "greet_service_client \<Rightarrow> go_proc" where
  "doUnary c s0 =
     (let s1 = fmt_Println ''Starting to do a Unary RPC...'' s0;
          req = GreetRequest stephane;
          (r, s2) = greet c Background req s1
      in case r of
           Inl err \<Rightarrow> log_Fatalf ''error while calling Greet RPC: %v'' (VErr err) s2
         | Inr res \<Rightarrow> (Returned, log_Printf ''Response from Greet: %v'' (VStr (result res)) s2))"

subsection \<open>doUnaryWithDeadline\<close>

text \<open>
  Lines 213--227: the branch on the result of \<open>c.GreetWithDeadline(ctx, req)\<close>.
  Every path but the \<open>log.Fatalf\<close> one reaches the function's end (or its
  \<open>return\<close>) and so runs the deferred \<open>cancel()\<close>, which \<open>doUnaryWithDeadline\<close>
  wraps around this block.
\<close>

definition handle_deadline_result :: "go_error + response \<Rightarrow> go_proc" where
  "handle_deadline_result r s =
     (case r of
        Inl err \<Rightarrow>
          (let (st, ok) = status_FromError err
           in if ok then
                (if st_code st = DeadlineExceeded
                 then (Returned, fmt_Println ''Timeout was hit! Deadline was exceeded'' s)
                 else (Returned, fmt_Printf ''unexpected error: %v'' (VStatus st) s))
              else log_Fatalf ''error while calling GreetWithDeadline RPC: %v'' (VErr err) s)
      | Inr res \<Rightarrow> (Returned, log_Printf ''Response from GreetWithDeadline: %v'' (VStr (result res)) s))"

definition doUnaryWithDeadline :: "greet_service_client \<Rightarrow> duration \<Rightarrow> go_proc" where
  "doUnaryWithDeadline c timeout s0 =
     (let s1 = fmt_Println ''Starting to do a UnaryWithDeadline RPC...'' s0;
          req = GreetWithDeadlineRequest stephane;
          (ctx, s2) = context_WithTimeout timeout s1;
          (r, s3) = greet_with_deadline c ctx req s2
      in go_defer (cancel ctx) (handle_deadline_result r s3))"

subsection \<open>The contract of the spec\<close>

text \<open>
  Section 4.5: \<open>Ok(Response) | DeadlineExceeded | Failure(RpcError)\<close>, decided by the
  status code of the error.
\<close>

datatype deadline_outcome = DOk string | DDeadlineExceeded | DFailure go_error

fun spec_classify :: "go_error + response \<Rightarrow> deadline_outcome" where
  "spec_classify (Inr res) = DOk (result res)"
| "spec_classify (Inl (StatusError DeadlineExceeded m)) = DDeadlineExceeded"
| "spec_classify (Inl e) = DFailure e"

text \<open>The console line by which the driver reports each outcome.\<close>

fun report :: "deadline_outcome \<Rightarrow> event" where
  "report (DOk r) = LogV ''Response from GreetWithDeadline: %v'' (VStr r)"
| "report DDeadlineExceeded = Print ''Timeout was hit! Deadline was exceeded''"
| "report (DFailure e) = PrintV ''unexpected error: %v'' (VStatus (fst (status_FromError e)))"

text \<open>The process state right after \<open>context.WithTimeout\<close> in \<open>doUnaryWithDeadline\<close>.\<close>

abbreviation deadline_ctx_state :: "duration \<Rightarrow> rt \<Rightarrow> rt" where
  "deadline_ctx_state t s \<equiv>
     s\<lparr>ctxs := ctxs s @ [Live (clock s + t)],
       out := out s @ [Print ''Starting to do a UnaryWithDeadline RPC...'',
                       CtxNew (length (ctxs s)) (clock s + t)]\<rparr>"

subsection \<open>The branch on the result\<close>

text \<open>
  On a status error or a reply, the nested branches of lines 214--227 print exactly
  the report of the spec's classification; only an error without a status takes the
  \<open>log.Fatalf\<close> path.
\<close>

lemma handle_deadline_result_status:
  assumes "\<forall>e. r = Inl e \<longrightarrow> is_status_error e"
  shows "handle_deadline_result r s = (Returned, emit (report (spec_classify r)) s)"
proof (cases r)
  case (Inl e)
  with assms obtain c m where e: "e = StatusError c m"
    by (cases e) auto
  show ?thesis
    using Inl e by (cases c) (simp_all add: handle_deadline_result_def go_simps)
next
  case (Inr res)
  then show ?thesis by (simp add: handle_deadline_result_def go_simps)
qed

lemma doUnaryWithDeadline_unfold:
  assumes "greet_with_deadline c (TimeoutCtx (length (ctxs s)) (clock s + t))
             (GreetWithDeadlineRequest stephane) (deadline_ctx_state t s) = (r, s3)"
  shows "doUnaryWithDeadline c t s =
           go_defer (cancel (TimeoutCtx (length (ctxs s)) (clock s + t))) (handle_deadline_result r s3)"
  using assms by (simp add: doUnaryWithDeadline_def go_simps Let_def)

subsection \<open>The deadline driver implements the spec's classification\<close>

text \<open>
  C1. For every implementation of the service that meets the unary contract,
  \<open>doUnaryWithDeadline\<close> returns normally, prints exactly the report of the spec's
  classification of the call's result (\<open>Ok\<close>, \<open>DeadlineExceeded\<close> or \<open>Failure\<close>,
  decided by the status code), and then cancels the context it created.
\<close>

theorem doUnaryWithDeadline_refines_spec:
  assumes "unary_contract (greet_with_deadline c)"
    and "greet_with_deadline c (TimeoutCtx (length (ctxs s)) (clock s + t))
           (GreetWithDeadlineRequest stephane) (deadline_ctx_state t s) = (r, s3)"
  shows "doUnaryWithDeadline c t s =
           (Returned, cancel (TimeoutCtx (length (ctxs s)) (clock s + t)) (emit (report (spec_classify r)) s3))"
  using doUnaryWithDeadline_unfold [OF assms(2)]
    handle_deadline_result_status [OF unary_contractD(3) [OF assms]]
  by simp

theorem doUnaryWithDeadline_refines_spec_witness:
  "unary_contract (greet_with_deadline (grpc_stub (fake_server 3000000000 10)))
   \<and> greet_with_deadline (grpc_stub (fake_server 3000000000 10)) (TimeoutCtx 0 second)
       (GreetWithDeadlineRequest stephane) (deadline_ctx_state second init_rt)
     = (Inl deadline_error,
        \<lparr>clock = second, ctxs = [Live second],
         out = [Print ''Starting to do a UnaryWithDeadline RPC...'', CtxNew 0 second,
                Call ''GreetWithDeadline'' (GreetWithDeadlineRequest stephane)]\<rparr>)
   \<and> doUnaryWithDeadline (grpc_stub (fake_server 3000000000 10)) second init_rt
     = (Returned, cancel (TimeoutCtx 0 second) (emit (report (spec_classify (Inl deadline_error)))
        \<lparr>clock = second, ctxs = [Live second],
         out = [Print ''Starting to do a UnaryWithDeadline RPC...'', CtxNew 0 second,
                Call ''GreetWithDeadline'' (GreetWithDeadlineRequest stephane)]\<rparr>))"
proof -
  have c: "unary_contract (greet_with_deadline (grpc_stub (fake_server 3000000000 10)))"
    by (simp add: grpc_stub_def grpc_unary_meets_contract)
  have call: "greet_with_deadline (grpc_stub (fake_server 3000000000 10)) (TimeoutCtx 0 second)
       (GreetWithDeadlineRequest stephane) (deadline_ctx_state second init_rt)
     = (Inl deadline_error,
        \<lparr>clock = second, ctxs = [Live second],
         out = [Print ''Starting to do a UnaryWithDeadline RPC...'', CtxNew 0 second,
                Call ''GreetWithDeadline'' (GreetWithDeadlineRequest stephane)]\<rparr>)"
    by (simp add: grpc_stub_def fake_server_def go_simps)
  show ?thesis
    using c call doUnaryWithDeadline_refines_spec [of "grpc_stub (fake_server 3000000000 10)" init_rt second]
    by (simp add: init_rt_def)
qed

subsection \<open>Deadline classification over the gRPC transport\<close>

text \<open>
  One deadline call over the gRPC transport, with a handler that answers \<open>r\<close>
  after \<open>d\<close> nanoseconds.
\<close>

lemma doUnaryWithDeadline_grpc_run:
  assumes "h_greet_with_deadline srv (GreetWithDeadlineRequest stephane) = (r, d)"
  shows "doUnaryWithDeadline (grpc_stub srv) t s =
     (Returned,
      s\<lparr>clock := (if t \<le> int d then clock s + max 0 t else clock s + int d),
        ctxs := ctxs s @ [Cancelled],
        out := out s @ [Print ''Starting to do a UnaryWithDeadline RPC...'',
                        CtxNew (length (ctxs s)) (clock s + t),
                        Call ''GreetWithDeadline'' (GreetWithDeadlineRequest stephane),
                        report (if t \<le> int d then DDeadlineExceeded else spec_classify (to_client_result r)),
                        CtxCancel (length (ctxs s))]\<rparr>)"
proof -
  let ?i = "length (ctxs s)" and ?dl = "clock s + t"
  obtain r' s3 where call: "greet_with_deadline (grpc_stub srv) (TimeoutCtx ?i ?dl)
      (GreetWithDeadlineRequest stephane) (deadline_ctx_state t s) = (r', s3)"
    by fastforce
  have r': "r' = (if t \<le> int d then Inl deadline_error else to_client_result r)"
    and s3: "s3 = (deadline_ctx_state t s)\<lparr>
               out := out (deadline_ctx_state t s) @ [Call ''GreetWithDeadline'' (GreetWithDeadlineRequest stephane)],
               clock := (if t \<le> int d then clock s + max 0 t else clock s + int d)\<rparr>"
    using call assms by (auto simp: grpc_stub_def grpc_unary_def emit_def max_def Let_def split: if_splits)
  have st: "\<forall>e. r' = Inl e \<longrightarrow> is_status_error e"
    using r' by (auto simp: deadline_error_def dest: to_client_result_status)
  have "spec_classify r' = (if t \<le> int d then DDeadlineExceeded else spec_classify (to_client_result r))"
    using r' by (simp add: deadline_error_def)
  then show ?thesis
    using doUnaryWithDeadline_unfold [OF call] handle_deadline_result_status [OF st] s3
    by (simp add: go_simps)
qed

text \<open>
  C6. Over the gRPC transport, with a handler that answers \<open>r\<close> after \<open>d\<close>
  nanoseconds, \<open>doUnaryWithDeadline\<close> with timeout \<open>t\<close> returns normally and reports
  \<open>DeadlineExceeded\<close> exactly when \<open>t \<le> d\<close>, and otherwise the spec's classification
  of the handler's result; the clock stops at the deadline or at the reply, and the
  context is cancelled last.
\<close>

theorem doUnaryWithDeadline_grpc:
  assumes "h_greet_with_deadline srv (GreetWithDeadlineRequest stephane) = (r, d)"
  shows "doUnaryWithDeadline (grpc_stub srv) t s =
     (Returned,
      s\<lparr>clock := (if t \<le> int d then clock s + max 0 t else clock s + int d),
        ctxs := ctxs s @ [Cancelled],
        out := out s @ [Print ''Starting to do a UnaryWithDeadline RPC...'',
                        CtxNew (length (ctxs s)) (clock s + t),
                        Call ''GreetWithDeadline'' (GreetWithDeadlineRequest stephane),
                        report (if t \<le> int d then DDeadlineExceeded else spec_classify (to_client_result r)),
                        CtxCancel (length (ctxs s))]\<rparr>)"
  using assms by (rule doUnaryWithDeadline_grpc_run)

theorem doUnaryWithDeadline_grpc_witness:
  "h_greet_with_deadline (fake_server 3000000000 10) (GreetWithDeadlineRequest stephane)
     = (Inr (GreetWithDeadlineResponse ''Hello Stephane Maarek''), 3000000000)
   \<and> doUnaryWithDeadline (grpc_stub (fake_server 3000000000 10)) second init_rt =
     (Returned,
      \<lparr>clock = second, ctxs = [Cancelled],
       out = [Print ''Starting to do a UnaryWithDeadline RPC...'', CtxNew 0 second,
              Call ''GreetWithDeadline'' (GreetWithDeadlineRequest stephane),
              Print ''Timeout was hit! Deadline was exceeded'', CtxCancel 0]\<rparr>)"
proof -
  have h: "h_greet_with_deadline (fake_server 3000000000 10) (GreetWithDeadlineRequest stephane)
     = (Inr (GreetWithDeadlineResponse ''Hello Stephane Maarek''), 3000000000)"
    by (simp add: fake_server_def hello_def stephane_def)
  show ?thesis
    using h doUnaryWithDeadline_grpc [OF h, of second init_rt] by (simp add: init_rt_def)
qed

subsection \<open>The context is released on every return\<close>

text \<open>
  The trace of one deadline call over any implementation that meets the unary
  contract: it opens with the banner and the new context, closes with the cancel of
  that context, and the events between (the call's and the report) cancel nothing.
\<close>

lemma doUnaryWithDeadline_contract_trace:
  assumes contract: "unary_contract (greet_with_deadline c)"
    and run: "doUnaryWithDeadline c t s = (oc, s')"
  shows "oc = Returned \<and> ctxs s' = ctxs s @ [Cancelled]
         \<and> (\<exists>es. out s' = out s @ [Print ''Starting to do a UnaryWithDeadline RPC...'',
                                     CtxNew (length (ctxs s)) (clock s + t)]
                                @ es @ [CtxCancel (length (ctxs s))]
                 \<and> \<not> list_ex is_cancel es)"
proof -
  let ?i = "length (ctxs s)" and ?dl = "clock s + t"
  obtain r s3 where call: "greet_with_deadline c (TimeoutCtx ?i ?dl) (GreetWithDeadlineRequest stephane)
                             (deadline_ctx_state t s) = (r, s3)"
    by fastforce
  from unary_contractD [OF contract call] obtain es where
    ctxs3: "ctxs s3 = ctxs s @ [Live ?dl]"
    and out3: "out s3 = out s @ [Print ''Starting to do a UnaryWithDeadline RPC...'', CtxNew ?i ?dl] @ es"
    and nc: "\<not> list_ex is_cancel es"
    and st: "\<forall>e. r = Inl e \<longrightarrow> is_status_error e"
    by auto
  from run doUnaryWithDeadline_unfold [OF call] handle_deadline_result_status [OF st]
  have oc: "oc = Returned" and s': "s' = cancel (TimeoutCtx ?i ?dl) (emit (report (spec_classify r)) s3)"
    by simp_all
  have "ctxs s' = ctxs s @ [Cancelled]"
    using s' ctxs3 by (simp add: go_simps)
  moreover have "out s' = out s @ [Print ''Starting to do a UnaryWithDeadline RPC...'', CtxNew ?i ?dl]
                   @ (es @ [report (spec_classify r)]) @ [CtxCancel ?i]"
    using s' out3 by (simp add: go_simps)
  moreover have "\<not> list_ex is_cancel (es @ [report (spec_classify r)])"
    using nc by (cases "spec_classify r") simp_all
  ultimately show ?thesis using oc by blast
qed

text \<open>
  C2. For every implementation that meets the unary contract, \<open>doUnaryWithDeadline\<close>
  returns normally, the context it created is cancelled when it returns, and its
  cancel function has been called exactly once among the events of the call.
\<close>

theorem doUnaryWithDeadline_releases_context:
  assumes contract: "unary_contract (greet_with_deadline c)"
    and run: "doUnaryWithDeadline c t s = (oc, s')"
  shows "oc = Returned \<and> ctxs s' = ctxs s @ [Cancelled]
         \<and> (\<exists>es. out s' = out s @ es \<and> count_list es (CtxCancel (length (ctxs s))) = 1)"
  using doUnaryWithDeadline_contract_trace [OF contract run]
  by (auto simp: count_cancel_no_cancel)

theorem doUnaryWithDeadline_releases_context_witness:
  "unary_contract (greet_with_deadline (grpc_stub (fake_server 3000000000 10)))
   \<and> doUnaryWithDeadline (grpc_stub (fake_server 3000000000 10)) (5 * second) init_rt =
     (Returned,
      \<lparr>clock = 3000000000, ctxs = [Cancelled],
       out = [Print ''Starting to do a UnaryWithDeadline RPC...'', CtxNew 0 (5 * second),
              Call ''GreetWithDeadline'' (GreetWithDeadlineRequest stephane),
              LogV ''Response from GreetWithDeadline: %v'' (VStr ''Hello Stephane Maarek''),
              CtxCancel 0]\<rparr>)
   \<and> ctxs \<lparr>clock = 3000000000, ctxs = [Cancelled], out = []\<rparr> = ctxs init_rt @ [Cancelled]"
proof -
  have c: "unary_contract (greet_with_deadline (grpc_stub (fake_server 3000000000 10)))"
    by (simp add: grpc_stub_def grpc_unary_meets_contract)
  have run: "doUnaryWithDeadline (grpc_stub (fake_server 3000000000 10)) (5 * second) init_rt =
     (Returned,
      \<lparr>clock = 3000000000, ctxs = [Cancelled],
       out = [Print ''Starting to do a UnaryWithDeadline RPC...'', CtxNew 0 (5 * second),
              Call ''GreetWithDeadline'' (GreetWithDeadlineRequest stephane),
              LogV ''Response from GreetWithDeadline: %v'' (VStr ''Hello Stephane Maarek''),
              CtxCancel 0]\<rparr>)"
    by (simp add: doUnaryWithDeadline_def handle_deadline_result_def grpc_stub_def fake_server_def
        hello_def stephane_def go_simps)
  show ?thesis
    using c run doUnaryWithDeadline_releases_context [OF c run] by (simp add: init_rt_def)
qed

subsection \<open>The fatal path leaks the context\<close>

text \<open>
  C20. For every implementation of the service, when the call returns an error
  without a gRPC status (\<open>io.EOF\<close> or any other plain error),
  \<open>doUnaryWithDeadline\<close> takes the \<open>log.Fatalf\<close> path: the process exits with
  status 1 in the state the call left, with the fatal line as the only new event;
  since \<open>os.Exit\<close> skips the deferred \<open>cancel()\<close>, the context is not cancelled and
  no cancel event is emitted.
\<close>

theorem doUnaryWithDeadline_plain_error_leaks:
  assumes call: "greet_with_deadline c (TimeoutCtx (length (ctxs s)) (clock s + t))
                   (GreetWithDeadlineRequest stephane) (deadline_ctx_state t s) = (Inl e, s3)"
    and plain: "\<not> is_status_error e"
  shows "doUnaryWithDeadline c t s =
           (Exited 1, emit (FatalV ''error while calling GreetWithDeadline RPC: %v'' (VErr e)) s3)"
proof -
  from plain obtain st where st: "status_FromError e = (st, False)" by (cases e) simp_all
  then have "handle_deadline_result (Inl e) s3 =
      (Exited 1, emit (FatalV ''error while calling GreetWithDeadline RPC: %v'' (VErr e)) s3)"
    by (simp add: handle_deadline_result_def go_simps)
  then show ?thesis by (simp add: doUnaryWithDeadline_unfold [OF call])
qed

theorem doUnaryWithDeadline_plain_error_leaks_witness:
  "greet_with_deadline
     \<lparr>greet = (\<lambda>c req s. (Inl EOF, s)), greet_many_times = (\<lambda>c req s. (Inl EOF, s)),
      long_greet = (\<lambda>c s. (Inl EOF, s)), greet_everyone = (\<lambda>c s. (Inl EOF, s)),
      greet_with_deadline = (\<lambda>c req s. (Inl (PlainError ''connection reset''), s))\<rparr>
     (TimeoutCtx 0 second) (GreetWithDeadlineRequest stephane) (deadline_ctx_state second init_rt)
   = (Inl (PlainError ''connection reset''), deadline_ctx_state second init_rt)
   \<and> \<not> is_status_error (PlainError ''connection reset'')
   \<and> doUnaryWithDeadline
     \<lparr>greet = (\<lambda>c req s. (Inl EOF, s)), greet_many_times = (\<lambda>c req s. (Inl EOF, s)),
      long_greet = (\<lambda>c s. (Inl EOF, s)), greet_everyone = (\<lambda>c s. (Inl EOF, s)),
      greet_with_deadline = (\<lambda>c req s. (Inl (PlainError ''connection reset''), s))\<rparr>
     second init_rt
   = (Exited 1, \<lparr>clock = 0, ctxs = [Live second],
        out = [Print ''Starting to do a UnaryWithDeadline RPC...'', CtxNew 0 second,
               FatalV ''error while calling GreetWithDeadline RPC: %v'' (VErr (PlainError ''connection reset''))]\<rparr>)"
proof -
  let ?c = "\<lparr>greet = (\<lambda>c req s. (Inl EOF, s)), greet_many_times = (\<lambda>c req s. (Inl EOF, s)),
      long_greet = (\<lambda>c s. (Inl EOF, s)), greet_everyone = (\<lambda>c s. (Inl EOF, s)),
      greet_with_deadline = (\<lambda>c req s. (Inl (PlainError ''connection reset''), s))\<rparr>"
  have call: "greet_with_deadline ?c (TimeoutCtx (length (ctxs init_rt)) (clock init_rt + second))
      (GreetWithDeadlineRequest stephane) (deadline_ctx_state second init_rt)
      = (Inl (PlainError ''connection reset''), deadline_ctx_state second init_rt)" by simp
  have p: "\<not> is_status_error (PlainError ''connection reset'')" by simp
  from doUnaryWithDeadline_plain_error_leaks [OF call p] p show ?thesis
    by (simp add: init_rt_def emit_def)
qed

subsection \<open>The deadline bounds the call\<close>

text \<open>Over the gRPC transport a deadline call takes at most its timeout, and time does not go back.\<close>

lemma clock_handle_deadline_result: "clock (snd (handle_deadline_result r s)) = clock s"
  by (simp add: handle_deadline_result_def go_simps split: sum.split prod.split)

lemma doUnaryWithDeadline_grpc_clock:
  "clock s \<le> clock (snd (doUnaryWithDeadline (grpc_stub srv) t s))
   \<and> clock (snd (doUnaryWithDeadline (grpc_stub srv) t s)) \<le> clock s + max 0 t"
proof -
  obtain r d where h: "h_greet_with_deadline srv (GreetWithDeadlineRequest stephane) = (r, d)" by fastforce
  obtain r' s3 where call: "greet_with_deadline (grpc_stub srv) (TimeoutCtx (length (ctxs s)) (clock s + t))
      (GreetWithDeadlineRequest stephane) (deadline_ctx_state t s) = (r', s3)" by fastforce
  have c3: "clock s \<le> clock s3 \<and> clock s3 \<le> clock s + max 0 t"
    using call h by (auto simp: grpc_stub_def grpc_unary_def emit_def Let_def split: if_splits)
  obtain oc s4 where hd: "handle_deadline_result r' s3 = (oc, s4)" by fastforce
  have "clock s4 = clock s3" using clock_handle_deadline_result [of r' s3] hd by simp
  then show ?thesis
    using doUnaryWithDeadline_unfold [OF call] hd c3
    by (cases oc) (simp_all add: emit_def)
qed

end
