(* ===== verification/ClientMain.thy ===== *)
theory ClientMain
  imports Unary
begin

text \<open>
  \<open>main\<close> (lines 16--34): print a banner, dial the server, defer \<open>cc.Close()\<close>,
  then run \<open>doUnaryWithDeadline\<close> twice, with timeouts of five seconds and one
  second; the calls of the other drivers are commented out in the source and are
  not part of \<open>main\<close>. \<open>grpc.Dial\<close> with \<open>grpc.WithInsecure()\<close> does not block,
  so its outcome is a parameter of the model (\<open>None\<close> for a connection, \<open>Some err\<close>
  for an error); \<open>grpc_client.NewGreetServiceClient(cc)\<close> is the client \<open>c\<close>.
  The lemmas show that on every implementation meeting the unary contract
  \<open>main\<close> returns, releases both contexts, each before the next call starts,
  and closes the connection last; and that over the transport its trace and
  running time are fixed by the handler's response time, within six seconds however
  slow the server, whether or not the dial succeeds.
\<close>

definition dial_target :: string where
  "dial_target = ''localhost:50051''"

definition main :: "go_error option \<Rightarrow> greet_service_client \<Rightarrow> go_proc" where
  "main dial c s0 =
     (let s1 = fmt_Println ''Hello I'm a client'' s0
      in case dial of
           Some err \<Rightarrow> log_Fatalf ''could not connect: %v'' (VErr err) s1
         | None \<Rightarrow>
             go_defer (emit ConnClosed)
               (go_then (doUnaryWithDeadline c (5 * second)) (doUnaryWithDeadline c (1 * second))
                  (emit (Dialed dial_target) s1)))"

text \<open>
  C3. For every implementation of the service that meets the unary contract,
  \<open>main\<close> returns normally; both contexts it creates are cancelled, the first one
  before the second call starts, the second before the connection is closed; the
  connection is closed last, and no other cancel happens in between.
\<close>

theorem main_releases_contexts:
  assumes contract: "unary_contract (greet_with_deadline c)"
    and run: "main None c s = (oc, s')"
  shows "oc = Returned \<and> ctxs s' = ctxs s @ [Cancelled, Cancelled]
         \<and> (\<exists>a b dl. out s' = out s @ [Print ''Hello I'm a client'', Dialed dial_target,
                                         Print ''Starting to do a UnaryWithDeadline RPC...'',
                                         CtxNew (length (ctxs s)) (clock s + 5 * second)]
                       @ a @ [CtxCancel (length (ctxs s)),
                              Print ''Starting to do a UnaryWithDeadline RPC...'',
                              CtxNew (Suc (length (ctxs s))) dl]
                       @ b @ [CtxCancel (Suc (length (ctxs s))), ConnClosed]
                   \<and> \<not> list_ex is_cancel a \<and> \<not> list_ex is_cancel b)"
proof -
  let ?s1 = "emit (Dialed dial_target) (emit (Print ''Hello I'm a client'') s)"
  obtain oc1 s2 where r1: "doUnaryWithDeadline c (5 * second) ?s1 = (oc1, s2)"
    by fastforce
  obtain oc2 s3 where r2: "doUnaryWithDeadline c (1 * second) s2 = (oc2, s3)"
    by fastforce
  from doUnaryWithDeadline_contract_trace [OF contract r1] obtain a where
    oc1: "oc1 = Returned" and c2: "ctxs s2 = ctxs s @ [Cancelled]"
    and o2: "out s2 = out ?s1 @ [Print ''Starting to do a UnaryWithDeadline RPC...'',
               CtxNew (length (ctxs s)) (clock s + 5 * second)] @ a @ [CtxCancel (length (ctxs s))]"
    and a: "\<not> list_ex is_cancel a"
    by (auto simp: go_simps)
  from doUnaryWithDeadline_contract_trace [OF contract r2] obtain b where
    oc2: "oc2 = Returned" and c3: "ctxs s3 = ctxs s2 @ [Cancelled]"
    and o3: "out s3 = out s2 @ [Print ''Starting to do a UnaryWithDeadline RPC...'',
               CtxNew (length (ctxs s2)) (clock s2 + 1 * second)] @ b @ [CtxCancel (length (ctxs s2))]"
    and b: "\<not> list_ex is_cancel b"
    by blast
  from run r1 r2 oc1 oc2 have oc: "oc = Returned" and s': "s' = emit ConnClosed s3"
    by (simp_all add: main_def go_simps)
  show ?thesis
    using oc s' c2 c3 o2 o3 a b by (auto simp: go_simps)
qed

theorem main_releases_contexts_witness:
  "unary_contract (greet_with_deadline (grpc_stub (fake_server 0 0)))
   \<and> fst (main None (grpc_stub (fake_server 0 0)) init_rt) = Returned
   \<and> ctxs (snd (main None (grpc_stub (fake_server 0 0)) init_rt)) = [Cancelled, Cancelled]"
proof -
  have c: "unary_contract (greet_with_deadline (grpc_stub (fake_server 0 0)))"
    by (simp add: grpc_stub_def grpc_unary_meets_contract)
  show ?thesis
    using c main_releases_contexts [OF c prod.collapse [symmetric], of init_rt]
    by (simp add: init_rt_def)
qed

text \<open>
  C14. Over the gRPC transport, with a handler that answers \<open>r\<close> after \<open>d\<close>
  nanoseconds, \<open>main\<close> returns normally after exactly \<open>min 5s d + min 1s d\<close>: the
  first call reports a timeout exactly when \<open>d\<close> reaches five seconds, the second
  exactly when it reaches one second, each otherwise the classification of the
  handler's result; each context is cancelled right after its report, the second
  deadline counts from the end of the first call, and the connection is closed last.
\<close>

theorem main_grpc:
  assumes h: "h_greet_with_deadline srv (GreetWithDeadlineRequest stephane) = (r, d)"
  shows "main None (grpc_stub srv) s =
     (let i = length (ctxs s); c1 = clock s + min (5 * second) (int d)
      in (Returned,
          s\<lparr>clock := c1 + min second (int d), ctxs := ctxs s @ [Cancelled, Cancelled],
            out := out s @ [Print ''Hello I'm a client'', Dialed dial_target,
                   Print ''Starting to do a UnaryWithDeadline RPC...'', CtxNew i (clock s + 5 * second),
                   Call ''GreetWithDeadline'' (GreetWithDeadlineRequest stephane),
                   report (if 5 * second \<le> int d then DDeadlineExceeded else spec_classify (to_client_result r)),
                   CtxCancel i,
                   Print ''Starting to do a UnaryWithDeadline RPC...'', CtxNew (Suc i) (c1 + second),
                   Call ''GreetWithDeadline'' (GreetWithDeadlineRequest stephane),
                   report (if second \<le> int d then DDeadlineExceeded else spec_classify (to_client_result r)),
                   CtxCancel (Suc i), ConnClosed]\<rparr>))"
  using doUnaryWithDeadline_grpc_run [OF h, where t = "5 * second"]
    doUnaryWithDeadline_grpc_run [OF h, where t = "1 * second"]
  by (simp add: main_def go_simps min_def Let_def)

theorem main_grpc_witness:
  "h_greet_with_deadline (fake_server 3000000000 10) (GreetWithDeadlineRequest stephane)
     = (Inr (GreetWithDeadlineResponse ''Hello Stephane Maarek''), 3000000000)
   \<and> main None (grpc_stub (fake_server 3000000000 10)) init_rt =
     (Returned,
      \<lparr>clock = 4 * second, ctxs = [Cancelled, Cancelled],
       out = [Print ''Hello I'm a client'', Dialed dial_target,
              Print ''Starting to do a UnaryWithDeadline RPC...'', CtxNew 0 (5 * second),
              Call ''GreetWithDeadline'' (GreetWithDeadlineRequest stephane),
              LogV ''Response from GreetWithDeadline: %v'' (VStr ''Hello Stephane Maarek''),
              CtxCancel 0,
              Print ''Starting to do a UnaryWithDeadline RPC...'', CtxNew 1 (4 * second),
              Call ''GreetWithDeadline'' (GreetWithDeadlineRequest stephane),
              Print ''Timeout was hit! Deadline was exceeded'',
              CtxCancel 1, ConnClosed]\<rparr>)"
proof -
  have h: "h_greet_with_deadline (fake_server 3000000000 10) (GreetWithDeadlineRequest stephane)
     = (Inr (GreetWithDeadlineResponse ''Hello Stephane Maarek''), 3000000000)"
    by (simp add: fake_server_def hello_def stephane_def)
  show ?thesis
    using h main_grpc [OF h, of init_rt] by (simp add: init_rt_def to_client_result_def)
qed

subsection \<open>Running time\<close>

text \<open>
  C16. Over the gRPC transport, however slow the server, \<open>main\<close> ends within six
  seconds of its start (the two deadlines of five seconds and one second), and
  time does not go back.
\<close>

theorem main_grpc_time_bound:
  assumes "main dial (grpc_stub srv) s = (oc, s')"
  shows "clock s \<le> clock s' \<and> clock s' \<le> clock s + 6 * second"
proof (cases dial)
  case (Some e)
  with assms show ?thesis by (auto simp: main_def go_simps)
next
  case None
  let ?s1 = "emit (Dialed dial_target) (fmt_Println ''Hello I'm a client'' s)"
  obtain oc1 s2 where r1: "doUnaryWithDeadline (grpc_stub srv) (5 * second) ?s1 = (oc1, s2)" by fastforce
  obtain oc2 s3 where r2: "doUnaryWithDeadline (grpc_stub srv) (1 * second) s2 = (oc2, s3)" by fastforce
  have c2: "clock s \<le> clock s2 \<and> clock s2 \<le> clock s + 5 * second"
    using doUnaryWithDeadline_grpc_clock [of ?s1 srv "5 * second"] r1 by (simp add: go_simps)
  have c3: "clock s2 \<le> clock s3 \<and> clock s3 \<le> clock s2 + 1 * second"
    using doUnaryWithDeadline_grpc_clock [of s2 srv "1 * second"] r2 by simp
  have m: "go_defer (emit ConnClosed) (go_then (doUnaryWithDeadline (grpc_stub srv) (5 * second))
             (doUnaryWithDeadline (grpc_stub srv) (1 * second)) ?s1) = (oc, s')"
    using assms None by (simp add: main_def)
  show ?thesis
  proof (cases oc1)
    case Returned
    with m r1 r2 have "go_defer (emit ConnClosed) (oc2, s3) = (oc, s')" by (simp add: go_then_def)
    then have "clock s' = clock s3" by (cases oc2) (auto simp: emit_def)
    with c2 c3 show ?thesis by simp
  next
    case (Exited n)
    with m r1 have "s' = s2" by (simp add: go_then_def)
    with c2 show ?thesis by simp
  qed
qed

theorem main_grpc_time_bound_witness:
  "clock init_rt \<le> clock (snd (main None (grpc_stub (fake_server 10000000000 1)) init_rt))
   \<and> clock (snd (main None (grpc_stub (fake_server 10000000000 1)) init_rt)) \<le> 6 * second"
  using main_grpc_time_bound [OF prod.collapse [symmetric], where dial = None and srv = "fake_server 10000000000 1" and s = init_rt]
  by (simp add: init_rt_def)

end
