(* ===== verification/DeadlineMachine.thy ===== *)
theory DeadlineMachine
  imports Unary
begin

text \<open>
  The spec's state machine of a call (section 4.5): \<open>Idle \<rightarrow> InFlight \<rightarrow>
  {Completed | Failed | TimedOut}\<close>, where \<open>InFlight\<close> is entered when the context is
  constructed and the call issued and left exactly once, and never re-entered (no
  retry). The machine reads the observable events of a run: the creation of a
  context, and the three reports of the outcome. The theorem shows that the events
  of \<open>doUnaryWithDeadline\<close> drive it from \<open>Idle\<close> to the final state of the spec's
  classification of the call's result, and to no other state.
\<close>

datatype call_state = Idle | InFlight | Completed | TimedOut | Failed

datatype obs = ONew | OOk | OTimeout | OFail | OOther

text \<open>What the machine sees of an event of the trace.\<close>

fun observe :: "event \<Rightarrow> obs" where
  "observe (CtxNew i dl) = ONew"
| "observe (LogV f v) = (if f = ''Response from GreetWithDeadline: %v'' then OOk else OOther)"
| "observe (Print m) = (if m = ''Timeout was hit! Deadline was exceeded'' then OTimeout else OOther)"
| "observe (PrintV f v) = (if f = ''unexpected error: %v'' then OFail else OOther)"
| "observe e = OOther"

inductive spec_trans :: "call_state \<Rightarrow> obs \<Rightarrow> call_state \<Rightarrow> bool" where
  issue: "spec_trans Idle ONew InFlight"
| complete: "spec_trans InFlight OOk Completed"
| time_out: "spec_trans InFlight OTimeout TimedOut"
| fail: "spec_trans InFlight OFail Failed"
| other: "spec_trans q OOther q"

inductive spec_run :: "call_state \<Rightarrow> obs list \<Rightarrow> call_state \<Rightarrow> bool" where
  stop: "spec_run q [] q"
| move: "spec_trans q x q' \<Longrightarrow> spec_run q' xs q'' \<Longrightarrow> spec_run q (x # xs) q''"

code_pred spec_trans .

code_pred spec_run .

fun final_state :: "deadline_outcome \<Rightarrow> call_state" where
  "final_state (DOk r) = Completed"
| "final_state DDeadlineExceeded = TimedOut"
| "final_state (DFailure e) = Failed"

text \<open>A unary call whose own events are invisible to the machine.\<close>

definition quiet_call :: "unary_call \<Rightarrow> bool" where
  "quiet_call call \<longleftrightarrow>
     (\<forall>x req s. \<exists>es. out (snd (call x req s)) = out s @ es \<and> list_all (\<lambda>e. observe e = OOther) es)"

inductive_cases spec_transE: "spec_trans q x q'"

inductive_simps spec_run_Nil [simp]: "spec_run q [] q'"

inductive_simps spec_run_Cons [simp]: "spec_run q (x # xs) q'"

lemma spec_run_append: "spec_run q (xs @ ys) q'' \<longleftrightarrow> (\<exists>q'. spec_run q xs q' \<and> spec_run q' ys q'')"
  by (induction xs arbitrary: q) auto

lemma spec_run_others: "list_all (\<lambda>x. x = OOther) xs \<Longrightarrow> spec_run q xs q' \<longleftrightarrow> q' = q"
  by (induction xs arbitrary: q) (auto elim: spec_transE intro: spec_trans.other)

lemma quiet_callD:
  assumes "quiet_call call" and "call x req s = (r, s')"
  shows "\<exists>es. out s' = out s @ es \<and> list_all (\<lambda>e. observe e = OOther) es"
  using assms unfolding quiet_call_def by (metis snd_conv)

lemma grpc_unary_quiet: "quiet_call (grpc_unary name h)"
  unfolding quiet_call_def
proof (intro allI)
  fix x req s
  obtain r d where "h req = (r, d)" by fastforce
  then show "\<exists>es. out (snd (grpc_unary name h x req s)) = out s @ es \<and> list_all (\<lambda>e. observe e = OOther) es"
    by (auto simp: grpc_unary_def emit_def Let_def split: option.split)
qed

text \<open>
  The events of one deadline call, for every implementation meeting the unary
  contract whose calls the machine does not observe: a complete run of the machine
  from \<open>Idle\<close> to the final state of the classification of the call's result.
\<close>

lemma doUnaryWithDeadline_machine_run:
  assumes contract: "unary_contract (greet_with_deadline c)" and quiet: "quiet_call (greet_with_deadline c)"
  shows "\<exists>es. out (snd (doUnaryWithDeadline c t s)) = out s @ es
           \<and> (\<forall>q. spec_run Idle (map observe es) q \<longleftrightarrow>
                  q = final_state (spec_classify (fst (greet_with_deadline c (TimeoutCtx (length (ctxs s)) (clock s + t))
                                                       (GreetWithDeadlineRequest stephane) (deadline_ctx_state t s)))))"
proof -
  let ?i = "length (ctxs s)" and ?dl = "clock s + t"
  obtain r s3 where call: "greet_with_deadline c (TimeoutCtx ?i ?dl) (GreetWithDeadlineRequest stephane)
      (deadline_ctx_state t s) = (r, s3)" by fastforce
  from quiet_callD [OF quiet call] obtain es where
    es: "out s3 = out (deadline_ctx_state t s) @ es" and silent: "list_all (\<lambda>e. observe e = OOther) es"
    by blast
  from unary_contractD(3) [OF contract call]
  have out': "out (snd (doUnaryWithDeadline c t s)) = out s @
      ([Print ''Starting to do a UnaryWithDeadline RPC...'', CtxNew ?i ?dl] @ es @ [report (spec_classify r), CtxCancel ?i])"
    using doUnaryWithDeadline_unfold [OF call] handle_deadline_result_status es by (simp add: emit_def)
  have others: "list_all (\<lambda>x. x = OOther) (map observe es)"
    using silent by (simp add: list_all_iff)
  have "spec_run Idle (map observe ([Print ''Starting to do a UnaryWithDeadline RPC...'', CtxNew ?i ?dl] @ es
            @ [report (spec_classify r), CtxCancel ?i])) q \<longleftrightarrow> q = final_state (spec_classify r)" for q
    using others
    by (cases "spec_classify r")
      (auto simp: spec_run_append spec_run_others spec_trans.simps)
  with out' call show ?thesis by auto
qed

text \<open>
  C8. For every implementation of the service that meets the unary contract and
  whose calls emit no event the machine observes (the gRPC transport is one), the
  events of \<open>doUnaryWithDeadline\<close> take the spec's call state machine from \<open>Idle\<close>
  through \<open>InFlight\<close>, entered once when the context is made, to exactly the final
  state of the spec's classification of the result: \<open>Completed\<close>, \<open>TimedOut\<close> or
  \<open>Failed\<close>, and to no other state; the machine never re-enters \<open>InFlight\<close>.
\<close>

theorem doUnaryWithDeadline_call_machine:
  assumes contract: "unary_contract (greet_with_deadline c)" and quiet: "quiet_call (greet_with_deadline c)"
    and call: "greet_with_deadline c (TimeoutCtx (length (ctxs s)) (clock s + t))
                 (GreetWithDeadlineRequest stephane) (deadline_ctx_state t s) = (r, s3)"
  shows "\<exists>es. out (snd (doUnaryWithDeadline c t s)) = out s @ es
           \<and> (\<forall>q. spec_run Idle (map observe es) q \<longleftrightarrow> q = final_state (spec_classify r))"
  using doUnaryWithDeadline_machine_run [OF contract quiet, of t s] call by simp

theorem doUnaryWithDeadline_call_machine_witness:
  "unary_contract (greet_with_deadline (grpc_stub (fake_server 3000000000 10)))
   \<and> quiet_call (greet_with_deadline (grpc_stub (fake_server 3000000000 10)))
   \<and> greet_with_deadline (grpc_stub (fake_server 3000000000 10)) (TimeoutCtx 0 second)
       (GreetWithDeadlineRequest stephane) (deadline_ctx_state second init_rt)
     = (Inl deadline_error,
        \<lparr>clock = second, ctxs = [Live second],
         out = [Print ''Starting to do a UnaryWithDeadline RPC...'', CtxNew 0 second,
                Call ''GreetWithDeadline'' (GreetWithDeadlineRequest stephane)]\<rparr>)
   \<and> (\<exists>es. out (snd (doUnaryWithDeadline (grpc_stub (fake_server 3000000000 10)) second init_rt)) = es
         \<and> spec_run Idle (map observe es) TimedOut)"
proof -
  let ?c = "grpc_stub (fake_server 3000000000 10)"
  have c: "unary_contract (greet_with_deadline ?c)"
    by (simp add: grpc_stub_def grpc_unary_meets_contract)
  have q: "quiet_call (greet_with_deadline ?c)"
    by (simp add: grpc_stub_def grpc_unary_quiet)
  have call: "greet_with_deadline ?c (TimeoutCtx 0 second) (GreetWithDeadlineRequest stephane)
       (deadline_ctx_state second init_rt)
     = (Inl deadline_error,
        \<lparr>clock = second, ctxs = [Live second],
         out = [Print ''Starting to do a UnaryWithDeadline RPC...'', CtxNew 0 second,
                Call ''GreetWithDeadline'' (GreetWithDeadlineRequest stephane)]\<rparr>)"
    by (simp add: grpc_stub_def fake_server_def go_simps)
  have "spec_classify (Inl deadline_error) = DDeadlineExceeded" by (simp add: deadline_error_def)
  with c q call doUnaryWithDeadline_call_machine [of ?c init_rt second] show ?thesis
    by (auto simp: init_rt_def)
qed

end
