(* ===== verification/ServerStream.thy ===== *)
theory ServerStream
  imports GreetService
begin

text \<open>
  \<open>doServerStreaming\<close> (lines 52--77): one \<open>GreetManyTimes\<close> call, then a loop
  that receives until \<open>io.EOF\<close>. The loop is unbounded in the source, since a stream
  need not end, so it is a \<^theory_text>\<open>partial_function (option)\<close>: \<open>None\<close> is a
  loop that never exits. The lemmas characterise exactly when it returns (the stream
  reaches an error, \<open>io.EOF\<close> included), what it prints on the way (every message in
  order), and how it ends (normally on \<open>io.EOF\<close>, through \<open>log.Fatalf\<close> on any
  other error); for any stream, the printed results are the spec's sequence of
  results up to the first end.
\<close>

text \<open>Lines 64--76; \<open>i\<close> counts the \<open>Recv()\<close> calls made so far.\<close>

partial_function (option) recv_loop :: "recv_stream \<Rightarrow> nat \<Rightarrow> rt \<Rightarrow> (outcome \<times> rt) option" where
  "recv_loop st i s =
     (case st i of
        Inl err \<Rightarrow>
          if err = EOF then Some (Returned, s)
          else Some (log_Fatalf ''error while reading stream: %v'' (VErr err) s)
      | Inr msg \<Rightarrow>
          recv_loop st (Suc i) (log_Printf ''response from GreetManyTimes: %v'' (VStr (result msg)) s))"

definition doServerStreaming :: "greet_service_client \<Rightarrow> rt \<Rightarrow> (outcome \<times> rt) option" where
  "doServerStreaming c s0 =
     (let s1 = fmt_Println ''Starting to do server streaming RPC...'' s0;
          req = GreetManyTimesRequest stephane;
          (r, s2) = greet_many_times c Background req s1
      in case r of
           Inl err \<Rightarrow> Some (log_Fatalf ''error while calling GreetManyTimes RPC: %v'' (VErr err) s2)
         | Inr st \<Rightarrow> recv_loop st 0 s2)"

text \<open>How the loop ends on an error \<open>e\<close>, with the state \<open>s\<close> reached.\<close>

definition loop_exit :: "go_error \<Rightarrow> rt \<Rightarrow> outcome \<times> rt" where
  "loop_exit e s =
     (if e = EOF then (Returned, s) else log_Fatalf ''error while reading stream: %v'' (VErr e) s)"

definition logged :: "response list \<Rightarrow> event list" where
  "logged ms = map (\<lambda>m. LogV ''response from GreetManyTimes: %v'' (VStr (result m))) ms"

text \<open>
  The results a run has printed, read back from its trace: the abstraction of a run
  to the spec's sequence of result strings (section 4.2).
\<close>

fun printed_results :: "event list \<Rightarrow> string list" where
  "printed_results [] = []"
| "printed_results (LogV f (VStr x) # es) =
     (if f = ''response from GreetManyTimes: %v'' then x # printed_results es else printed_results es)"
| "printed_results (e # es) = printed_results es"

lemma recv_loop_unfold:
  "recv_loop st i s =
     (case st i of
        Inl e \<Rightarrow> Some (loop_exit e s)
      | Inr m \<Rightarrow> recv_loop st (Suc i) (emit (LogV ''response from GreetManyTimes: %v'' (VStr (result m))) s))"
  by (subst recv_loop.simps) (simp add: loop_exit_def go_simps split: sum.split)

lemma recv_loop_reaches_end:
  "isl (st (i + k)) \<Longrightarrow> \<exists>r. recv_loop st i s = Some r"
proof (induction k arbitrary: i s)
  case 0
  then show ?case by (cases "st i") (simp_all add: recv_loop_unfold)
next
  case (Suc k)
  show ?case
  proof (cases "st i")
    case (Inl e)
    then show ?thesis by (simp add: recv_loop_unfold)
  next
    case (Inr m)
    from Suc.prems have "isl (st (Suc i + k))" by simp
    then show ?thesis using Suc.IH Inr by (simp add: recv_loop_unfold)
  qed
qed

lemma recv_loop_Some_end:
  assumes "recv_loop st i s = Some r"
  shows "\<exists>n\<ge>i. isl (st n)"
proof (rule recv_loop.raw_induct [where P = "\<lambda>st i s r. \<exists>n\<ge>i. isl (st n)", OF _ assms])
  fix f :: "recv_stream \<Rightarrow> nat \<Rightarrow> rt \<Rightarrow> (outcome \<times> rt) option" and st i s r
  assume IH: "\<And>st i s r. f st i s = Some r \<Longrightarrow> \<exists>n\<ge>i. isl (st n)"
    and eq: "(case st i of
        Inl err \<Rightarrow>
          if err = EOF then Some (Returned, s)
          else Some (log_Fatalf ''error while reading stream: %v'' (VErr err) s)
      | Inr msg \<Rightarrow>
          f st (Suc i) (log_Printf ''response from GreetManyTimes: %v'' (VStr (result msg)) s)) = Some r"
  show "\<exists>n\<ge>i. isl (st n)"
  proof (cases "st i")
    case (Inl e)
    then show ?thesis by auto
  next
    case (Inr m)
    with eq IH have "\<exists>n\<ge>Suc i. isl (st n)" by simp
    then show ?thesis by (auto intro: Suc_leD)
  qed
qed

text \<open>
  C5. The receive loop of \<open>doServerStreaming\<close> returns (normally or through
  \<open>log.Fatalf\<close>) exactly when some \<open>Recv()\<close> from the current one on yields an
  error; on a stream that delivers messages forever it never returns.
\<close>

theorem recv_loop_returns_iff:
  "(\<exists>r. recv_loop st i s = Some r) \<longleftrightarrow> (\<exists>n\<ge>i. isl (st n))"
proof
  assume "\<exists>r. recv_loop st i s = Some r"
  then show "\<exists>n\<ge>i. isl (st n)" by (blast dest: recv_loop_Some_end)
next
  assume "\<exists>n\<ge>i. isl (st n)"
  then obtain k where "isl (st (i + k))" by (auto dest: le_Suc_ex)
  then show "\<exists>r. recv_loop st i s = Some r" by (rule recv_loop_reaches_end)
qed

text \<open>On a stream that delivers \<open>ms\<close> and then an error \<open>e\<close>, the loop logs \<open>ms\<close> in order and exits on \<open>e\<close>.\<close>

lemma recv_loop_messages:
  "(\<forall>k<length ms. st (i + k) = Inr (ms ! k)) \<Longrightarrow> st (i + length ms) = Inl e \<Longrightarrow>
   recv_loop st i s = Some (loop_exit e (s\<lparr>out := out s @ logged ms\<rparr>))"
proof (induction ms arbitrary: i s)
  case Nil
  then show ?case by (simp add: recv_loop_unfold logged_def)
next
  case (Cons m ms)
  from Cons.prems(1) have hd: "st i = Inr m" by (metis add_0_right length_Cons nth_Cons_0 zero_less_Suc)
  from Cons.prems have "\<forall>k<length ms. st (Suc i + k) = Inr (ms ! k)" and "st (Suc i + length ms) = Inl e"
    by auto
  from Cons.IH [OF this] hd show ?case
    by (simp add: recv_loop_unfold logged_def go_simps)
qed

theorem recv_loop_returns_iff_witness:
  "(\<exists>r. recv_loop (stream_of [GreetManyTimesResponse ''a''] None) 0 init_rt = Some r)
   \<and> (\<exists>n\<ge>0. isl (stream_of [GreetManyTimesResponse ''a''] None n))
   \<and> recv_loop (\<lambda>i. Inr (GreetManyTimesResponse ''a'')) 0 init_rt = None"
proof -
  have e: "isl (stream_of [GreetManyTimesResponse ''a''] None 1)"
    by (simp add: stream_of_def)
  have "\<not> (\<exists>r. recv_loop (\<lambda>i. Inr (GreetManyTimesResponse ''a'')) 0 init_rt = Some r)"
    using recv_loop_returns_iff [of "\<lambda>i. Inr (GreetManyTimesResponse ''a'')" 0 init_rt] by simp
  then have "recv_loop (\<lambda>i. Inr (GreetManyTimesResponse ''a'')) 0 init_rt = None"
    by (cases "recv_loop (\<lambda>i. Inr (GreetManyTimesResponse ''a'')) 0 init_rt") auto
  then show ?thesis
    using e recv_loop_returns_iff [of "stream_of [GreetManyTimesResponse ''a''] None" 0 init_rt]
    by (auto intro: exI [of _ 1])
qed

text \<open>
  C22. Over the gRPC transport, when the handler sends the messages \<open>ms\<close> and returns
  with status \<open>fin\<close>, \<open>doServerStreaming\<close> returns a result: it logs every message of
  \<open>ms\<close> in order, then returns normally if the status is OK (the client sees
  \<open>io.EOF\<close>) and otherwise exits through \<open>log.Fatalf\<close> with the status error.
\<close>

theorem doServerStreaming_grpc:
  assumes "h_greet_many_times srv (GreetManyTimesRequest stephane) = (ms, fin)"
  shows "doServerStreaming (grpc_stub srv) s =
    Some (loop_exit (case fin of None \<Rightarrow> EOF | Some e \<Rightarrow> to_status_error e)
      (s\<lparr>out := out s @ [Print ''Starting to do server streaming RPC...'',
                          Call ''GreetManyTimes'' (GreetManyTimesRequest stephane)] @ logged ms\<rparr>))"
proof -
  have "recv_loop (stream_of ms fin) 0 s' =
        Some (loop_exit (case fin of None \<Rightarrow> EOF | Some e \<Rightarrow> to_status_error e) (s'\<lparr>out := out s' @ logged ms\<rparr>))"
    for s'
    by (rule recv_loop_messages) (simp_all add: stream_of_def)
  then show ?thesis
    using assms by (simp add: doServerStreaming_def grpc_stub_def go_simps)
qed

theorem doServerStreaming_grpc_witness:
  "h_greet_many_times (fake_server 0 2) (GreetManyTimesRequest stephane)
     = ([GreetManyTimesResponse ''Hello Stephane number 0'', GreetManyTimesResponse ''Hello Stephane number 1''], None)
   \<and> doServerStreaming (grpc_stub (fake_server 0 2)) init_rt =
     Some (Returned,
       \<lparr>clock = 0, ctxs = [],
        out = [Print ''Starting to do server streaming RPC...'',
               Call ''GreetManyTimes'' (GreetManyTimesRequest stephane),
               LogV ''response from GreetManyTimes: %v'' (VStr ''Hello Stephane number 0''),
               LogV ''response from GreetManyTimes: %v'' (VStr ''Hello Stephane number 1'')]\<rparr>)"
proof -
  have h: "h_greet_many_times (fake_server 0 2) (GreetManyTimesRequest stephane)
     = ([GreetManyTimesResponse ''Hello Stephane number 0'', GreetManyTimesResponse ''Hello Stephane number 1''], None)"
    by (simp add: fake_server_def stephane_def upt_rec) code_simp
  show ?thesis
    using h doServerStreaming_grpc [OF h, of init_rt] by (simp add: loop_exit_def logged_def init_rt_def)
qed

subsection \<open>The loop implements the spec's sequence of results\<close>

lemma printed_results_append [simp]: "printed_results (xs @ ys) = printed_results xs @ printed_results ys"
  by (induction xs rule: printed_results.induct) auto

lemma printed_results_logged [simp]: "printed_results (logged ms) = map result ms"
  by (induction ms) (simp_all add: logged_def)

text \<open>
  C21. For any stream whose first end (\<open>io.EOF\<close> or an error) is its \<open>n\<close>-th
  \<open>Recv()\<close>, the receive loop of \<open>doServerStreaming\<close> returns, the results it has
  printed are exactly those of the first \<open>n\<close> messages, in order, and it returns
  normally exactly when the end is \<open>io.EOF\<close> (otherwise it exits through
  \<open>log.Fatalf\<close>).
\<close>

theorem recv_loop_refines_sequence:
  assumes "st n = Inl e" and "\<forall>k<n. \<not> isl (st k)"
  shows "\<exists>oc s'. recv_loop st 0 s = Some (oc, s')
           \<and> (\<exists>es. out s' = out s @ es \<and> printed_results es = map (\<lambda>k. result (projr (st k))) [0..<n])
           \<and> (oc = Returned \<longleftrightarrow> e = EOF)"
proof -
  let ?ms = "map (\<lambda>k. projr (st k)) [0..<n]"
  have "\<forall>k<length ?ms. st (0 + k) = Inr (?ms ! k)"
    using assms(2) by (auto simp: sum.collapse(2))
  moreover have "st (0 + length ?ms) = Inl e" using assms(1) by simp
  ultimately have "recv_loop st 0 s = Some (loop_exit e (s\<lparr>out := out s @ logged ?ms\<rparr>))"
    by (rule recv_loop_messages)
  then show ?thesis
    by (auto simp: loop_exit_def go_simps comp_def)
qed

theorem recv_loop_refines_sequence_witness:
  "stream_of [GreetManyTimesResponse ''a'', GreetManyTimesResponse ''b''] (Some (StatusError Internal ''boom'')) 2
     = Inl (StatusError Internal ''boom'')
   \<and> \<not> isl (stream_of [GreetManyTimesResponse ''a'', GreetManyTimesResponse ''b''] (Some (StatusError Internal ''boom'')) 0)
   \<and> \<not> isl (stream_of [GreetManyTimesResponse ''a'', GreetManyTimesResponse ''b''] (Some (StatusError Internal ''boom'')) 1)
   \<and> (\<exists>oc s'. recv_loop (stream_of [GreetManyTimesResponse ''a'', GreetManyTimesResponse ''b''] (Some (StatusError Internal ''boom''))) 0 init_rt
                = Some (oc, s')
             \<and> (\<exists>es. out s' = out init_rt @ es \<and> printed_results es = [''a'', ''b''])
             \<and> oc \<noteq> Returned)"
proof -
  let ?st = "stream_of [GreetManyTimesResponse ''a'', GreetManyTimesResponse ''b''] (Some (StatusError Internal ''boom''))"
  have e: "?st 2 = Inl (StatusError Internal ''boom'')" by (simp add: stream_of_def to_status_error_def)
  have ok: "\<forall>k<2. \<not> isl (?st k)" by (simp add: stream_of_def)
  have ms: "map (\<lambda>k. result (projr (?st k))) [0..<2] = [''a'', ''b'']"
    by (simp add: stream_of_def upt_rec)
  from recv_loop_refines_sequence [OF e ok, of init_rt] ms e ok show ?thesis by (auto simp: less_Suc_eq)
qed

end
