(* ===== verification/ClientStream.thy ===== *)
theory ClientStream
  imports GreetService
begin

text \<open>
  \<open>doClientStreaming\<close> (lines 79--127): open a \<open>LongGreet\<close> stream, send the five
  requests of the slice one by one with a pause of one second after each, then
  \<open>CloseAndRecv()\<close>. The send loop is structural recursion over the slice, with the
  messages the server has received so far as an accumulator. The lemmas give the
  loop's exact effect (what is delivered, printed and how long it takes), including
  when the server stops reading: the code ignores the error of \<open>stream.Send\<close>, so
  it keeps printing and pausing for messages that are dropped. The recursive loop is
  proved equal to a closed form, and the driver's behaviour when the server stops
  reading is given exactly.
\<close>

text \<open>
  Lines 115--119, for the stream \<open>cs\<close>; \<open>delivered\<close> are the messages the server has
  received. The result of \<open>stream.Send(req)\<close> is discarded, as in the source.
  (Format strings are recorded without their trailing newline escape.)
\<close>

fun send_loop :: "client_stream \<Rightarrow> request list \<Rightarrow> request list \<Rightarrow> rt \<Rightarrow> request list \<times> rt" where
  "send_loop cs [] delivered s = (delivered, s)"
| "send_loop cs (req # reqs) delivered s =
     (let s1 = fmt_Printf ''Sending req: %v '' (VReq req) s;
          (_, delivered', s2) = stream_send cs delivered req s1;
          s3 = time_Sleep (1000 * millisecond) s2
      in send_loop cs reqs delivered' s3)"

definition doClientStreaming :: "greet_service_client \<Rightarrow> go_proc" where
  "doClientStreaming c s0 =
     (let s1 = fmt_Println ''Starting to do client streaming RPC...'' s0;
          requests = long_greet_requests;
          (r, s2) = long_greet c Background s1
      in case r of
           Inl err \<Rightarrow> log_Fatalf ''error while calling LongGreet: %v'' (VErr err) s2
         | Inr cs \<Rightarrow>
             (let (delivered, s3) = send_loop cs requests [] s2;
                  s4 = emit StreamCloseSend s3
              in case cs_reply cs delivered of
                   Inl err \<Rightarrow> log_Fatalf ''error while receiving response from LongGreet: %v'' (VErr err) s4
                 | Inr res \<Rightarrow> (Returned, fmt_Printf ''LongGreet Response: %v'' (VResp res) s4)))"

text \<open>The events of one iteration that delivers its message.\<close>

definition sent_events :: "request list \<Rightarrow> event list" where
  "sent_events reqs = concat (map (\<lambda>r. [PrintV ''Sending req: %v '' (VReq r), StreamSend r]) reqs)"

text \<open>The requests announced by \<open>Sending req\<close> lines in a trace.\<close>

fun announced :: "event list \<Rightarrow> request list" where
  "announced [] = []"
| "announced (PrintV f (VReq r) # es) =
     (if f = ''Sending req: %v '' then r # announced es else announced es)"
| "announced (e # es) = announced es"

text \<open>The events of iterations whose message the stream refuses: only the announcement.\<close>

definition announce_events :: "request list \<Rightarrow> event list" where
  "announce_events reqs = map (\<lambda>r. PrintV ''Sending req: %v '' (VReq r)) reqs"

text \<open>How many of \<open>reqs\<close> a stream accepts after it has received \<open>d\<close> messages.\<close>

definition accepted :: "client_stream \<Rightarrow> nat \<Rightarrow> nat \<Rightarrow> nat" where
  "accepted cs d k = (case cs_limit cs of None \<Rightarrow> k | Some n \<Rightarrow> min k (n - d))"

text \<open>
  The events of the send loop in closed form, when the stream accepts the first
  \<open>k\<close> requests: each of them is announced and sent, each later one only announced.
\<close>

definition send_trace :: "nat \<Rightarrow> request list \<Rightarrow> event list" where
  "send_trace k reqs =
     concat (map (\<lambda>r. [PrintV ''Sending req: %v '' (VReq r), StreamSend r]) (take k reqs))
     @ map (\<lambda>r. PrintV ''Sending req: %v '' (VReq r)) (drop k reqs)"

lemma announced_append [simp]: "announced (xs @ ys) = announced xs @ announced ys"
  by (induction xs rule: announced.induct) auto

lemma accepted_Cons:
  "accepted cs d (Suc k) =
     (case cs_limit cs of None \<Rightarrow> Suc (accepted cs (Suc d) k)
      | Some n \<Rightarrow> if n \<le> d then 0 else Suc (accepted cs (Suc d) k))"
  by (simp add: accepted_def split: option.split) (auto simp: min_def)

text \<open>
  The loop in pieces: over a concatenation, while the stream still accepts (every
  message delivered), and once it refuses (every message dropped).
\<close>

lemma send_loop_append:
  "send_loop cs (xs @ ys) d s = (case send_loop cs xs d s of (d', s') \<Rightarrow> send_loop cs ys d' s')"
  by (induction xs arbitrary: d s) (simp_all add: Let_def split: prod.split)

lemma send_loop_accepting:
  "(case cs_limit cs of None \<Rightarrow> True | Some n \<Rightarrow> length d + length reqs \<le> n) \<Longrightarrow>
   send_loop cs reqs d s = (d @ reqs, s\<lparr>clock := clock s + second * int (length reqs), out := out s @ sent_events reqs\<rparr>)"
  by (induction reqs arbitrary: d s) (auto simp: sent_events_def go_simps algebra_simps split: option.splits)

lemma send_loop_refused:
  "cs_limit cs = Some n \<Longrightarrow> n \<le> length d \<Longrightarrow>
   send_loop cs reqs d s = (d, s\<lparr>clock := clock s + second * int (length reqs), out := out s @ announce_events reqs\<rparr>)"
  by (induction reqs arbitrary: s) (simp_all add: announce_events_def go_simps algebra_simps)

lemma send_trace_Cons:
  "send_trace (Suc k) (r # reqs) = PrintV ''Sending req: %v '' (VReq r) # StreamSend r # send_trace k reqs"
  "send_trace 0 (r # reqs) = PrintV ''Sending req: %v '' (VReq r) # send_trace 0 reqs"
  by (simp_all add: send_trace_def)

text \<open>
  C11. The send loop of \<open>doClientStreaming\<close> is equivalent to its closed form, for
  every stream: it delivers the prefix of the requests that the stream accepts,
  prints a \<open>Sending req\<close> line for every request and sends exactly the accepted
  ones, in order, and takes one second per request, accepted or not.
\<close>

theorem send_loop_closed_form:
  "send_loop cs reqs d s =
     (let k = accepted cs (length d) (length reqs)
      in (d @ take k reqs,
          s\<lparr>clock := clock s + second * int (length reqs), out := out s @ send_trace k reqs\<rparr>))"
proof (induction reqs arbitrary: d s)
  case Nil
  then show ?case by (simp add: send_trace_def accepted_def split: option.split)
next
  case (Cons r reqs)
  show ?case
  proof (cases "\<exists>n. cs_limit cs = Some n \<and> n \<le> length d")
    case True
    then obtain n where n: "cs_limit cs = Some n" "n \<le> length d" by blast
    then have "accepted cs (length d) k = 0" for k by (simp add: accepted_def)
    with Cons.IH n show ?thesis
      by (simp add: go_simps send_trace_Cons algebra_simps)
  next
    case False
    then have "accepted cs (length d) (Suc (length reqs)) = Suc (accepted cs (Suc (length d)) (length reqs))"
      by (auto simp: accepted_Cons split: option.split)
    with Cons.IH False show ?thesis
      by (cases "cs_limit cs") (auto simp: go_simps Let_def send_trace_Cons algebra_simps)
  qed
qed

text \<open>
  C23. Over the gRPC transport, when the \<open>LongGreet\<close> handler reads every message,
  the server receives the five requests of the slice in the order of the slice, the
  client takes five seconds of pauses, half-closes the stream once, and then prints
  the aggregated reply, or exits through \<open>log.Fatalf\<close> if the reply is an error.
\<close>

theorem doClientStreaming_grpc:
  assumes "cs_limit (h_long_greet srv) = None"
  shows "doClientStreaming (grpc_stub srv) s =
    (let s4 = s\<lparr>clock := clock s + 5 * second,
                out := out s @ [Print ''Starting to do client streaming RPC...'', Open ''LongGreet'']
                       @ sent_events long_greet_requests @ [StreamCloseSend]\<rparr>
     in case cs_reply (h_long_greet srv) long_greet_requests of
          Inl e \<Rightarrow> (Exited 1, emit (FatalV ''error while receiving response from LongGreet: %v'' (VErr e)) s4)
        | Inr res \<Rightarrow> (Returned, emit (PrintV ''LongGreet Response: %v'' (VResp res)) s4))"
proof -
  have len: "length long_greet_requests = 5"
    by (simp add: long_greet_requests_def stream_names_def)
  show ?thesis
    using send_loop_accepting [where cs = "h_long_greet srv" and d = "[]" and reqs = long_greet_requests] assms len
    by (simp add: doClientStreaming_def grpc_stub_def go_simps Let_def split: sum.split)
qed

theorem doClientStreaming_grpc_witness:
  "cs_limit (h_long_greet (fake_server 0 0)) = None
   \<and> doClientStreaming (grpc_stub (fake_server 0 0)) init_rt =
     (Returned,
      \<lparr>clock = 5 * second, ctxs = [],
       out = [Print ''Starting to do client streaming RPC...'', Open ''LongGreet'']
             @ sent_events long_greet_requests
             @ [StreamCloseSend,
                PrintV ''LongGreet Response: %v''
                  (VResp (LongGreetResponse ''Hello Roger! Hello John! Hello Dimitri! Hello Siska! Hello Yuri! ''))]\<rparr>)"
proof -
  have lim: "cs_limit (h_long_greet (fake_server 0 0)) = None"
    by (simp add: fake_server_def)
  have reply: "cs_reply (h_long_greet (fake_server 0 0)) long_greet_requests =
      Inr (LongGreetResponse ''Hello Roger! Hello John! Hello Dimitri! Hello Siska! Hello Yuri! '')"
    by (simp add: fake_server_def long_greet_requests_def stream_names_def first_only_def hello_bang_def)
  show ?thesis
    using lim doClientStreaming_grpc [OF lim, of init_rt] reply by (simp add: init_rt_def go_simps)
qed

subsection \<open>A server that stops reading\<close>

text \<open>
  C18. Over the gRPC transport, when the \<open>LongGreet\<close> handler stops reading after
  \<open>n\<close> messages, \<open>doClientStreaming\<close> does not notice: it still announces all five
  requests and pauses five seconds, sends only the first \<open>n\<close>, half-closes, and
  prints the reply computed from those \<open>n\<close> alone as if it were the answer to the
  whole slice (or exits if the reply is an error). The errors of \<open>stream.Send\<close> on
  the dropped messages are never seen.
\<close>

theorem doClientStreaming_stops_reading:
  assumes "cs_limit (h_long_greet srv) = Some n" and "n \<le> length long_greet_requests"
  shows "doClientStreaming (grpc_stub srv) s =
    (let s4 = s\<lparr>clock := clock s + 5 * second,
                out := out s @ [Print ''Starting to do client streaming RPC...'', Open ''LongGreet'']
                       @ sent_events (take n long_greet_requests) @ announce_events (drop n long_greet_requests)
                       @ [StreamCloseSend]\<rparr>
     in case cs_reply (h_long_greet srv) (take n long_greet_requests) of
          Inl e \<Rightarrow> (Exited 1, emit (FatalV ''error while receiving response from LongGreet: %v'' (VErr e)) s4)
        | Inr res \<Rightarrow> (Returned, emit (PrintV ''LongGreet Response: %v'' (VResp res)) s4))"
proof -
  let ?cs = "h_long_greet srv" and ?rs = long_greet_requests
  have len: "length ?rs = 5" by (simp add: long_greet_requests_def stream_names_def)
  have loop: "send_loop ?cs ?rs [] s' =
      (take n ?rs, s'\<lparr>clock := clock s' + second * int (length ?rs),
                      out := out s' @ sent_events (take n ?rs) @ announce_events (drop n ?rs)\<rparr>)" for s'
  proof -
    have a: "send_loop ?cs (take n ?rs) [] s' =
        (take n ?rs, s'\<lparr>clock := clock s' + second * int n, out := out s' @ sent_events (take n ?rs)\<rparr>)"
      using send_loop_accepting [where cs = ?cs and d = "[]" and reqs = "take n ?rs" and s = s'] assms by simp
    have "send_loop ?cs (drop n ?rs) (take n ?rs) s'' =
        (take n ?rs, s''\<lparr>clock := clock s'' + second * int (length ?rs - n), out := out s'' @ announce_events (drop n ?rs)\<rparr>)"
      for s''
      using send_loop_refused [OF assms(1), of "take n ?rs" "drop n ?rs" s''] assms(2) by simp
    with a assms(2) show ?thesis
      using send_loop_append [of ?cs "take n ?rs" "drop n ?rs" "[]" s']
      by (simp add: of_nat_diff algebra_simps)
  qed
  show ?thesis
    using loop [of "emit (Open ''LongGreet'') (emit (Print ''Starting to do client streaming RPC...'') s)"] len
    by (simp add: doClientStreaming_def grpc_stub_def go_simps Let_def split: sum.split)
qed

theorem doClientStreaming_stops_reading_witness:
  "cs_limit (h_long_greet ((fake_server 0 0)\<lparr>h_long_greet := (h_long_greet (fake_server 0 0))\<lparr>cs_limit := Some 2\<rparr>\<rparr>)) = Some 2
   \<and> 2 \<le> length long_greet_requests
   \<and> fst (doClientStreaming (grpc_stub ((fake_server 0 0)\<lparr>h_long_greet := (h_long_greet (fake_server 0 0))\<lparr>cs_limit := Some 2\<rparr>\<rparr>)) init_rt) = Returned
   \<and> last (out (snd (doClientStreaming (grpc_stub ((fake_server 0 0)\<lparr>h_long_greet := (h_long_greet (fake_server 0 0))\<lparr>cs_limit := Some 2\<rparr>\<rparr>)) init_rt)))
       = PrintV ''LongGreet Response: %v'' (VResp (LongGreetResponse ''Hello Roger! Hello John! ''))
   \<and> clock (snd (doClientStreaming (grpc_stub ((fake_server 0 0)\<lparr>h_long_greet := (h_long_greet (fake_server 0 0))\<lparr>cs_limit := Some 2\<rparr>\<rparr>)) init_rt)) = 5 * second"
proof -
  let ?srv = "(fake_server 0 0)\<lparr>h_long_greet := (h_long_greet (fake_server 0 0))\<lparr>cs_limit := Some 2\<rparr>\<rparr>"
  have lim: "cs_limit (h_long_greet ?srv) = Some 2" by (simp add: fake_server_def)
  have le: "2 \<le> length long_greet_requests" by (simp add: long_greet_requests_def stream_names_def)
  have reply: "cs_reply (h_long_greet ?srv) (take 2 long_greet_requests) =
      Inr (LongGreetResponse ''Hello Roger! Hello John! '')"
    by (simp add: fake_server_def long_greet_requests_def stream_names_def first_only_def hello_bang_def)
  show ?thesis
    using lim le doClientStreaming_stops_reading [OF lim le, of init_rt] reply
    by (simp add: init_rt_def go_simps)
qed

end
