(* ===== verification/BidiStream.thy ===== *)
theory BidiStream
  imports GreetService
begin

text \<open>
  \<open>doBiDiStreaming\<close> (lines 129--199) opens a \<open>GreetEveryone\<close> stream and runs two
  goroutines over it: a sender that prints and sends each request of the slice and
  then half-closes the stream, and a receiver that prints every response until
  \<open>io.EOF\<close> and then closes the channel \<open>waitc\<close>; the function itself blocks on
  \<open><-waitc\<close>. The server handler runs concurrently on the other end.

  The concurrent phase is an \<^theory_text>\<open>inductive\<close> step relation over a record of the
  whole system: the program counter and remaining slice of the sender, the
  messages in flight in each direction (gRPC keeps each direction in order), what
  the handler has received, whether each goroutine and the handler have finished,
  whether \<open>doBiDiStreaming\<close> has returned, and the process state with its trace.
  One rule is one atomic step of one party; which party moves is not determined,
  so every interleaving is a run. The sender's \<open>time.Sleep\<close> (line 173) is a step
  of its own that advances the process clock by one second; the other parties take
  no time, and may act at any point, before or after that step. The invariant
  \<open>bidi_flow\<close> records how much the clock has advanced: one second per pause
  already taken, \<open>sleeps_left\<close> counting those still to come.
\<close>

datatype sender_pc = SNext | SSend | SSleep | SDone

record bidi =
  snd_pc :: sender_pc                 \<comment> \<open>\<open>SNext\<close>: at the loop head; \<open>SSend\<close>: printed, about to send; \<open>SSleep\<close>: sent, about to sleep\<close>
  snd_pending :: "request list"       \<comment> \<open>the rest of \<open>range requests\<close>\<close>
  up :: "request list"                \<comment> \<open>sent, not yet received by the handler\<close>
  srv_seen :: "request list"          \<comment> \<open>received by the handler, in order\<close>
  srv_done :: bool                    \<comment> \<open>the handler has returned\<close>
  down :: "response list"             \<comment> \<open>sent by the handler, not yet received\<close>
  rcv_done :: bool                    \<comment> \<open>the receiver has left its loop and closed \<open>waitc\<close>\<close>
  main_done :: bool                   \<comment> \<open>\<open><-waitc\<close> returned: \<open>doBiDiStreaming\<close> returned\<close>
  exited :: bool                      \<comment> \<open>\<open>log.Fatalf\<close> ended the process\<close>
  proc :: rt                          \<comment> \<open>the process state and its trace\<close>

text \<open>Lines 129--166: the stream is opened; on error the process exits.\<close>

definition bidi_init :: "request list \<Rightarrow> rt \<Rightarrow> bidi" where
  "bidi_init reqs s =
     \<lparr>snd_pc = SNext, snd_pending = reqs, up = [], srv_seen = [], srv_done = False, down = [],
      rcv_done = False, main_done = False, exited = False, proc = s\<rparr>"

definition bidi_start :: "greet_service_client \<Rightarrow> rt \<Rightarrow> (outcome \<times> rt) + (bidi_server \<times> bidi)" where
  "bidi_start c s0 =
     (let s1 = fmt_Println ''Starting to do BiDi streaming RPC...'' s0;
          (r, s2) = greet_everyone c Background s1
      in case r of
           Inl err \<Rightarrow> Inl (log_Fatalf ''Error while creating stream: %v'' (VErr err) s2)
         | Inr srv \<Rightarrow> Inr (srv, bidi_init greet_everyone_requests s2))"

abbreviation pemit :: "event \<Rightarrow> bidi \<Rightarrow> bidi" where
  "pemit e b \<equiv> b\<lparr>proc := emit e (proc b)\<rparr>"

text \<open>
  Lines 167--198, for the handler \<open>srv\<close>. A \<open>Send\<close> after the handler has returned
  fails with \<open>io.EOF\<close>, which the sender ignores: the message is lost. The receiver's
  \<open>Recv\<close> yields the messages in flight, then the handler's status: \<open>io.EOF\<close> for OK,
  the status error otherwise, on which it calls \<open>log.Fatalf\<close> (the \<open>break\<close> after it
  is unreachable). The handler reads requests in order, answers each with
  \<open>on_msg\<close>, and returns when the client has half-closed and all requests are read,
  or after \<open>quit_after\<close> requests; what is still in flight to it is then lost.
\<close>

inductive bidi_step :: "bidi_server \<Rightarrow> bidi \<Rightarrow> bidi \<Rightarrow> bool" for srv where
  send_print:
    "\<not> exited b \<Longrightarrow> snd_pc b = SNext \<Longrightarrow> snd_pending b = r # rs \<Longrightarrow>
     bidi_step srv b (pemit (PrintV ''Sending message: %v '' (VReq r)) (b\<lparr>snd_pc := SSend\<rparr>))"
| send_send:
    "\<not> exited b \<Longrightarrow> snd_pc b = SSend \<Longrightarrow> snd_pending b = r # rs \<Longrightarrow>
     bidi_step srv b
       (if srv_done b then b\<lparr>snd_pc := SSleep, snd_pending := rs\<rparr>
        else pemit (StreamSend r) (b\<lparr>snd_pc := SSleep, snd_pending := rs, up := up b @ [r]\<rparr>))"
| send_sleep:
    "\<not> exited b \<Longrightarrow> snd_pc b = SSleep \<Longrightarrow>
     bidi_step srv b (b\<lparr>snd_pc := SNext, proc := time_Sleep (1000 * millisecond) (proc b)\<rparr>)"
| close_send:
    "\<not> exited b \<Longrightarrow> snd_pc b = SNext \<Longrightarrow> snd_pending b = [] \<Longrightarrow>
     bidi_step srv b (pemit StreamCloseSend (b\<lparr>snd_pc := SDone\<rparr>))"
| recv_msg:
    "\<not> exited b \<Longrightarrow> \<not> rcv_done b \<Longrightarrow> down b = m # ms \<Longrightarrow>
     bidi_step srv b (pemit (PrintV ''Received: %v '' (VStr (result m))) (b\<lparr>down := ms\<rparr>))"
| recv_eof:
    "\<not> exited b \<Longrightarrow> \<not> rcv_done b \<Longrightarrow> down b = [] \<Longrightarrow> srv_done b \<Longrightarrow> final_status srv = None \<Longrightarrow>
     bidi_step srv b (b\<lparr>rcv_done := True\<rparr>)"
| recv_err:
    "\<not> exited b \<Longrightarrow> \<not> rcv_done b \<Longrightarrow> down b = [] \<Longrightarrow> srv_done b \<Longrightarrow> final_status srv = Some e \<Longrightarrow>
     bidi_step srv b (pemit (FatalV ''Error while receiving: %v '' (VErr (to_status_error e))) (b\<lparr>exited := True\<rparr>))"
| main_wait:
    "\<not> exited b \<Longrightarrow> rcv_done b \<Longrightarrow> \<not> main_done b \<Longrightarrow>
     bidi_step srv b (b\<lparr>main_done := True\<rparr>)"
| srv_recv:
    "\<not> exited b \<Longrightarrow> \<not> srv_done b \<Longrightarrow> up b = r # rs \<Longrightarrow>
     (case quit_after srv of None \<Rightarrow> True | Some n \<Rightarrow> length (srv_seen b) < n) \<Longrightarrow>
     bidi_step srv b (b\<lparr>up := rs, srv_seen := srv_seen b @ [r], down := down b @ on_msg srv r\<rparr>)"
| srv_return:
    "\<not> exited b \<Longrightarrow> \<not> srv_done b \<Longrightarrow>
     (up b = [] \<and> snd_pc b = SDone) \<or> quit_after srv = Some (length (srv_seen b)) \<Longrightarrow>
     bidi_step srv b (b\<lparr>srv_done := True, up := []\<rparr>)"

inductive_cases bidi_stepE: "bidi_step srv b b'"

text \<open>The states reachable from the start of the concurrent phase.\<close>

inductive bidi_reach :: "bidi_server \<Rightarrow> request list \<Rightarrow> rt \<Rightarrow> bidi \<Rightarrow> bool" for srv reqs s0 where
  start: "bidi_reach srv reqs s0 (bidi_init reqs s0)"
| step: "bidi_reach srv reqs s0 b \<Longrightarrow> bidi_step srv b b' \<Longrightarrow> bidi_reach srv reqs s0 b'"

subsection \<open>Observations of a trace\<close>

text \<open>The requests put on the wire, and the results printed by the receiver.\<close>

fun sends :: "event list \<Rightarrow> request list" where
  "sends [] = []"
| "sends (StreamSend r # es) = r # sends es"
| "sends (e # es) = sends es"

fun received :: "event list \<Rightarrow> string list" where
  "received [] = []"
| "received (PrintV f (VStr x) # es) = (if f = ''Received: %v '' then x # received es else received es)"
| "received (e # es) = received es"

text \<open>The results the handler has produced for the requests it has read.\<close>

definition answers :: "bidi_server \<Rightarrow> request list \<Rightarrow> string list" where
  "answers srv rs = concat (map (\<lambda>r. map result (on_msg srv r)) rs)"

subsection \<open>Invariants and progress measure\<close>

text \<open>
  The invariant has a structural part (program counters and flags agree) and a
  data-flow part over the events the phase has added to the trace: what is on the
  wire is the slice's prefix in order, what the handler has read is a prefix of
  that, and what the receiver has printed followed by what is in flight is exactly
  the handler's answers. The measure counts the atomic steps still possible; every
  step lowers it.
\<close>

text \<open>The pauses the sender still has to take: one per request not yet sent, and the one after a send.\<close>

definition sleeps_left :: "bidi \<Rightarrow> nat" where
  "sleeps_left b = length (snd_pending b) + (if snd_pc b = SSleep then 1 else 0)"

definition bidi_shape :: "bidi_server \<Rightarrow> bidi \<Rightarrow> bool" where
  "bidi_shape srv b \<longleftrightarrow>
     (snd_pc b = SSend \<longrightarrow> snd_pending b \<noteq> [])
   \<and> (snd_pc b = SDone \<longrightarrow> snd_pending b = [])
   \<and> (srv_done b \<longrightarrow> up b = [])
   \<and> (rcv_done b \<longrightarrow> srv_done b \<and> down b = [])
   \<and> (main_done b \<longrightarrow> rcv_done b)
   \<and> (exited b \<longrightarrow> final_status srv \<noteq> None)
   \<and> (quit_after srv = None \<longrightarrow> srv_done b \<longrightarrow> snd_pc b = SDone)
   \<and> (\<forall>n. quit_after srv = Some n \<longrightarrow> length (srv_seen b) \<le> n)"

definition bidi_flow :: "bidi_server \<Rightarrow> request list \<Rightarrow> rt \<Rightarrow> bidi \<Rightarrow> bool" where
  "bidi_flow srv reqs s0 b \<longleftrightarrow>
     (\<exists>es. out (proc b) = out s0 @ es
        \<and> (\<not> srv_done b \<longrightarrow> sends es @ snd_pending b = reqs)
        \<and> prefix (sends es) reqs
        \<and> prefix (srv_seen b @ up b) (sends es)
        \<and> (\<not> srv_done b \<longrightarrow> srv_seen b @ up b = sends es)
        \<and> received es @ map result (down b) = answers srv (srv_seen b)
        \<and> (quit_after srv = None \<longrightarrow> srv_done b \<longrightarrow> srv_seen b = reqs \<and> sends es = reqs))
   \<and> ctxs (proc b) = ctxs s0
   \<and> clock (proc b) + second * int (sleeps_left b) = clock s0 + second * int (length reqs)"

definition bidi_measure :: "bidi_server \<Rightarrow> bidi \<Rightarrow> nat" where
  "bidi_measure srv b =
     (case snd_pc b of
        SNext \<Rightarrow> Suc (sum_list (map (\<lambda>r. length (on_msg srv r) + 4) (snd_pending b)))
      | SSend \<Rightarrow> sum_list (map (\<lambda>r. length (on_msg srv r) + 4) (snd_pending b))
      | SSleep \<Rightarrow> Suc (Suc (sum_list (map (\<lambda>r. length (on_msg srv r) + 4) (snd_pending b))))
      | SDone \<Rightarrow> 0)
     + sum_list (map (\<lambda>r. length (on_msg srv r) + 1) (up b)) + length (down b)
     + (if srv_done b then 0 else 1) + (if rcv_done b then 0 else 1)
     + (if main_done b then 0 else 1) + (if exited b then 0 else 1)"

subsection \<open>Lemmas\<close>

lemma sends_append [simp]: "sends (xs @ ys) = sends xs @ sends ys"
  by (induction xs rule: sends.induct) auto

lemma received_append [simp]: "received (xs @ ys) = received xs @ received ys"
  by (induction xs rule: received.induct) auto

lemma answers_append [simp]: "answers srv (xs @ ys) = answers srv xs @ answers srv ys"
  by (simp add: answers_def)

lemma bidi_shape_init: "bidi_shape srv (bidi_init reqs s0)"
  by (simp add: bidi_shape_def bidi_init_def)

lemma bidi_flow_init: "bidi_flow srv reqs s0 (bidi_init reqs s0)"
  by (auto simp: bidi_flow_def bidi_init_def answers_def sleeps_left_def)

lemma bidi_shape_step: "bidi_step srv b b' \<Longrightarrow> bidi_shape srv b \<Longrightarrow> bidi_shape srv b'"
  by (induction rule: bidi_step.induct) (auto simp: bidi_shape_def emit_def split: option.splits)

lemma bidi_flowI:
  assumes "out (proc b) = out s0 @ es"
    and "\<not> srv_done b \<Longrightarrow> sends es @ snd_pending b = reqs"
    and "prefix (sends es) reqs"
    and "prefix (srv_seen b @ up b) (sends es)"
    and "\<not> srv_done b \<Longrightarrow> srv_seen b @ up b = sends es"
    and "received es @ map result (down b) = answers srv (srv_seen b)"
    and "quit_after srv = None \<Longrightarrow> srv_done b \<Longrightarrow> srv_seen b = reqs \<and> sends es = reqs"
    and "ctxs (proc b) = ctxs s0" and "clock (proc b) + second * int (sleeps_left b) = clock s0 + second * int (length reqs)"
  shows "bidi_flow srv reqs s0 b"
  unfolding bidi_flow_def by (intro conjI exI [of _ es] impI) (use assms in simp_all)

lemma bidi_flowE:
  assumes "bidi_flow srv reqs s0 b"
  obtains es where "out (proc b) = out s0 @ es"
    and "\<not> srv_done b \<longrightarrow> sends es @ snd_pending b = reqs"
    and "prefix (sends es) reqs"
    and "prefix (srv_seen b @ up b) (sends es)"
    and "\<not> srv_done b \<longrightarrow> srv_seen b @ up b = sends es"
    and "received es @ map result (down b) = answers srv (srv_seen b)"
    and "quit_after srv = None \<longrightarrow> srv_done b \<longrightarrow> srv_seen b = reqs \<and> sends es = reqs"
    and "ctxs (proc b) = ctxs s0" and "clock (proc b) + second * int (sleeps_left b) = clock s0 + second * int (length reqs)"
  using assms unfolding bidi_flow_def by (elim conjE exE) (rule that; assumption)

lemma bidi_flow_step:
  "bidi_step srv b b' \<Longrightarrow> bidi_shape srv b \<Longrightarrow> bidi_flow srv reqs s0 b \<Longrightarrow> bidi_flow srv reqs s0 b'"
proof (induction rule: bidi_step.induct)
  case (send_print b r rs)
  from send_print.prems(2) obtain es where es: "out (proc b) = out s0 @ es"
    "\<not> srv_done b \<longrightarrow> sends es @ snd_pending b = reqs" "prefix (sends es) reqs"
    "prefix (srv_seen b @ up b) (sends es)" "\<not> srv_done b \<longrightarrow> srv_seen b @ up b = sends es"
    "received es @ map result (down b) = answers srv (srv_seen b)"
    "quit_after srv = None \<longrightarrow> srv_done b \<longrightarrow> srv_seen b = reqs \<and> sends es = reqs"
    "ctxs (proc b) = ctxs s0" "clock (proc b) + second * int (sleeps_left b) = clock s0 + second * int (length reqs)"
    by (rule bidi_flowE)
  show ?case
    by (rule bidi_flowI [where es = "es @ [PrintV ''Sending message: %v '' (VReq r)]"])
      (use es send_print.hyps in \<open>simp_all add: emit_def sleeps_left_def\<close>)
next
  case (send_send b r rs)
  from send_send.prems(2) obtain es where es: "out (proc b) = out s0 @ es"
    "\<not> srv_done b \<longrightarrow> sends es @ snd_pending b = reqs" "prefix (sends es) reqs"
    "prefix (srv_seen b @ up b) (sends es)" "\<not> srv_done b \<longrightarrow> srv_seen b @ up b = sends es"
    "received es @ map result (down b) = answers srv (srv_seen b)"
    "quit_after srv = None \<longrightarrow> srv_done b \<longrightarrow> srv_seen b = reqs \<and> sends es = reqs"
    "ctxs (proc b) = ctxs s0" "clock (proc b) + second * int (sleeps_left b) = clock s0 + second * int (length reqs)"
    by (rule bidi_flowE)
  show ?case
  proof (cases "srv_done b")
    case True
    have "bidi_flow srv reqs s0 (b\<lparr>snd_pc := SSleep, snd_pending := rs\<rparr>)"
      by (rule bidi_flowI [where es = es]) (use es True send_send.hyps in \<open>simp_all add: sleeps_left_def\<close>)
    with True show ?thesis by simp
  next
    case False
    with es(2) send_send.hyps(3) have sent: "sends es @ r # rs = reqs" by simp
    then have "prefix (sends es @ [r]) reqs" by (metis append_Cons append_Nil append_assoc prefixI)
    have "bidi_flow srv reqs s0 (pemit (StreamSend r) (b\<lparr>snd_pc := SSleep, snd_pending := rs, up := up b @ [r]\<rparr>))"
      by (rule bidi_flowI [where es = "es @ [StreamSend r]"])
        (use es sent False send_send.hyps \<open>prefix (sends es @ [r]) reqs\<close> in \<open>simp_all add: emit_def sleeps_left_def\<close>)
    with False show ?thesis by simp
  qed
next
  case (send_sleep b)
  from send_sleep.prems(2) obtain es where es: "out (proc b) = out s0 @ es"
    "\<not> srv_done b \<longrightarrow> sends es @ snd_pending b = reqs" "prefix (sends es) reqs"
    "prefix (srv_seen b @ up b) (sends es)" "\<not> srv_done b \<longrightarrow> srv_seen b @ up b = sends es"
    "received es @ map result (down b) = answers srv (srv_seen b)"
    "quit_after srv = None \<longrightarrow> srv_done b \<longrightarrow> srv_seen b = reqs \<and> sends es = reqs"
    "ctxs (proc b) = ctxs s0" "clock (proc b) + second * int (sleeps_left b) = clock s0 + second * int (length reqs)"
    by (rule bidi_flowE)
  show ?case
    by (rule bidi_flowI [where es = es])
      (use es send_sleep.hyps in \<open>simp_all add: time_Sleep_def sleeps_left_def algebra_simps\<close>)
next
  case (close_send b)
  from close_send.prems(2) obtain es where es: "out (proc b) = out s0 @ es"
    "\<not> srv_done b \<longrightarrow> sends es @ snd_pending b = reqs" "prefix (sends es) reqs"
    "prefix (srv_seen b @ up b) (sends es)" "\<not> srv_done b \<longrightarrow> srv_seen b @ up b = sends es"
    "received es @ map result (down b) = answers srv (srv_seen b)"
    "quit_after srv = None \<longrightarrow> srv_done b \<longrightarrow> srv_seen b = reqs \<and> sends es = reqs"
    "ctxs (proc b) = ctxs s0" "clock (proc b) + second * int (sleeps_left b) = clock s0 + second * int (length reqs)"
    by (rule bidi_flowE)
  show ?case
    by (rule bidi_flowI [where es = "es @ [StreamCloseSend]"])
      (use es close_send.hyps in \<open>simp_all add: emit_def sleeps_left_def\<close>)
next
  case (recv_msg b m ms)
  from recv_msg.prems(2) obtain es where es: "out (proc b) = out s0 @ es"
    "\<not> srv_done b \<longrightarrow> sends es @ snd_pending b = reqs" "prefix (sends es) reqs"
    "prefix (srv_seen b @ up b) (sends es)" "\<not> srv_done b \<longrightarrow> srv_seen b @ up b = sends es"
    "received es @ map result (down b) = answers srv (srv_seen b)"
    "quit_after srv = None \<longrightarrow> srv_done b \<longrightarrow> srv_seen b = reqs \<and> sends es = reqs"
    "ctxs (proc b) = ctxs s0" "clock (proc b) + second * int (sleeps_left b) = clock s0 + second * int (length reqs)"
    by (rule bidi_flowE)
  show ?case
    by (rule bidi_flowI [where es = "es @ [PrintV ''Received: %v '' (VStr (result m))]"])
      (use es recv_msg.hyps in \<open>simp_all add: emit_def sleeps_left_def\<close>)
next
  case (recv_eof b)
  then show ?case by (simp add: bidi_flow_def sleeps_left_def)
next
  case (recv_err b e)
  from recv_err.prems(2) obtain es where es: "out (proc b) = out s0 @ es"
    "\<not> srv_done b \<longrightarrow> sends es @ snd_pending b = reqs" "prefix (sends es) reqs"
    "prefix (srv_seen b @ up b) (sends es)" "\<not> srv_done b \<longrightarrow> srv_seen b @ up b = sends es"
    "received es @ map result (down b) = answers srv (srv_seen b)"
    "quit_after srv = None \<longrightarrow> srv_done b \<longrightarrow> srv_seen b = reqs \<and> sends es = reqs"
    "ctxs (proc b) = ctxs s0" "clock (proc b) + second * int (sleeps_left b) = clock s0 + second * int (length reqs)"
    by (rule bidi_flowE)
  show ?case
    by (rule bidi_flowI [where es = "es @ [FatalV ''Error while receiving: %v '' (VErr (to_status_error e))]"])
      (use es in \<open>simp_all add: emit_def sleeps_left_def\<close>)
next
  case (main_wait b)
  then show ?case by (simp add: bidi_flow_def sleeps_left_def)
next
  case (srv_recv b r rs)
  from srv_recv.prems(2) obtain es where es: "out (proc b) = out s0 @ es"
    "\<not> srv_done b \<longrightarrow> sends es @ snd_pending b = reqs" "prefix (sends es) reqs"
    "prefix (srv_seen b @ up b) (sends es)" "\<not> srv_done b \<longrightarrow> srv_seen b @ up b = sends es"
    "received es @ map result (down b) = answers srv (srv_seen b)"
    "quit_after srv = None \<longrightarrow> srv_done b \<longrightarrow> srv_seen b = reqs \<and> sends es = reqs"
    "ctxs (proc b) = ctxs s0" "clock (proc b) + second * int (sleeps_left b) = clock s0 + second * int (length reqs)"
    by (rule bidi_flowE)
  show ?case
    by (rule bidi_flowI [where es = es]) (use es srv_recv.hyps in \<open>simp_all add: answers_def sleeps_left_def\<close>)
next
  case (srv_return b)
  from srv_return.prems(2) obtain es where es: "out (proc b) = out s0 @ es"
    "\<not> srv_done b \<longrightarrow> sends es @ snd_pending b = reqs" "prefix (sends es) reqs"
    "prefix (srv_seen b @ up b) (sends es)" "\<not> srv_done b \<longrightarrow> srv_seen b @ up b = sends es"
    "received es @ map result (down b) = answers srv (srv_seen b)"
    "quit_after srv = None \<longrightarrow> srv_done b \<longrightarrow> srv_seen b = reqs \<and> sends es = reqs"
    "ctxs (proc b) = ctxs s0" "clock (proc b) + second * int (sleeps_left b) = clock s0 + second * int (length reqs)"
    by (rule bidi_flowE)
  from es(4) have pre: "prefix (srv_seen b) (sends es)" by (rule append_prefixD)
  have quit: "srv_seen b = reqs \<and> sends es = reqs" if "quit_after srv = None"
  proof -
    from that srv_return.hyps(3) have "up b = [] \<and> snd_pc b = SDone" by auto
    with srv_return.prems(1) have "up b = []" "snd_pending b = []" by (auto simp: bidi_shape_def)
    with es(2,5) srv_return.hyps(2) show ?thesis by simp
  qed
  show ?case
    by (rule bidi_flowI [where es = es]) (use es(1,3,6,8,9) pre quit in \<open>simp_all add: sleeps_left_def\<close>)
qed

lemma bidi_step_decreases: "bidi_step srv b b' \<Longrightarrow> bidi_measure srv b' < bidi_measure srv b"
  by (induction rule: bidi_step.induct) (auto simp: bidi_measure_def emit_def split: sender_pc.split)

text \<open>The sender can always move until it has half-closed the stream.\<close>

lemma bidi_sender_enabled:
  assumes "bidi_shape srv b" and "\<not> exited b" and "snd_pc b \<noteq> SDone"
  shows "\<exists>b'. bidi_step srv b b'"
proof (cases "snd_pc b")
  case SNext
  then show ?thesis
    using assms by (cases "snd_pending b") (auto intro: bidi_step.intros)
next
  case SSend
  with assms obtain r rs where "snd_pending b = r # rs"
    by (cases "snd_pending b") (auto simp: bidi_shape_def)
  with SSend assms show ?thesis by (auto intro: bidi_step.send_send)
next
  case SSleep
  with assms show ?thesis by (auto intro: bidi_step.send_sleep)
next
  case SDone
  with assms show ?thesis by simp
qed

lemma bidi_enabled:
  assumes "bidi_shape srv b" and "\<not> main_done b" and "\<not> exited b"
  shows "\<exists>b'. bidi_step srv b b'"
proof (cases "snd_pc b = SDone")
  case False
  with assms show ?thesis by (blast intro: bidi_sender_enabled)
next
  case SDone: True
  show ?thesis
  proof (cases "srv_done b")
    case False
    show ?thesis
    proof (cases "up b")
      case Nil
      with SDone False assms show ?thesis by (auto intro: bidi_step.srv_return)
    next
      case (Cons r rs)
      show ?thesis
      proof (cases "quit_after srv")
        case None
        have "bidi_step srv b (b\<lparr>up := rs, srv_seen := srv_seen b @ [r], down := down b @ on_msg srv r\<rparr>)"
          by (rule bidi_step.srv_recv) (use None Cons False assms in simp_all)
        then show ?thesis ..
      next
        case (Some n)
        with assms(1) have le: "length (srv_seen b) \<le> n" by (simp add: bidi_shape_def)
        show ?thesis
        proof (cases "length (srv_seen b) < n")
          case True
          have "bidi_step srv b (b\<lparr>up := rs, srv_seen := srv_seen b @ [r], down := down b @ on_msg srv r\<rparr>)"
            by (rule bidi_step.srv_recv) (use True Some Cons False assms in simp_all)
          then show ?thesis ..
        next
          case False': False
          with le Some have "quit_after srv = Some (length (srv_seen b))" by simp
          with False assms show ?thesis by (auto intro: bidi_step.srv_return)
        qed
      qed
    qed
  next
    case True
    show ?thesis
    proof (cases "rcv_done b")
      case True
      with assms show ?thesis by (auto intro: bidi_step.main_wait)
    next
      case False
      with True assms show ?thesis
        by (cases "down b"; cases "final_status srv") (auto intro: bidi_step.intros simp: bidi_shape_def)
    qed
  qed
qed

lemma bidi_reach_inv: "bidi_reach srv reqs s0 b \<Longrightarrow> bidi_shape srv b \<and> bidi_flow srv reqs s0 b"
  by (induction rule: bidi_reach.induct)
    (auto intro: bidi_shape_init bidi_flow_init bidi_shape_step bidi_flow_step)

lemma bidi_progress:
  assumes "bidi_reach srv reqs s0 b" and "\<not> main_done b" and "\<not> exited b"
  shows "\<exists>b'. bidi_step srv b b' \<and> bidi_reach srv reqs s0 b' \<and> bidi_measure srv b' < bidi_measure srv b"
proof -
  from assms(1) have "bidi_shape srv b" by (simp add: bidi_reach_inv)
  with assms(2,3) obtain b' where "bidi_step srv b b'" by (blast dest: bidi_enabled)
  with assms(1) show ?thesis by (blast intro: bidi_reach.step bidi_step_decreases)
qed

text \<open>
  C4. In every reachable state of the concurrent phase of \<open>doBiDiStreaming\<close>, for
  any handler: the requests put on the wire are a prefix of the slice in its order,
  the handler has received a prefix of them in order, the receiver has printed a
  prefix of the handler's answers in order, \<open>doBiDiStreaming\<close> has returned only
  after the receiver finished and the handler returned, and no context is touched.
\<close>

theorem bidi_safety:
  assumes "bidi_reach srv reqs s0 b"
  shows "\<exists>es. out (proc b) = out s0 @ es \<and> prefix (sends es) reqs \<and> prefix (srv_seen b) (sends es)
           \<and> prefix (received es) (answers srv (srv_seen b))
           \<and> (main_done b \<longrightarrow> rcv_done b \<and> srv_done b) \<and> ctxs (proc b) = ctxs s0"
proof -
  from assms have sh: "bidi_shape srv b" and fl: "bidi_flow srv reqs s0 b" by (simp_all add: bidi_reach_inv)
  from fl obtain es where es: "out (proc b) = out s0 @ es"
    "\<not> srv_done b \<longrightarrow> sends es @ snd_pending b = reqs" "prefix (sends es) reqs"
    "prefix (srv_seen b @ up b) (sends es)" "\<not> srv_done b \<longrightarrow> srv_seen b @ up b = sends es"
    "received es @ map result (down b) = answers srv (srv_seen b)"
    "quit_after srv = None \<longrightarrow> srv_done b \<longrightarrow> srv_seen b = reqs \<and> sends es = reqs"
    "ctxs (proc b) = ctxs s0" "clock (proc b) + second * int (sleeps_left b) = clock s0 + second * int (length reqs)"
    by (rule bidi_flowE)
  from es(4) have "prefix (srv_seen b) (sends es)" by (rule append_prefixD)
  moreover from es(6) have "prefix (received es) (answers srv (srv_seen b))" by (metis prefixI)
  moreover from sh have "main_done b \<longrightarrow> rcv_done b \<and> srv_done b" by (simp add: bidi_shape_def)
  ultimately show ?thesis using es(1,3,8) by blast
qed

theorem bidi_safety_witness:
  "bidi_reach (h_greet_everyone (fake_server 0 0)) greet_everyone_requests init_rt (bidi_init greet_everyone_requests init_rt)
   \<and> (\<exists>es. out (proc (bidi_init greet_everyone_requests init_rt)) = out init_rt @ es \<and> prefix (sends es) greet_everyone_requests
         \<and> prefix (srv_seen (bidi_init greet_everyone_requests init_rt)) (sends es)
         \<and> prefix (received es) (answers (h_greet_everyone (fake_server 0 0)) (srv_seen (bidi_init greet_everyone_requests init_rt)))
         \<and> (main_done (bidi_init greet_everyone_requests init_rt) \<longrightarrow> rcv_done (bidi_init greet_everyone_requests init_rt) \<and> srv_done (bidi_init greet_everyone_requests init_rt))
         \<and> ctxs (proc (bidi_init greet_everyone_requests init_rt)) = ctxs init_rt)"
proof -
  have r: "bidi_reach (h_greet_everyone (fake_server 0 0)) greet_everyone_requests init_rt (bidi_init greet_everyone_requests init_rt)" by (rule bidi_reach.start)
  from r bidi_safety [OF r] show ?thesis by (rule conjI)
qed

text \<open>
  C24. In every reachable state of the concurrent phase, for any handler, the
  half-close \<open>stream.CloseSend()\<close> (line 176) is in the trace exactly when the
  sender has finished, it occurs at most once, and no \<open>Send\<close> follows it: for every
  split of the phase's events at a \<open>CloseSend\<close>, the events after it contain no
  send and no second \<open>CloseSend\<close> (the spec's invariant that a closed send half is
  never sent to again, section 3).
\<close>

theorem bidi_no_send_after_close:
  assumes "bidi_reach srv reqs s0 b"
  shows "\<exists>es. out (proc b) = out s0 @ es \<and> (StreamCloseSend \<in> set es \<longleftrightarrow> snd_pc b = SDone)
           \<and> (\<forall>xs ys. es = xs @ StreamCloseSend # ys \<longrightarrow> sends ys = [] \<and> StreamCloseSend \<notin> set ys)"
  using assms
proof (induction rule: bidi_reach.induct)
  case start
  then show ?case by (simp add: bidi_init_def)
next
  case (step b b')
  then obtain es where es: "out (proc b) = out s0 @ es" and cl: "StreamCloseSend \<in> set es \<longleftrightarrow> snd_pc b = SDone"
    and ok: "\<forall>xs ys. es = xs @ StreamCloseSend # ys \<longrightarrow> sends ys = [] \<and> StreamCloseSend \<notin> set ys"
    by blast
  from step.hyps(2) es cl ok show ?case
    by (cases rule: bidi_step.cases) (auto simp: emit_def time_Sleep_def after_event_snoc)
qed

theorem bidi_no_send_after_close_witness:
  "bidi_reach (h_greet_everyone (fake_server 0 0)) [] init_rt
     (pemit StreamCloseSend ((bidi_init [] init_rt)\<lparr>snd_pc := SDone\<rparr>))
   \<and> (\<exists>es. out (proc (pemit StreamCloseSend ((bidi_init [] init_rt)\<lparr>snd_pc := SDone\<rparr>))) = out init_rt @ es
         \<and> StreamCloseSend \<in> set es
         \<and> (\<forall>xs ys. es = xs @ StreamCloseSend # ys \<longrightarrow> sends ys = [] \<and> StreamCloseSend \<notin> set ys))"
proof -
  let ?b0 = "bidi_init [] init_rt"
  have "bidi_step (h_greet_everyone (fake_server 0 0)) ?b0 (pemit StreamCloseSend (?b0\<lparr>snd_pc := SDone\<rparr>))"
    by (rule bidi_step.close_send) (simp_all add: bidi_init_def)
  then have r: "bidi_reach (h_greet_everyone (fake_server 0 0)) [] init_rt (pemit StreamCloseSend (?b0\<lparr>snd_pc := SDone\<rparr>))"
    by (rule bidi_reach.step [OF bidi_reach.start])
  from r bidi_no_send_after_close [OF r] show ?thesis by simp
qed

text \<open>
  C25. Every interleaving of the concurrent phase is finite, whatever the handler:
  there is no infinite sequence of steps.
\<close>

theorem bidi_runs_finite:
  "\<not> (\<exists>f. f 0 = b \<and> (\<forall>i. bidi_step srv (f i) (f (Suc i))))"
proof
  assume "\<exists>f. f 0 = b \<and> (\<forall>i. bidi_step srv (f i) (f (Suc i)))"
  then obtain f where f0: "f 0 = b" and f: "\<And>i. bidi_step srv (f i) (f (Suc i))" by blast
  have "bidi_measure srv (f i) + i \<le> bidi_measure srv (f 0)" for i
  proof (induction i)
    case 0
    then show ?case by simp
  next
    case (Suc i)
    from f [of i] have "bidi_measure srv (f (Suc i)) < bidi_measure srv (f i)" by (rule bidi_step_decreases)
    with Suc.IH show ?case by simp
  qed
  from this [of "Suc (bidi_measure srv (f 0))"] show False by simp
qed

text \<open>
  C12. No reachable state of the concurrent phase is stuck, for any handler: from
  each, some run leads to \<open>doBiDiStreaming\<close> returning or to the process exiting
  through \<open>log.Fatalf\<close>.
\<close>

theorem bidi_no_deadlock:
  assumes "bidi_reach srv reqs s0 b"
  shows "\<exists>b'. (bidi_step srv)\<^sup>*\<^sup>* b b' \<and> (main_done b' \<or> exited b')"
proof -
  have ok: "\<exists>t. bidi_step srv s t \<and> bidi_reach srv reqs s0 t \<and> bidi_measure srv t < bidi_measure srv s"
    if "bidi_reach srv reqs s0 s" "\<not> (main_done s \<or> exited s)" for s
    using that by (simp add: bidi_progress)
  show ?thesis
    by (rule progress_reaches_final [where R = "bidi_reach srv reqs s0", OF ok assms])
qed

theorem bidi_no_deadlock_witness:
  "bidi_reach (h_greet_everyone (fake_server 0 0)) greet_everyone_requests init_rt (bidi_init greet_everyone_requests init_rt)
   \<and> (\<exists>b'. (bidi_step (h_greet_everyone (fake_server 0 0)))\<^sup>*\<^sup>* (bidi_init greet_everyone_requests init_rt) b' \<and> (main_done b' \<or> exited b'))"
proof -
  have r: "bidi_reach (h_greet_everyone (fake_server 0 0)) greet_everyone_requests init_rt (bidi_init greet_everyone_requests init_rt)" by (rule bidi_reach.start)
  from r bidi_no_deadlock [OF r] show ?thesis by (rule conjI)
qed

lemma bidi_reach_star:
  "(bidi_step srv)\<^sup>*\<^sup>* b b' \<Longrightarrow> bidi_reach srv reqs s0 b \<Longrightarrow> bidi_reach srv reqs s0 b'"
  by (induction rule: rtranclp_induct) (auto intro: bidi_reach.step)

text \<open>
  A state with no successor: when the handler ends with status OK no goroutine is
  blocked for good, so the function has returned.
\<close>

lemma bidi_terminal_returned:
  assumes "bidi_reach srv reqs s0 b" and "\<not> (\<exists>b'. bidi_step srv b b')" and "final_status srv = None"
  shows "main_done b"
proof (rule ccontr)
  assume nd: "\<not> main_done b"
  from assms(1) have sh: "bidi_shape srv b" by (simp add: bidi_reach_inv)
  with assms(3) have "\<not> exited b" by (simp add: bidi_shape_def)
  with sh nd assms(2) show False by (blast dest: bidi_enabled)
qed

text \<open>Every reachable state reaches a state with no successor.\<close>

lemma bidi_terminal_reachable:
  assumes "bidi_reach srv reqs s0 b"
  shows "\<exists>b'. (bidi_step srv)\<^sup>*\<^sup>* b b' \<and> \<not> (\<exists>b''. bidi_step srv b' b'')"
proof -
  have ok: "\<exists>t. bidi_step srv s t \<and> bidi_reach srv reqs s0 t \<and> bidi_measure srv t < bidi_measure srv s"
    if "bidi_reach srv reqs s0 s" "\<not> \<not> (\<exists>t. bidi_step srv s t)" for s
    using that by (blast intro: bidi_reach.step bidi_step_decreases)
  show ?thesis
    by (rule progress_reaches_final [where R = "bidi_reach srv reqs s0", OF ok assms])
qed

text \<open>
  When the handler reads everything, a state where the function has returned has
  the sender closed, the whole slice read by the handler and sent in order, and all
  the handler's answers printed in order.
\<close>

lemma bidi_returned_result:
  assumes "quit_after srv = None" and "bidi_reach srv reqs s0 b" and "main_done b"
  shows "snd_pc b = SDone \<and> srv_seen b = reqs
         \<and> (\<exists>es. out (proc b) = out s0 @ es \<and> sends es = reqs \<and> received es = answers srv reqs)
         \<and> clock (proc b) = clock s0 + second * int (length reqs)"
proof -
  from assms(2) have sh: "bidi_shape srv b" and fl: "bidi_flow srv reqs s0 b" by (simp_all add: bidi_reach_inv)
  from sh assms(3) assms(1) have ended: "srv_done b" "down b = []" "snd_pc b = SDone"
    by (auto simp: bidi_shape_def)
  from fl obtain es where es: "out (proc b) = out s0 @ es"
    "\<not> srv_done b \<longrightarrow> sends es @ snd_pending b = reqs" "prefix (sends es) reqs"
    "prefix (srv_seen b @ up b) (sends es)" "\<not> srv_done b \<longrightarrow> srv_seen b @ up b = sends es"
    "received es @ map result (down b) = answers srv (srv_seen b)"
    "quit_after srv = None \<longrightarrow> srv_done b \<longrightarrow> srv_seen b = reqs \<and> sends es = reqs"
    "ctxs (proc b) = ctxs s0" "clock (proc b) + second * int (sleeps_left b) = clock s0 + second * int (length reqs)"
    by (rule bidi_flowE)
  from es(7) assms(1) ended(1) have seen: "srv_seen b = reqs" and sent: "sends es = reqs" by simp_all
  from es(6) ended(2) seen have "received es = answers srv reqs" by simp
  moreover from sh ended(3) have "snd_pending b = []" by (simp add: bidi_shape_def)
  with es(9) ended(3) have "clock (proc b) = clock s0 + second * int (length reqs)"
    by (simp add: sleeps_left_def)
  ultimately show ?thesis using ended(3) seen es(1) sent by blast
qed

text \<open>
  C10. With a handler that answers as it reads and returns OK only after the
  client's half-close (the spec's P4), from every reachable state some run leads to
  \<open>doBiDiStreaming\<close> returning with the sender closed, the handler having received
  the whole slice in order, and the receiver having printed all its answers in order.
\<close>

theorem bidi_echo_completes:
  assumes "quit_after srv = None" and "final_status srv = None" and "bidi_reach srv reqs s0 b"
  shows "\<exists>b'. (bidi_step srv)\<^sup>*\<^sup>* b b' \<and> main_done b' \<and> snd_pc b' = SDone \<and> srv_seen b' = reqs
           \<and> (\<exists>es. out (proc b') = out s0 @ es \<and> sends es = reqs \<and> received es = answers srv reqs)"
proof -
  have ok: "\<exists>t. bidi_step srv s t \<and> bidi_reach srv reqs s0 t \<and> bidi_measure srv t < bidi_measure srv s"
    if "bidi_reach srv reqs s0 s" "\<not> main_done s" for s
  proof -
    from that(1) have "bidi_shape srv s" by (simp add: bidi_reach_inv)
    with assms(2) have "\<not> exited s" by (simp add: bidi_shape_def)
    with that show ?thesis by (rule bidi_progress)
  qed
  obtain b' where run: "(bidi_step srv)\<^sup>*\<^sup>* b b'" and fin: "main_done b'"
    using progress_reaches_final [where R = "bidi_reach srv reqs s0" and F = main_done, OF ok assms(3)]
    by blast
  from run assms(3) have "bidi_reach srv reqs s0 b'" by (rule bidi_reach_star)
  with run fin show ?thesis using bidi_returned_result [OF assms(1) _ fin] by blast
qed

theorem bidi_echo_completes_witness:
  "quit_after (h_greet_everyone (fake_server 0 0)) = None \<and> final_status (h_greet_everyone (fake_server 0 0)) = None
   \<and> bidi_reach (h_greet_everyone (fake_server 0 0)) greet_everyone_requests init_rt (bidi_init greet_everyone_requests init_rt)
   \<and> (\<exists>b'. (bidi_step (h_greet_everyone (fake_server 0 0)))\<^sup>*\<^sup>* (bidi_init greet_everyone_requests init_rt) b' \<and> main_done b' \<and> snd_pc b' = SDone
         \<and> srv_seen b' = greet_everyone_requests
         \<and> (\<exists>es. out (proc b') = out init_rt @ es \<and> sends es = greet_everyone_requests
               \<and> received es = answers (h_greet_everyone (fake_server 0 0)) greet_everyone_requests))"
proof -
  have q: "quit_after (h_greet_everyone (fake_server 0 0)) = None" and f: "final_status (h_greet_everyone (fake_server 0 0)) = None"
    by (simp_all add: fake_server_def)
  have r: "bidi_reach (h_greet_everyone (fake_server 0 0)) greet_everyone_requests init_rt (bidi_init greet_everyone_requests init_rt)" by (rule bidi_reach.start)
  show ?thesis using q f r bidi_echo_completes [OF q f r] by blast
qed

text \<open>
  C17. \<open>doBiDiStreaming\<close> can return while its sender goroutine has not sent a
  single request nor half-closed the stream: with a handler that returns OK before
  reading anything, the receiver sees \<open>io.EOF\<close>, closes \<open>waitc\<close>, and the
  function returns at once, with the whole slice still pending and the sender's five
  seconds of pauses still ahead. The function waits for the receiver only, not for
  the sender.
\<close>

theorem bidi_returns_before_sender_closes:
  "\<exists>b. bidi_reach \<lparr>on_msg = (\<lambda>r. []), quit_after = Some 0, final_status = None\<rparr>
          greet_everyone_requests init_rt b
     \<and> main_done b \<and> snd_pc b = SNext \<and> snd_pending b = greet_everyone_requests
     \<and> sends (out (proc b)) = [] \<and> clock (proc b) = 0 \<and> sleeps_left b = 5"
proof -
  let ?srv = "\<lparr>on_msg = (\<lambda>r. []), quit_after = Some 0, final_status = None\<rparr> :: bidi_server"
  let ?b0 = "bidi_init greet_everyone_requests init_rt"
  let ?b1 = "?b0\<lparr>srv_done := True, up := []\<rparr>"
  let ?b2 = "?b1\<lparr>rcv_done := True\<rparr>"
  let ?b3 = "?b2\<lparr>main_done := True\<rparr>"
  have "bidi_step ?srv ?b0 ?b1"
    by (rule bidi_step.srv_return) (simp_all add: bidi_init_def)
  moreover have "bidi_step ?srv ?b1 ?b2"
    by (rule bidi_step.recv_eof) (simp_all add: bidi_init_def)
  moreover have "bidi_step ?srv ?b2 ?b3"
    by (rule bidi_step.main_wait) (simp_all add: bidi_init_def)
  ultimately have "bidi_reach ?srv greet_everyone_requests init_rt ?b3"
    by (meson bidi_reach.start bidi_reach.step)
  then show ?thesis
    by (intro exI [of _ ?b3])
      (simp add: bidi_init_def init_rt_def sleeps_left_def greet_everyone_requests_def stream_names_def)
qed

text \<open>Over the gRPC transport the stream opens and the concurrent phase starts.\<close>

end
