(* ===== verification/BidiLockstep.thy ===== *)
theory BidiLockstep
  imports BidiStream
begin

text \<open>
  A sequential reference for the concurrent phase of \<open>doBiDiStreaming\<close>: the
  lock-step schedule in which the sender prints and sends one request, the handler
  reads it and answers, the receiver prints every answer, and so on; then the
  sender half-closes, the handler returns, the receiver sees \<open>io.EOF\<close> and the
  function returns. It is one of the interleavings of \<open>bidi_step\<close>, and every
  complete interleaving agrees with it on everything the parties observe. Counting
  steps with \<open>bidi_step srv ^^ n\<close> bounds the length of every run, and shows that
  with a handler that reads everything all complete runs have the same length. The
  clock, advanced only by the sender's pauses, stays within one second per request.
\<close>

definition round_events :: "bidi_server \<Rightarrow> request \<Rightarrow> event list" where
  "round_events srv r =
     [PrintV ''Sending message: %v '' (VReq r), StreamSend r]
     @ map (\<lambda>m. PrintV ''Received: %v '' (VStr (result m))) (on_msg srv r)"

definition lockstep_trace :: "bidi_server \<Rightarrow> request list \<Rightarrow> event list" where
  "lockstep_trace srv reqs = concat (map (round_events srv) reqs) @ [StreamCloseSend]"

definition bidi_lockstep :: "bidi_server \<Rightarrow> request list \<Rightarrow> rt \<Rightarrow> bidi" where
  "bidi_lockstep srv reqs s =
     \<lparr>snd_pc = SDone, snd_pending = [], up = [], srv_seen = reqs, srv_done = True, down = [],
      rcv_done = True, main_done = True, exited = False,
      proc = s\<lparr>clock := clock s + second * int (length reqs), out := out s @ lockstep_trace srv reqs\<rparr>\<rparr>"

text \<open>
  The number of atomic steps of the lock-step schedule: four per request (print,
  send, pause, the handler's read) and one per answer, then the half-close, the handler's
  return, the receiver's \<open>io.EOF\<close> and the return of the function.
\<close>

definition bidi_steps_bound :: "bidi_server \<Rightarrow> request list \<Rightarrow> nat" where
  "bidi_steps_bound srv reqs = 4 + sum_list (map (\<lambda>r. length (on_msg srv r) + 4) reqs)"

lemma recv_all:
  assumes "\<not> exited b" and "\<not> rcv_done b" and "down b = ms"
  shows "(bidi_step srv)\<^sup>*\<^sup>* b
           (b\<lparr>down := [], proc := (proc b)\<lparr>out := out (proc b) @ map (\<lambda>m. PrintV ''Received: %v '' (VStr (result m))) ms\<rparr>\<rparr>)"
  using assms
proof (induction ms arbitrary: b)
  case Nil
  then have "b\<lparr>down := []\<rparr> = b" by (cases b) simp
  then show ?case by simp
next
  case (Cons m ms)
  let ?b1 = "pemit (PrintV ''Received: %v '' (VStr (result m))) (b\<lparr>down := ms\<rparr>)"
  have "bidi_step srv b ?b1" by (rule bidi_step.recv_msg) (use Cons.prems in simp_all)
  moreover have "(bidi_step srv)\<^sup>*\<^sup>* ?b1
           (?b1\<lparr>down := [], proc := (proc ?b1)\<lparr>out := out (proc ?b1) @ map (\<lambda>m. PrintV ''Received: %v '' (VStr (result m))) ms\<rparr>\<rparr>)"
    by (rule Cons.IH) (use Cons.prems in simp_all)
  ultimately show ?case by (simp add: emit_def)
qed


lemma lockstep_round:
  assumes "quit_after srv = None" and "\<not> exited b" and "\<not> rcv_done b" and "\<not> srv_done b"
    and "snd_pc b = SNext" and "snd_pending b = r # rs" and "up b = []" and "down b = []"
  shows "(bidi_step srv)\<^sup>*\<^sup>* b
           (b\<lparr>snd_pending := rs, srv_seen := srv_seen b @ [r],
              proc := (proc b)\<lparr>clock := clock (proc b) + second, out := out (proc b) @ round_events srv r\<rparr>\<rparr>)"
proof -
  let ?b1 = "pemit (PrintV ''Sending message: %v '' (VReq r)) (b\<lparr>snd_pc := SSend\<rparr>)"
  let ?b2 = "pemit (StreamSend r) (?b1\<lparr>snd_pc := SSleep, snd_pending := rs, up := up ?b1 @ [r]\<rparr>)"
  let ?b3 = "?b2\<lparr>snd_pc := SNext, proc := time_Sleep (1000 * millisecond) (proc ?b2)\<rparr>"
  let ?b4 = "?b3\<lparr>up := [], srv_seen := srv_seen ?b3 @ [r], down := down ?b3 @ on_msg srv r\<rparr>"
  have s1: "bidi_step srv b ?b1" by (rule bidi_step.send_print) (use assms in simp_all)
  have s2: "bidi_step srv ?b1 ?b2"
    using bidi_step.send_send [of ?b1 r rs srv] assms by simp
  have s3: "bidi_step srv ?b2 ?b3" by (rule bidi_step.send_sleep) (use assms in simp_all)
  have s4: "bidi_step srv ?b3 ?b4" by (rule bidi_step.srv_recv) (use assms in simp_all)
  let ?b5 = "?b4\<lparr>down := [], proc := (proc ?b4)\<lparr>out := out (proc ?b4)
         @ map (\<lambda>m. PrintV ''Received: %v '' (VStr (result m))) (on_msg srv r)\<rparr>\<rparr>"
  have s5: "(bidi_step srv)\<^sup>*\<^sup>* ?b4 ?b5"
    by (rule recv_all) (use assms in simp_all)
  from s1 s2 s3 s4 s5 have "(bidi_step srv)\<^sup>*\<^sup>* b ?b5"
    by (meson converse_rtranclp_into_rtranclp)
  moreover have "?b5 = b\<lparr>snd_pending := rs, srv_seen := srv_seen b @ [r],
                         proc := (proc b)\<lparr>clock := clock (proc b) + second, out := out (proc b) @ round_events srv r\<rparr>\<rparr>"
    using assms by (cases b) (simp add: round_events_def emit_def time_Sleep_def)
  ultimately show ?thesis by simp
qed

lemma lockstep_rounds:
  assumes "quit_after srv = None" and "\<not> exited b" and "\<not> rcv_done b" and "\<not> srv_done b"
    and "snd_pc b = SNext" and "snd_pending b = reqs" and "up b = []" and "down b = []"
  shows "(bidi_step srv)\<^sup>*\<^sup>* b
           (b\<lparr>snd_pending := [], srv_seen := srv_seen b @ reqs,
              proc := (proc b)\<lparr>clock := clock (proc b) + second * int (length reqs),
                               out := out (proc b) @ concat (map (round_events srv) reqs)\<rparr>\<rparr>)"
  using assms
proof (induction reqs arbitrary: b)
  case Nil
  then have "b\<lparr>snd_pending := [], srv_seen := srv_seen b, proc := proc b\<rparr> = b" by (cases b) simp
  then show ?case by simp
next
  case (Cons r rs)
  let ?b1 = "b\<lparr>snd_pending := rs, srv_seen := srv_seen b @ [r],
              proc := (proc b)\<lparr>clock := clock (proc b) + second, out := out (proc b) @ round_events srv r\<rparr>\<rparr>"
  have "(bidi_step srv)\<^sup>*\<^sup>* b ?b1" by (rule lockstep_round) (use Cons.prems in simp_all)
  moreover have "(bidi_step srv)\<^sup>*\<^sup>* ?b1
      (?b1\<lparr>snd_pending := [], srv_seen := srv_seen ?b1 @ rs,
         proc := (proc ?b1)\<lparr>clock := clock (proc ?b1) + second * int (length rs),
                            out := out (proc ?b1) @ concat (map (round_events srv) rs)\<rparr>\<rparr>)"
    by (rule Cons.IH) (use Cons.prems in simp_all)
  ultimately show ?case by (simp add: algebra_simps)
qed

lemma lockstep_run:
  assumes "quit_after srv = None" and "final_status srv = None"
  shows "(bidi_step srv)\<^sup>*\<^sup>* (bidi_init reqs s) (bidi_lockstep srv reqs s)"
proof -
  let ?b0 = "bidi_init reqs s"
  let ?b1 = "?b0\<lparr>snd_pending := [], srv_seen := reqs,
              proc := s\<lparr>clock := clock s + second * int (length reqs),
                         out := out s @ concat (map (round_events srv) reqs)\<rparr>\<rparr>"
  let ?b2 = "pemit StreamCloseSend (?b1\<lparr>snd_pc := SDone\<rparr>)"
  let ?b3 = "?b2\<lparr>srv_done := True, up := []\<rparr>"
  let ?b4 = "?b3\<lparr>rcv_done := True\<rparr>"
  let ?b5 = "?b4\<lparr>main_done := True\<rparr>"
  have "(bidi_step srv)\<^sup>*\<^sup>* ?b0 ?b1"
    using lockstep_rounds [OF assms(1), of ?b0 reqs] by (simp add: bidi_init_def)
  moreover have "bidi_step srv ?b1 ?b2" by (rule bidi_step.close_send) (simp_all add: bidi_init_def)
  moreover have "bidi_step srv ?b2 ?b3" by (rule bidi_step.srv_return) (simp_all add: bidi_init_def)
  moreover have "bidi_step srv ?b3 ?b4" by (rule bidi_step.recv_eof) (simp_all add: bidi_init_def assms)
  moreover have "bidi_step srv ?b4 ?b5" by (rule bidi_step.main_wait) (simp_all add: bidi_init_def)
  moreover have "?b5 = bidi_lockstep srv reqs s"
    by (simp add: bidi_init_def bidi_lockstep_def lockstep_trace_def emit_def)
  ultimately show ?thesis
    by (metis (no_types, lifting) rtranclp.rtrancl_into_rtrancl)
qed

lemma lockstep_final: "\<not> bidi_step srv (bidi_lockstep srv reqs s) b"
  by (auto simp: bidi_lockstep_def elim: bidi_stepE)


lemma received_map_received:
  "received (map (\<lambda>m. PrintV ''Received: %v '' (VStr (result m))) ms) = map result ms"
  by (induction ms) simp_all

lemma sends_map_received:
  "sends (map (\<lambda>m. PrintV ''Received: %v '' (VStr (result m))) ms) = []"
  by (induction ms) simp_all

lemma lockstep_observed:
  "sends (lockstep_trace srv reqs) = reqs \<and> received (lockstep_trace srv reqs) = answers srv reqs"
  by (induction reqs)
    (simp_all add: lockstep_trace_def round_events_def answers_def received_map_received sends_map_received)

text \<open>
  C9. For a handler that reads every request and returns OK, the lock-step
  schedule is a complete interleaving of the concurrent phase of
  \<open>doBiDiStreaming\<close>, and every complete interleaving is equivalent to it: the
  function has returned, the sender has closed the stream, the handler has read the
  same requests, the requests on the wire and the lines the receiver printed are
  the same, in the same order, and the same time has passed: one second per request,
  the sender's pauses.
\<close>

theorem bidi_lockstep_equivalent:
  assumes "quit_after srv = None" and "final_status srv = None"
  shows "(bidi_step srv)\<^sup>*\<^sup>* (bidi_init reqs s) (bidi_lockstep srv reqs s)
         \<and> \<not> (\<exists>b'. bidi_step srv (bidi_lockstep srv reqs s) b')
         \<and> (\<forall>b. (bidi_step srv)\<^sup>*\<^sup>* (bidi_init reqs s) b \<and> \<not> (\<exists>b'. bidi_step srv b b') \<longrightarrow>
                main_done b \<and> snd_pc b = SDone \<and> srv_seen b = srv_seen (bidi_lockstep srv reqs s)
                \<and> sends (out (proc b)) = sends (out (proc (bidi_lockstep srv reqs s)))
                \<and> received (out (proc b)) = received (out (proc (bidi_lockstep srv reqs s)))
                \<and> clock (proc b) = clock (proc (bidi_lockstep srv reqs s)))"
proof (intro conjI allI impI)
  show "(bidi_step srv)\<^sup>*\<^sup>* (bidi_init reqs s) (bidi_lockstep srv reqs s)"
    using assms by (rule lockstep_run)
  show "\<not> (\<exists>b'. bidi_step srv (bidi_lockstep srv reqs s) b')"
    by (simp add: lockstep_final)
  fix b
  assume "(bidi_step srv)\<^sup>*\<^sup>* (bidi_init reqs s) b \<and> \<not> (\<exists>b'. bidi_step srv b b')"
  then have run: "(bidi_step srv)\<^sup>*\<^sup>* (bidi_init reqs s) b" and stuck: "\<not> (\<exists>b'. bidi_step srv b b')"
    by simp_all
  from run bidi_reach.start have r: "bidi_reach srv reqs s b" by (rule bidi_reach_star)
  then have md: "main_done b" using stuck assms(2) by (rule bidi_terminal_returned)
  from bidi_returned_result [OF assms(1) r md] obtain es where
    res: "snd_pc b = SDone" "srv_seen b = reqs" "out (proc b) = out s @ es"
         "sends es = reqs" "received es = answers srv reqs"
         "clock (proc b) = clock s + second * int (length reqs)"
    by blast
  show "main_done b" by (rule md)
  show "snd_pc b = SDone" by (rule res(1))
  show "srv_seen b = srv_seen (bidi_lockstep srv reqs s)" using res(2) by (simp add: bidi_lockstep_def)
  show "sends (out (proc b)) = sends (out (proc (bidi_lockstep srv reqs s)))"
    using res(3,4) lockstep_observed [of srv reqs] by (simp add: bidi_lockstep_def)
  show "received (out (proc b)) = received (out (proc (bidi_lockstep srv reqs s)))"
    using res(3,5) lockstep_observed [of srv reqs] by (simp add: bidi_lockstep_def)
  show "clock (proc b) = clock (proc (bidi_lockstep srv reqs s))"
    using res(6) by (simp add: bidi_lockstep_def)
qed

theorem bidi_lockstep_equivalent_witness:
  "quit_after (h_greet_everyone (fake_server 0 0)) = None
   \<and> final_status (h_greet_everyone (fake_server 0 0)) = None
   \<and> (bidi_step (h_greet_everyone (fake_server 0 0)))\<^sup>*\<^sup>* (bidi_init greet_everyone_requests init_rt)
       (bidi_lockstep (h_greet_everyone (fake_server 0 0)) greet_everyone_requests init_rt)
   \<and> received (out (proc (bidi_lockstep (h_greet_everyone (fake_server 0 0)) greet_everyone_requests init_rt)))
       = [''Hello Roger! '', ''Hello John! '', ''Hello Dimitri! '', ''Hello Siska! '', ''Hello Yuri! '']"
proof -
  have q: "quit_after (h_greet_everyone (fake_server 0 0)) = None"
    and f: "final_status (h_greet_everyone (fake_server 0 0)) = None"
    by (simp_all add: fake_server_def)
  have "received (out (proc (bidi_lockstep (h_greet_everyone (fake_server 0 0)) greet_everyone_requests init_rt)))
       = [''Hello Roger! '', ''Hello John! '', ''Hello Dimitri! '', ''Hello Siska! '', ''Hello Yuri! '']"
    by (simp add: bidi_lockstep_def lockstep_trace_def round_events_def init_rt_def fake_server_def
        greet_everyone_requests_def stream_names_def first_only_def hello_bang_def)
  with q f bidi_lockstep_equivalent [OF q f, of greet_everyone_requests init_rt] show ?thesis by blast
qed

subsection \<open>The length of a run\<close>

text \<open>
  Every step lowers the progress measure of \<open>BidiStream\<close>; with a handler that reads
  every request it lowers it by exactly one, and a complete run ends at measure one.
\<close>

lemma bidi_measure_init: "bidi_measure srv (bidi_init reqs s) = Suc (bidi_steps_bound srv reqs)"
  by (simp add: bidi_measure_def bidi_init_def bidi_steps_bound_def)

lemma bidi_reach_not_both: "bidi_reach srv reqs s0 b \<Longrightarrow> \<not> (main_done b \<and> exited b)"
proof (induction rule: bidi_reach.induct)
  case start
  then show ?case by (simp add: bidi_init_def)
next
  case (step b b')
  from step.hyps(1) have "bidi_shape srv b" by (simp add: bidi_reach_inv)
  with step.hyps(2) step.IH show ?case
    by (induction rule: bidi_step.cases) (auto simp: bidi_shape_def)
qed

lemma bidi_measure_pos: "bidi_reach srv reqs s0 b \<Longrightarrow> 0 < bidi_measure srv b"
  using bidi_reach_not_both [of srv reqs s0 b] by (auto simp: bidi_measure_def)

lemma bidi_step_measure_exact:
  assumes "quit_after srv = None" and "bidi_shape srv b" and "bidi_step srv b b'"
  shows "Suc (bidi_measure srv b') = bidi_measure srv b"
  using assms(3,1,2)
  by (induction rule: bidi_step.induct) (auto simp: bidi_measure_def bidi_shape_def emit_def split: sender_pc.split)

lemma bidi_run_measure:
  "(bidi_step srv ^^ n) b b' \<Longrightarrow> bidi_reach srv reqs s0 b \<Longrightarrow>
   bidi_reach srv reqs s0 b' \<and> bidi_measure srv b' + n \<le> bidi_measure srv b
   \<and> (quit_after srv = None \<longrightarrow> bidi_measure srv b' + n = bidi_measure srv b)"
proof (induction n arbitrary: b')
  case 0
  then show ?case by simp
next
  case (Suc n)
  from Suc.prems(1) obtain b1 where run: "(bidi_step srv ^^ n) b b1" and st: "bidi_step srv b1 b'"
    by (rule relpowp_Suc_E)
  from Suc.IH [OF run Suc.prems(2)] have r1: "bidi_reach srv reqs s0 b1"
    and le: "bidi_measure srv b1 + n \<le> bidi_measure srv b"
    and eq: "quit_after srv = None \<longrightarrow> bidi_measure srv b1 + n = bidi_measure srv b" by simp_all
  have "bidi_reach srv reqs s0 b'" using r1 st by (rule bidi_reach.step)
  moreover have "bidi_measure srv b' < bidi_measure srv b1" using st by (rule bidi_step_decreases)
  moreover have "quit_after srv = None \<longrightarrow> Suc (bidi_measure srv b') = bidi_measure srv b1"
    using r1 st by (auto simp: bidi_reach_inv intro: bidi_step_measure_exact)
  ultimately show ?case using le eq by auto
qed

lemma bidi_terminal_measure:
  assumes "quit_after srv = None" and "final_status srv = None"
    and "bidi_reach srv reqs s0 b" and "\<not> (\<exists>b'. bidi_step srv b b')"
  shows "bidi_measure srv b = 1"
proof -
  have md: "main_done b" using assms(3,4,2) by (rule bidi_terminal_returned)
  from assms(3) have "bidi_shape srv b" by (simp add: bidi_reach_inv)
  with md assms(1,2) show ?thesis by (auto simp: bidi_measure_def bidi_shape_def)
qed

text \<open>
  C13. Every run of the concurrent phase of \<open>doBiDiStreaming\<close>, for any handler,
  takes at most four steps plus four per request plus one per answer; with a
  handler that reads every request and returns OK, every complete run takes
  exactly that many steps, whatever the interleaving.
\<close>

theorem bidi_run_length:
  "(\<forall>n b. (bidi_step srv ^^ n) (bidi_init reqs s) b \<longrightarrow> n \<le> bidi_steps_bound srv reqs)
   \<and> (quit_after srv = None \<and> final_status srv = None \<longrightarrow>
        (\<forall>n b. (bidi_step srv ^^ n) (bidi_init reqs s) b \<and> \<not> (\<exists>b'. bidi_step srv b b')
               \<longrightarrow> n = bidi_steps_bound srv reqs))"
proof (intro conjI allI impI)
  have r0: "bidi_reach srv reqs s (bidi_init reqs s)" by (rule bidi_reach.start)
  fix n b
  {
    assume run: "(bidi_step srv ^^ n) (bidi_init reqs s) b"
    from bidi_run_measure [OF run r0] have "bidi_reach srv reqs s b"
      and "bidi_measure srv b + n \<le> bidi_measure srv (bidi_init reqs s)" by simp_all
    with bidi_measure_pos [of srv reqs s b] show "n \<le> bidi_steps_bound srv reqs"
      by (simp add: bidi_measure_init)
  }
  assume q: "quit_after srv = None \<and> final_status srv = None"
    and "(bidi_step srv ^^ n) (bidi_init reqs s) b \<and> \<not> (\<exists>b'. bidi_step srv b b')"
  then have run: "(bidi_step srv ^^ n) (bidi_init reqs s) b" and stuck: "\<not> (\<exists>b'. bidi_step srv b b')" by simp_all
  from bidi_run_measure [OF run r0] q have r: "bidi_reach srv reqs s b"
    and eq: "bidi_measure srv b + n = bidi_measure srv (bidi_init reqs s)" by simp_all
  from q r stuck have "bidi_measure srv b = 1" by (simp add: bidi_terminal_measure)
  with eq show "n = bidi_steps_bound srv reqs" by (simp add: bidi_measure_init)
qed

theorem bidi_run_length_witness:
  "quit_after (h_greet_everyone (fake_server 0 0)) = None \<and> final_status (h_greet_everyone (fake_server 0 0)) = None
   \<and> bidi_steps_bound (h_greet_everyone (fake_server 0 0)) greet_everyone_requests = 29
   \<and> (\<exists>n. (bidi_step (h_greet_everyone (fake_server 0 0)) ^^ n) (bidi_init greet_everyone_requests init_rt)
              (bidi_lockstep (h_greet_everyone (fake_server 0 0)) greet_everyone_requests init_rt)
         \<and> n = 29)"
proof -
  let ?srv = "h_greet_everyone (fake_server 0 0)"
  have q: "quit_after ?srv = None" and f: "final_status ?srv = None" by (simp_all add: fake_server_def)
  have bd: "bidi_steps_bound ?srv greet_everyone_requests = 29"
    by (simp add: bidi_steps_bound_def fake_server_def greet_everyone_requests_def stream_names_def)
  obtain n where run: "(bidi_step ?srv ^^ n) (bidi_init greet_everyone_requests init_rt)
      (bidi_lockstep ?srv greet_everyone_requests init_rt)"
    using lockstep_run [OF q f] by (metis rtranclp_power)
  have "n = 29"
    using bidi_run_length [of ?srv greet_everyone_requests init_rt] q f run lockstep_final bd by blast
  with q f bd run show ?thesis by blast
qed

subsection \<open>Elapsed time\<close>

text \<open>The sender's pauses still to come never increase, and start at one per request.\<close>

lemma sleeps_left_step: "bidi_step srv b b' \<Longrightarrow> sleeps_left b' \<le> sleeps_left b"
  by (induction rule: bidi_step.induct) (simp_all add: sleeps_left_def)

lemma sleeps_left_reach: "bidi_reach srv reqs s0 b \<Longrightarrow> sleeps_left b \<le> length reqs"
  by (induction rule: bidi_reach.induct)
    (simp add: sleeps_left_def bidi_init_def, metis order_trans sleeps_left_step)

text \<open>
  C15. In every reachable state of the concurrent phase of \<open>doBiDiStreaming\<close>,
  for any handler, the time since the stream was opened is between zero and one
  second per request: only the sender's pauses take time, one per request.
\<close>

theorem bidi_time_bound:
  assumes "bidi_reach srv reqs s0 b"
  shows "clock s0 \<le> clock (proc b) \<and> clock (proc b) \<le> clock s0 + second * int (length reqs)"
proof -
  from assms have "bidi_flow srv reqs s0 b" by (simp add: bidi_reach_inv)
  then have clk: "clock (proc b) + second * int (sleeps_left b) = clock s0 + second * int (length reqs)"
    by (simp add: bidi_flow_def)
  from sleeps_left_reach [OF assms] have "int (sleeps_left b) \<le> int (length reqs)" by simp
  with clk show ?thesis by simp
qed

theorem bidi_time_bound_witness:
  "bidi_reach (h_greet_everyone (fake_server 0 0)) greet_everyone_requests init_rt
     (bidi_lockstep (h_greet_everyone (fake_server 0 0)) greet_everyone_requests init_rt)
   \<and> clock (proc (bidi_lockstep (h_greet_everyone (fake_server 0 0)) greet_everyone_requests init_rt)) \<le> 5 * second"
proof -
  let ?srv = "h_greet_everyone (fake_server 0 0)"
  have q: "quit_after ?srv = None" and f: "final_status ?srv = None" by (simp_all add: fake_server_def)
  have r: "bidi_reach ?srv greet_everyone_requests init_rt (bidi_lockstep ?srv greet_everyone_requests init_rt)"
    using lockstep_run [OF q f] bidi_reach.start by (rule bidi_reach_star)
  have len: "length greet_everyone_requests = 5" by (simp add: greet_everyone_requests_def stream_names_def)
  from r bidi_time_bound [OF r] len show ?thesis by (simp add: init_rt_def)
qed

end
