(* ===== verification/BidiErrors.thy ===== *)
theory BidiErrors
  imports BidiStream
begin

text \<open>
  The error branch of the receiver goroutine of \<open>doBiDiStreaming\<close> (lines 186--190):
  when the handler returns an error status, \<open>Recv()\<close> yields it and the receiver
  calls \<open>log.Fatalf\<close>. Two invariants of the reachable states (only the \<open>io.EOF\<close>
  branch finishes the receiver; a process that has exited did so by that call, as
  its last event) give the outcome of every complete interleaving.
\<close>

lemma bidi_reach_rcv_done: "bidi_reach srv reqs s0 b \<Longrightarrow> rcv_done b \<Longrightarrow> final_status srv = None"
proof (induction rule: bidi_reach.induct)
  case start
  then show ?case by (simp add: bidi_init_def)
next
  case (step b b')
  from step.hyps(2) step.prems step.IH show ?case
    by (induction rule: bidi_step.cases) (auto split: if_splits)
qed

lemma bidi_reach_exited:
  "bidi_reach srv reqs s0 b \<Longrightarrow> exited b \<Longrightarrow>
   \<exists>e. final_status srv = Some e \<and> last (out (proc b)) = FatalV ''Error while receiving: %v '' (VErr (to_status_error e))"
proof (induction rule: bidi_reach.induct)
  case start
  then show ?case by (simp add: bidi_init_def)
next
  case (step b b')
  from step.hyps(2) step.prems step.IH show ?case
    by (induction rule: bidi_step.cases) (auto simp: emit_def split: if_splits)
qed

text \<open>
  C19. When the \<open>GreetEveryone\<close> handler returns an error status, every complete
  interleaving of the concurrent phase of \<open>doBiDiStreaming\<close> ends with the process
  exited through the receiver's \<open>log.Fatalf\<close>, whose line is the last event: the
  function never returns, whatever the sender was doing.
\<close>

theorem bidi_error_exits:
  assumes "final_status srv = Some e"
  shows "\<forall>b. (bidi_step srv)\<^sup>*\<^sup>* (bidi_init reqs s) b \<and> \<not> (\<exists>b'. bidi_step srv b b') \<longrightarrow>
           exited b \<and> \<not> main_done b
           \<and> last (out (proc b)) = FatalV ''Error while receiving: %v '' (VErr (to_status_error e))"
proof (intro allI impI)
  fix b
  assume "(bidi_step srv)\<^sup>*\<^sup>* (bidi_init reqs s) b \<and> \<not> (\<exists>b'. bidi_step srv b b')"
  then have run: "(bidi_step srv)\<^sup>*\<^sup>* (bidi_init reqs s) b" and stuck: "\<not> (\<exists>b'. bidi_step srv b b')"
    by simp_all
  from run bidi_reach.start have r: "bidi_reach srv reqs s b" by (rule bidi_reach_star)
  then have sh: "bidi_shape srv b" by (simp add: bidi_reach_inv)
  have nm: "\<not> main_done b"
  proof
    assume "main_done b"
    with sh have "rcv_done b" by (simp add: bidi_shape_def)
    with r have "final_status srv = None" by (rule bidi_reach_rcv_done)
    with assms show False by simp
  qed
  have ex: "exited b"
  proof (rule ccontr)
    assume "\<not> exited b"
    with sh nm stuck show False by (blast dest: bidi_enabled)
  qed
  from bidi_reach_exited [OF r ex] assms nm ex
  show "exited b \<and> \<not> main_done b
        \<and> last (out (proc b)) = FatalV ''Error while receiving: %v '' (VErr (to_status_error e))"
    by auto
qed

theorem bidi_error_exits_witness:
  "final_status \<lparr>on_msg = (\<lambda>r. []), quit_after = None, final_status = Some (StatusError Internal ''boom'')\<rparr>
     = Some (StatusError Internal ''boom'')
   \<and> (\<exists>b. (bidi_step \<lparr>on_msg = (\<lambda>r. []), quit_after = None, final_status = Some (StatusError Internal ''boom'')\<rparr>)\<^sup>*\<^sup>*
            (bidi_init greet_everyone_requests init_rt) b
         \<and> exited b \<and> \<not> main_done b
         \<and> last (out (proc b)) = FatalV ''Error while receiving: %v '' (VErr (StatusError Internal ''boom'')))"
proof -
  let ?srv = "\<lparr>on_msg = (\<lambda>r. []), quit_after = None, final_status = Some (StatusError Internal ''boom'')\<rparr>"
  have f: "final_status ?srv = Some (StatusError Internal ''boom'')" by simp
  obtain b where run: "(bidi_step ?srv)\<^sup>*\<^sup>* (bidi_init greet_everyone_requests init_rt) b"
      and stuck: "\<not> (\<exists>b'. bidi_step ?srv b b')"
    using bidi_terminal_reachable [OF bidi_reach.start] by blast
  from bidi_error_exits [OF f, of greet_everyone_requests init_rt] run stuck
  have "exited b \<and> \<not> main_done b
        \<and> last (out (proc b)) = FatalV ''Error while receiving: %v '' (VErr (to_status_error (StatusError Internal ''boom'')))"
    by blast
  with f run show ?thesis by (auto simp: to_status_error_def)
qed

end
