(* ===== verification/BidiQuit.thy ===== *)
theory BidiQuit
  imports BidiStream
begin

text \<open>
  A \<open>GreetEveryone\<close> handler that returns OK after reading \<open>k\<close> requests, before the
  client has half-closed. The sender of \<open>doBiDiStreaming\<close> ignores the error of
  \<open>stream.Send\<close> (line 172), so it keeps printing, sending into the closed stream and
  pausing; the receiver sees \<open>io.EOF\<close> after the answers to the first \<open>k\<close> requests
  and closes \<open>waitc\<close>. An invariant of the reachable states fixes what such a handler
  has read once it has returned; with it, every complete interleaving is given.
\<close>

lemma bidi_reach_quit_seen:
  assumes "bidi_reach srv reqs s0 b" and "quit_after srv = Some k" and "k \<le> length reqs"
  shows "srv_done b \<longrightarrow> srv_seen b = take k reqs"
  using assms(1)
proof (induction rule: bidi_reach.induct)
  case start
  then show ?case by (simp add: bidi_init_def)
next
  case (step b b')
  from step.hyps(1) have sh: "bidi_shape srv b" and fl: "bidi_flow srv reqs s0 b"
    by (simp_all add: bidi_reach_inv)
  from fl obtain es where fl1: "\<not> srv_done b \<longrightarrow> sends es @ snd_pending b = reqs"
    and fl2: "\<not> srv_done b \<longrightarrow> srv_seen b @ up b = sends es"
    by (rule bidi_flowE) blast
  from sh assms(2) have le: "length (srv_seen b) \<le> k" and pc: "snd_pc b = SDone \<longrightarrow> snd_pending b = []"
    by (simp_all add: bidi_shape_def)
  show ?case
  proof (cases "srv_done b")
    case True
    from step.hyps(2) True step.IH show ?thesis
      by (cases rule: bidi_step.cases) (auto simp: emit_def)
  next
    case False
    with fl1 fl2 have pre: "srv_seen b @ up b @ snd_pending b = reqs" by (metis append_assoc)
    have ret: "srv_seen b = take k reqs"
      if "(up b = [] \<and> snd_pc b = SDone) \<or> quit_after srv = Some (length (srv_seen b))"
    proof (cases "up b = [] \<and> snd_pc b = SDone")
      case True
      with pc pre have eq: "srv_seen b = reqs" by simp
      with le have "length reqs \<le> k" by simp
      with eq show ?thesis by simp
    next
      case False
      with that assms(2) have "length (srv_seen b) = k" by simp
      moreover from pre have "srv_seen b = take (length (srv_seen b)) reqs"
        by (simp add: append_eq_conv_conj)
      ultimately show ?thesis by simp
    qed
    from step.hyps(2) False show ?thesis
    proof (cases rule: bidi_step.cases)
      case srv_return
      with ret show ?thesis by simp
    qed (simp_all add: emit_def)
  qed
qed

text \<open>
  C26. When the \<open>GreetEveryone\<close> handler returns OK after reading \<open>k\<close> of the
  requests, every complete interleaving of the concurrent phase of
  \<open>doBiDiStreaming\<close> ends with the function returned normally and the process
  alive: the handler has read exactly the first \<open>k\<close> requests, the receiver has
  printed exactly their answers, in order, and nothing tells the caller that the
  rest were lost; the sender has nonetheless gone through the whole slice, its
  sends into the finished stream failing unseen, and has half-closed the stream
  after all its pauses, one second per request.
\<close>

theorem bidi_server_quits:
  assumes run: "(bidi_step srv)\<^sup>*\<^sup>* (bidi_init reqs s) b" and stuck: "\<not> (\<exists>b'. bidi_step srv b b')"
    and q: "quit_after srv = Some k" and k: "k \<le> length reqs" and f: "final_status srv = None"
  shows "main_done b \<and> \<not> exited b \<and> snd_pc b = SDone
         \<and> clock (proc b) = clock s + second * int (length reqs) \<and> srv_seen b = take k reqs
         \<and> (\<exists>es. out (proc b) = out s @ es \<and> prefix (take k reqs) (sends es)
                \<and> received es = answers srv (take k reqs))"
proof -
  from run bidi_reach.start have r: "bidi_reach srv reqs s b" by (rule bidi_reach_star)
  then have sh: "bidi_shape srv b" and fl: "bidi_flow srv reqs s b" by (simp_all add: bidi_reach_inv)
  have md: "main_done b" using r stuck f by (rule bidi_terminal_returned)
  from sh f have ne: "\<not> exited b" by (simp add: bidi_shape_def)
  have sd: "snd_pc b = SDone"
  proof (rule ccontr)
    assume "snd_pc b \<noteq> SDone"
    with sh ne have "\<exists>b'. bidi_step srv b b'" by (rule bidi_sender_enabled)
    with stuck show False by simp
  qed
  from sh md have fin: "srv_done b" "down b = []" by (simp_all add: bidi_shape_def)
  with bidi_reach_quit_seen [OF r q k] have seen: "srv_seen b = take k reqs" by simp
  from sh sd have "snd_pending b = []" by (simp add: bidi_shape_def)
  with sd have sl: "sleeps_left b = 0" by (simp add: sleeps_left_def)
  from fl obtain es where es: "out (proc b) = out s @ es" "prefix (srv_seen b @ up b) (sends es)"
    "received es @ map result (down b) = answers srv (srv_seen b)"
    "clock (proc b) + second * int (sleeps_left b) = clock s + second * int (length reqs)"
    by (rule bidi_flowE) blast
  from es(2) have "prefix (srv_seen b) (sends es)" by (auto simp: prefix_def)
  with es(1,3) fin(2) seen have "\<exists>es. out (proc b) = out s @ es \<and> prefix (take k reqs) (sends es)
                \<and> received es = answers srv (take k reqs)" by auto
  moreover from es(4) sl have "clock (proc b) = clock s + second * int (length reqs)" by simp
  ultimately show ?thesis using md ne sd seen by blast
qed

theorem bidi_server_quits_witness:
  "quit_after ((h_greet_everyone (fake_server 0 0))\<lparr>quit_after := Some 2\<rparr>) = Some 2
   \<and> 2 \<le> length greet_everyone_requests
   \<and> final_status ((h_greet_everyone (fake_server 0 0))\<lparr>quit_after := Some 2\<rparr>) = None
   \<and> (\<exists>b. (bidi_step ((h_greet_everyone (fake_server 0 0))\<lparr>quit_after := Some 2\<rparr>))\<^sup>*\<^sup>*
            (bidi_init greet_everyone_requests init_rt) b
         \<and> \<not> (\<exists>b'. bidi_step ((h_greet_everyone (fake_server 0 0))\<lparr>quit_after := Some 2\<rparr>) b b')
         \<and> main_done b \<and> snd_pc b = SDone \<and> clock (proc b) = 5 * second
         \<and> (\<exists>es. out (proc b) = es \<and> received es = [''Hello Roger! '', ''Hello John! '']))"
proof -
  let ?srv = "(h_greet_everyone (fake_server 0 0))\<lparr>quit_after := Some 2\<rparr>"
  have q: "quit_after ?srv = Some 2" and f: "final_status ?srv = None"
    by (simp_all add: fake_server_def)
  have k: "2 \<le> length greet_everyone_requests"
    by (simp add: greet_everyone_requests_def stream_names_def)
  have ans: "answers ?srv (take 2 greet_everyone_requests) = [''Hello Roger! '', ''Hello John! '']"
    by (simp add: answers_def fake_server_def greet_everyone_requests_def stream_names_def first_only_def hello_bang_def)
  have len: "length greet_everyone_requests = 5"
    by (simp add: greet_everyone_requests_def stream_names_def)
  obtain b where run: "(bidi_step ?srv)\<^sup>*\<^sup>* (bidi_init greet_everyone_requests init_rt) b"
      and stuck: "\<not> (\<exists>b'. bidi_step ?srv b b')"
    using bidi_terminal_reachable [OF bidi_reach.start] by blast
  from bidi_server_quits [OF run stuck q k f] ans len
  have "main_done b \<and> snd_pc b = SDone \<and> clock (proc b) = 5 * second
        \<and> (\<exists>es. out (proc b) = es \<and> received es = [''Hello Roger! '', ''Hello John! ''])"
    by (auto simp: init_rt_def)
  with q k f run stuck show ?thesis by blast
qed

end
