(* ===== verification/BidiSchedules.thy ===== *)
theory BidiSchedules
  imports BidiLockstep
begin

text \<open>
  A second schedule of the concurrent phase of \<open>doBiDiStreaming\<close>: the handler
  reads nothing until the sender has sent every request and half-closed, then reads
  and answers them all, and only then does the receiver print (the spec's P4, a
  service that delays its responses until all requests are sent). It is a complete
  interleaving, like the lock-step one; on the test server the two print their lines
  in different orders, so the program fixes no order between the directions.
\<close>

definition send_events :: "request list \<Rightarrow> event list" where
  "send_events reqs = concat (map (\<lambda>r. [PrintV ''Sending message: %v '' (VReq r), StreamSend r]) reqs)"

definition batched_trace :: "bidi_server \<Rightarrow> request list \<Rightarrow> event list" where
  "batched_trace srv reqs =
     send_events reqs @ [StreamCloseSend]
     @ map (\<lambda>m. PrintV ''Received: %v '' (VStr (result m))) (concat (map (on_msg srv) reqs))"

definition bidi_batched :: "bidi_server \<Rightarrow> request list \<Rightarrow> rt \<Rightarrow> bidi" where
  "bidi_batched srv reqs s =
     \<lparr>snd_pc = SDone, snd_pending = [], up = [], srv_seen = reqs, srv_done = True, down = [],
      rcv_done = True, main_done = True, exited = False,
      proc = s\<lparr>clock := clock s + second * int (length reqs), out := out s @ batched_trace srv reqs\<rparr>\<rparr>"

lemma send_all:
  assumes "\<not> exited b" and "\<not> srv_done b" and "snd_pc b = SNext" and "snd_pending b = rs"
  shows "(bidi_step srv)\<^sup>*\<^sup>* b
           (b\<lparr>snd_pending := [], up := up b @ rs,
              proc := (proc b)\<lparr>clock := clock (proc b) + second * int (length rs),
                               out := out (proc b) @ send_events rs\<rparr>\<rparr>)"
  using assms
proof (induction rs arbitrary: b)
  case Nil
  then have "b\<lparr>snd_pending := [], up := up b, proc := proc b\<rparr> = b" by (cases b) simp
  then show ?case by (simp add: send_events_def)
next
  case (Cons r rs)
  let ?b1 = "pemit (PrintV ''Sending message: %v '' (VReq r)) (b\<lparr>snd_pc := SSend\<rparr>)"
  let ?b2 = "pemit (StreamSend r) (?b1\<lparr>snd_pc := SSleep, snd_pending := rs, up := up ?b1 @ [r]\<rparr>)"
  let ?b3 = "?b2\<lparr>snd_pc := SNext, proc := time_Sleep (1000 * millisecond) (proc ?b2)\<rparr>"
  have s1: "bidi_step srv b ?b1" by (rule bidi_step.send_print) (use Cons.prems in simp_all)
  have s2: "bidi_step srv ?b1 ?b2"
    using bidi_step.send_send [of ?b1 r rs srv] Cons.prems by simp
  have s3: "bidi_step srv ?b2 ?b3" by (rule bidi_step.send_sleep) (use Cons.prems in simp_all)
  have s4: "(bidi_step srv)\<^sup>*\<^sup>* ?b3
      (?b3\<lparr>snd_pending := [], up := up ?b3 @ rs,
          proc := (proc ?b3)\<lparr>clock := clock (proc ?b3) + second * int (length rs),
                             out := out (proc ?b3) @ send_events rs\<rparr>\<rparr>)"
    by (rule Cons.IH) (use Cons.prems in simp_all)
  from s1 s2 s3 s4 have "(bidi_step srv)\<^sup>*\<^sup>* b
      (?b3\<lparr>snd_pending := [], up := up ?b3 @ rs,
          proc := (proc ?b3)\<lparr>clock := clock (proc ?b3) + second * int (length rs),
                             out := out (proc ?b3) @ send_events rs\<rparr>\<rparr>)"
    by (meson converse_rtranclp_into_rtranclp)
  moreover have "?b3\<lparr>snd_pending := [], up := up ?b3 @ rs,
          proc := (proc ?b3)\<lparr>clock := clock (proc ?b3) + second * int (length rs),
                             out := out (proc ?b3) @ send_events rs\<rparr>\<rparr>
      = b\<lparr>snd_pending := [], up := up b @ r # rs,
           proc := (proc b)\<lparr>clock := clock (proc b) + second * int (length (r # rs)),
                            out := out (proc b) @ send_events (r # rs)\<rparr>\<rparr>"
    using Cons.prems by (cases b) (simp add: send_events_def emit_def time_Sleep_def algebra_simps)
  ultimately show ?case by simp
qed

lemma srv_read_all:
  assumes "quit_after srv = None" and "\<not> exited b" and "\<not> srv_done b" and "up b = rs"
  shows "(bidi_step srv)\<^sup>*\<^sup>* b
           (b\<lparr>up := [], srv_seen := srv_seen b @ rs, down := down b @ concat (map (on_msg srv) rs)\<rparr>)"
  using assms
proof (induction rs arbitrary: b)
  case Nil
  then have "b\<lparr>up := [], srv_seen := srv_seen b @ [], down := down b @ []\<rparr> = b" by (cases b) simp
  then show ?case by simp
next
  case (Cons r rs)
  let ?b1 = "b\<lparr>up := rs, srv_seen := srv_seen b @ [r], down := down b @ on_msg srv r\<rparr>"
  have s1: "bidi_step srv b ?b1" by (rule bidi_step.srv_recv) (use Cons.prems in simp_all)
  have s2: "(bidi_step srv)\<^sup>*\<^sup>* ?b1
      (?b1\<lparr>up := [], srv_seen := srv_seen ?b1 @ rs, down := down ?b1 @ concat (map (on_msg srv) rs)\<rparr>)"
    by (rule Cons.IH) (use Cons.prems in simp_all)
  from s1 s2 have "(bidi_step srv)\<^sup>*\<^sup>* b
      (?b1\<lparr>up := [], srv_seen := srv_seen ?b1 @ rs, down := down ?b1 @ concat (map (on_msg srv) rs)\<rparr>)"
    by (rule converse_rtranclp_into_rtranclp)
  then show ?case by simp
qed

text \<open>
  C27. For every handler that answers each request as it reads it and returns OK
  after the client's half-close, the schedule in which the handler waits until the
  sender has sent all the requests and half-closed, and the receiver then prints all
  the answers, is a complete interleaving of \<open>doBiDiStreaming\<close>: it ends with the
  function returned, after one second per request, and no step is left; with at
  least two requests and an answer to the first, its trace differs from the
  lock-step run's, so the program fixes no order between the two directions.
\<close>

theorem bidi_batched_complete:
  assumes q: "quit_after srv = None" and f: "final_status srv = None"
  shows "(bidi_step srv)\<^sup>*\<^sup>* (bidi_init reqs s) (bidi_batched srv reqs s)
         \<and> \<not> (\<exists>b. bidi_step srv (bidi_batched srv reqs s) b)
         \<and> (2 \<le> length reqs \<and> on_msg srv (hd reqs) \<noteq> [] \<longrightarrow>
              out (proc (bidi_batched srv reqs s)) \<noteq> out (proc (bidi_lockstep srv reqs s)))"
proof (intro conjI impI)
  let ?b0 = "bidi_init reqs s"
  let ?b1 = "?b0\<lparr>snd_pending := [], up := reqs,
              proc := s\<lparr>clock := clock s + second * int (length reqs), out := out s @ send_events reqs\<rparr>\<rparr>"
  let ?b2 = "pemit StreamCloseSend (?b1\<lparr>snd_pc := SDone\<rparr>)"
  let ?b3 = "?b2\<lparr>up := [], srv_seen := reqs, down := concat (map (on_msg srv) reqs)\<rparr>"
  let ?b4 = "?b3\<lparr>srv_done := True, up := []\<rparr>"
  let ?b5 = "?b4\<lparr>down := [], proc := (proc ?b4)\<lparr>out := out (proc ?b4)
               @ map (\<lambda>m. PrintV ''Received: %v '' (VStr (result m))) (concat (map (on_msg srv) reqs))\<rparr>\<rparr>"
  let ?b6 = "?b5\<lparr>rcv_done := True\<rparr>"
  let ?b7 = "?b6\<lparr>main_done := True\<rparr>"
  have "(bidi_step srv)\<^sup>*\<^sup>* ?b0 ?b1"
    using send_all [of ?b0 reqs srv] by (simp add: bidi_init_def)
  moreover have "bidi_step srv ?b1 ?b2" by (rule bidi_step.close_send) (simp_all add: bidi_init_def)
  moreover have "(bidi_step srv)\<^sup>*\<^sup>* ?b2 ?b3"
    using srv_read_all [OF q, of ?b2 reqs] by (simp add: bidi_init_def)
  moreover have "bidi_step srv ?b3 ?b4" by (rule bidi_step.srv_return) (simp_all add: bidi_init_def)
  moreover have "(bidi_step srv)\<^sup>*\<^sup>* ?b4 ?b5" by (rule recv_all) (simp_all add: bidi_init_def)
  moreover have "bidi_step srv ?b5 ?b6" by (rule bidi_step.recv_eof) (simp_all add: bidi_init_def f)
  moreover have "bidi_step srv ?b6 ?b7" by (rule bidi_step.main_wait) (simp_all add: bidi_init_def)
  moreover have "?b7 = bidi_batched srv reqs s"
    by (simp add: bidi_init_def bidi_batched_def batched_trace_def emit_def)
  ultimately show "(bidi_step srv)\<^sup>*\<^sup>* ?b0 (bidi_batched srv reqs s)"
    by (metis (no_types, lifting) rtranclp.rtrancl_into_rtrancl rtranclp_trans)
  show "\<not> (\<exists>b. bidi_step srv (bidi_batched srv reqs s) b)"
    by (auto simp: bidi_batched_def elim: bidi_stepE)
  assume "2 \<le> length reqs \<and> on_msg srv (hd reqs) \<noteq> []"
  then obtain r1 r2 rs m ms where "reqs = r1 # r2 # rs" and "on_msg srv r1 = m # ms"
    by (cases reqs rule: remdups_adj.cases) (auto simp: neq_Nil_conv)
  then show "out (proc (bidi_batched srv reqs s)) \<noteq> out (proc (bidi_lockstep srv reqs s))"
    by (simp add: bidi_batched_def bidi_lockstep_def batched_trace_def lockstep_trace_def
        send_events_def round_events_def)
qed

theorem bidi_batched_complete_witness:
  "quit_after (h_greet_everyone (fake_server 0 0)) = None \<and> final_status (h_greet_everyone (fake_server 0 0)) = None
   \<and> (bidi_step (h_greet_everyone (fake_server 0 0)))\<^sup>*\<^sup>* (bidi_init greet_everyone_requests init_rt)
        (bidi_batched (h_greet_everyone (fake_server 0 0)) greet_everyone_requests init_rt)
   \<and> \<not> (\<exists>b. bidi_step (h_greet_everyone (fake_server 0 0))
             (bidi_batched (h_greet_everyone (fake_server 0 0)) greet_everyone_requests init_rt) b)
   \<and> main_done (bidi_batched (h_greet_everyone (fake_server 0 0)) greet_everyone_requests init_rt)
   \<and> 2 \<le> length greet_everyone_requests
   \<and> on_msg (h_greet_everyone (fake_server 0 0)) (hd greet_everyone_requests) \<noteq> []
   \<and> out (proc (bidi_batched (h_greet_everyone (fake_server 0 0)) greet_everyone_requests init_rt))
     \<noteq> out (proc (bidi_lockstep (h_greet_everyone (fake_server 0 0)) greet_everyone_requests init_rt))"
proof -
  let ?srv = "h_greet_everyone (fake_server 0 0)"
  have q: "quit_after ?srv = None" and f: "final_status ?srv = None" by (simp_all add: fake_server_def)
  have two: "2 \<le> length greet_everyone_requests \<and> on_msg ?srv (hd greet_everyone_requests) \<noteq> []"
    by (simp add: fake_server_def greet_everyone_requests_def stream_names_def)
  from q f two bidi_batched_complete [OF q f, of greet_everyone_requests init_rt] show ?thesis
    by (simp add: bidi_batched_def)
qed

end
