(* ===== verification/Spec2Isabelle.thy ===== *)
theory Spec2Isabelle
  imports ClientMain DeadlineMachine ServerStream ClientStream BidiLockstep BidiErrors BidiQuit BidiSchedules
begin

text \<open>
  \<^bold>\<open>Verification of the grpc-greet client.\<close>
  The program is one Go file, \<open>src/greet/greet_client/client.go\<close>: \<open>main\<close> dials the
  greet service and runs drivers of its five RPCs through the generated client
  \<open>grpc_client.GreetServiceClient\<close>: \<open>doUnary\<close> (\<open>Greet\<close>), \<open>doServerStreaming\<close>
  (\<open>GreetManyTimes\<close>), \<open>doClientStreaming\<close> (\<open>LongGreet\<close>), \<open>doBiDiStreaming\<close>
  (\<open>GreetEveryone\<close>, two goroutines) and \<open>doUnaryWithDeadline\<close> (\<open>GreetWithDeadline\<close>
  under a \<open>context.WithTimeout\<close>). Only the last one is called by \<open>main\<close> (twice);
  the other calls are commented out, but every driver is modelled.

  \<^bold>\<open>Theories.\<close>
  \<^item> \<open>Prelude\<close>: the collection \<open>go_simps\<close> of the runtime's defining equations,
    facts on prefixes and on splitting a trace at an event,
    durations and instants as \<open>int\<close> nanoseconds (\<open>time.Duration\<close> is an
    \<open>int64\<close> of nanoseconds; no computation here comes near its bounds, so it is not
    kept at width), and \<open>progress_reaches_final\<close>, the generic argument that an
    invariant with a decreasing step out of every non-final state reaches a final
    state.
  \<^item> \<open>Messages\<close>: the protocol-buffer messages (record \<open>greeting\<close>, datatypes
    \<open>request\<close> and \<open>response\<close>, from the spec: the generated package is not in the
    sources) and the request literals that \<open>client.go\<close> builds.
  \<^item> \<open>GoRuntime\<close>: the process state \<open>rt\<close> (a clock, the contexts made by
    \<open>context.WithTimeout\<close>, and the console/event trace \<open>out\<close>), \<open>fmt\<close>, \<open>log\<close>,
    \<open>time.Sleep\<close>, \<open>context.WithTimeout\<close> and its cancel function, gRPC status
    errors and \<open>status.FromError\<close>. A statement sequence is a \<open>go_proc\<close>, a function
    from state to an \<open>outcome\<close> (\<open>Returned\<close> or \<open>Exited 1\<close>, for \<open>log.Fatalf\<close>) and the
    new state; \<open>go_defer\<close> runs a deferred call only when the function returns,
    since \<open>os.Exit\<close> skips deferred calls.
  \<^item> \<open>GreetService\<close>: the client interface as a record of call functions, the
    interface predicate \<open>unary_contract\<close> on which the driver lemmas are stated, and
    its implementation over grpc-go, \<open>grpc_stub\<close>: server handlers with a response
    time, the deadline rule of the transport (\<open>grpc_unary\<close>), streams as
    functions from the index of a \<open>Recv()\<close> to a message or an error, a client
    stream with a read limit, and the test server \<open>fake_server\<close> of the spec.
    \<open>grpc_unary_meets_contract\<close> discharges the interface predicate
    \<open>unary_contract\<close> for the transport.
  \<^item> \<open>Unary\<close>: \<open>doUnary\<close> and \<open>doUnaryWithDeadline\<close>, with the spec's classification
    \<open>spec_classify\<close> of a deadline call (section 4.5) as the abstract contract: the
    driver refines it on every implementation meeting the interface
    (\<open>doUnaryWithDeadline_refines_spec\<close>), reports a deadline exactly when the
    timeout is not above the response time (\<open>doUnaryWithDeadline_grpc\<close>), and
    cancels its context exactly once whenever it returns
    (\<open>doUnaryWithDeadline_releases_context\<close>); on every implementation, an error
    without a status takes the \<open>log.Fatalf\<close> path, which skips the deferred cancel
    and so leaks the context (\<open>doUnaryWithDeadline_plain_error_leaks\<close>). Over the
    transport a deadline call takes at most its timeout. \<open>doUnary\<close> is a single
    call with no branch beyond the error check, and no property of it goes beyond
    its definition; it is modelled for completeness.
  \<^item> \<open>DeadlineMachine\<close>: the spec's per-call state machine (section 4.5) as an
    executable inductive relation \<open>spec_run\<close> over the observable events; the events
    of \<open>doUnaryWithDeadline\<close> drive it from \<open>Idle\<close> to exactly the final state of
    the classification (\<open>doUnaryWithDeadline_call_machine\<close>).
  \<^item> \<open>ServerStream\<close>: the receive loop as a \<^theory_text>\<open>partial_function (option)\<close>,
    \<open>None\<close> being a loop that never exits; it returns exactly when the stream reaches
    an error (\<open>recv_loop_returns_iff\<close>), and logs every message in order; read
    back from the trace by \<open>printed_results\<close>, its output is the spec's sequence of
    results up to the first end (\<open>recv_loop_refines_sequence\<close>).
  \<^item> \<open>ClientStream\<close>: the send loop as structural recursion, equivalent to a
    closed form \<open>send_trace\<close> for every stream (\<open>send_loop_closed_form\<close>); when the
    server stops reading, the driver prints a reply to a prefix of its requests as
    the answer (\<open>doClientStreaming_stops_reading\<close>): the error of \<open>stream.Send\<close> is
    ignored.
  \<^item> \<open>BidiStream\<close>: the opening of the stream, then the two goroutines, the server
    handler and the blocking \<open><-waitc\<close> as an \<^theory_text>\<open>inductive\<close> step relation
    \<open>bidi_step\<close>, one rule per atomic step, so that every interleaving is a run.
    Rule induction over \<open>bidi_reach\<close> gives the invariants \<open>bidi_shape\<close> and
    \<open>bidi_flow\<close> (safety) and the trace invariant that the half-close happens at
    most once and is followed by no send (\<open>bidi_no_send_after_close\<close>), a measure that every step decreases gives finiteness of
    every run, and enabledness gives the absence of deadlock and completion.
    A counterexample run shows the function returning before its sender has
    closed the stream: the code joins only the receiver.
  \<^item> \<open>BidiLockstep\<close>: the sequential lock-step schedule \<open>bidi_lockstep\<close> as a
    reference; it is a complete interleaving and every complete interleaving agrees
    with it on what each party observes (\<open>bidi_lockstep_equivalent\<close>). Counting
    steps with \<open>bidi_step srv ^^ n\<close> bounds every run by \<open>bidi_steps_bound\<close> and shows
    that all complete runs with a handler that reads everything have exactly that
    length (\<open>bidi_run_length\<close>); the time since the stream was opened never
    exceeds one second per request (\<open>bidi_time_bound\<close>).
  \<^item> \<open>BidiSchedules\<close>: a second reference schedule, \<open>bidi_batched\<close>, in which the
    handler holds every answer until the sender has sent all requests and
    half-closed (the spec's P4); it is a complete interleaving too
    (\<open>bidi_batched_complete\<close>), and whenever there are two requests and the first
    is answered its trace orders the lines differently from the lock-step one: the
    program fixes no order between the two directions, only within each.
  \<^item> \<open>BidiErrors\<close>: the receiver's error branch: with a handler that returns an
    error status every complete interleaving ends with the process exited through
    \<open>log.Fatalf\<close> (\<open>bidi_error_exits\<close>).
  \<^item> \<open>BidiQuit\<close>: a handler that returns OK after reading \<open>k\<close> requests: every
    complete interleaving ends with the function returned normally, the first \<open>k\<close>
    requests read and only their answers printed, while the sender, which ignores
    the errors of \<open>stream.Send\<close>, still goes through the whole slice and its pauses
    (\<open>bidi_server_quits\<close>).
  \<^item> \<open>ClientMain\<close>: \<open>main\<close>, with the outcome of \<open>grpc.Dial\<close> as a parameter; on
    every implementation meeting the interface it returns, cancels both contexts
    (each before the next call) and closes the connection last; over the transport
    it ends after exactly \<open>min 5s d + min 1s d\<close> for a handler answering after \<open>d\<close>,
    with each call's report fixed by \<open>d\<close> (\<open>main_grpc\<close>), so within six seconds
    however slow the server.
  \<^item> This theory: the property that spans the components: the program against
    the spec's per-call state machine: the trace of \<open>main\<close> is exactly two
    complete runs of it, one per call, with no retry (\<open>main_call_machine\<close>).

  \<^bold>\<open>Time and fuel.\<close> The clock advances only where the code waits: a unary call
  takes the handler's response time or stops at the deadline; \<open>time.Sleep\<close> adds its
  argument. In \<open>doBiDiStreaming\<close> the sender's pause of line 173 is a step of
  its own that advances the clock by one second, and the other steps take no time:
  the relation admits every interleaving of the other parties with the pauses, so
  its properties hold for every timing; every complete run with a handler that
  reads everything ends one second per request after it started. Lengths of runs
  are counted in steps. No model needs fuel: the
  unbounded receive loop is a partial function whose termination is characterised
  exactly, and the other loops are structural.

  \<^bold>\<open>Not modelled.\<close> Message framing, serialization and the network are the
  grpc-go library's; they enter only through the interface and its transport model.
  Exact formatting of \<open>%v\<close> is abstracted: an event records the format string and the
  value. The generated \<open>grpc_client\<close> package and the server are not sources of the
  repository and are modelled from the spec. Lines 1--15 of \<open>client.go\<close> are the
  package clause and imports, and lines 28--31 of \<open>main\<close> are commented-out calls:
  there is nothing to model there. Contexts of the streaming drivers are
  \<open>context.Background()\<close>, which has no deadline and no cancel function, so the
  model passes \<open>Background\<close> and no cancellation is modelled for them.
\<close>

section \<open>The program and the spec's call state machine\<close>

text \<open>
  C7. For every implementation of the service that meets the unary contract and
  whose calls the machine does not observe, the trace of \<open>main\<close> is the banner and
  the dial, then exactly two complete runs of the spec's per-call state machine,
  one per \<open>doUnaryWithDeadline\<close> call, each from \<open>Idle\<close> through \<open>InFlight\<close> to
  one final state (\<open>Completed\<close>, \<open>TimedOut\<close> or \<open>Failed\<close>), then the close of the
  connection: no call is retried and no call is left in flight.
\<close>

theorem main_call_machine:
  assumes contract: "unary_contract (greet_with_deadline c)" and quiet: "quiet_call (greet_with_deadline c)"
  shows "\<exists>es1 es2 o1 o2. out (snd (main None c s)) = out s @ [Print ''Hello I'm a client'', Dialed dial_target] @ es1 @ es2 @ [ConnClosed]
           \<and> (\<forall>q. spec_run Idle (map observe es1) q \<longleftrightarrow> q = final_state o1)
           \<and> (\<forall>q. spec_run Idle (map observe es2) q \<longleftrightarrow> q = final_state o2)"
proof -
  let ?s1 = "emit (Dialed dial_target) (emit (Print ''Hello I'm a client'') s)"
  obtain oc1 s2 where r1: "doUnaryWithDeadline c (5 * second) ?s1 = (oc1, s2)" by fastforce
  obtain oc2 s3 where r2: "doUnaryWithDeadline c (1 * second) s2 = (oc2, s3)" by fastforce
  obtain es1 o1 where es1: "out s2 = out ?s1 @ es1" and m1: "\<forall>q. spec_run Idle (map observe es1) q \<longleftrightarrow> q = final_state o1"
    using doUnaryWithDeadline_machine_run [OF contract quiet, of "5 * second" ?s1] r1 by auto
  obtain es2 o2 where es2: "out s3 = out s2 @ es2" and m2: "\<forall>q. spec_run Idle (map observe es2) q \<longleftrightarrow> q = final_state o2"
    using doUnaryWithDeadline_machine_run [OF contract quiet, of "1 * second" s2] r2 by auto
  have "oc1 = Returned" "oc2 = Returned"
    using doUnaryWithDeadline_contract_trace [OF contract r1] doUnaryWithDeadline_contract_trace [OF contract r2] by simp_all
  with r1 r2 have "snd (main None c s) = emit ConnClosed s3"
    by (simp add: main_def go_simps)
  with es1 es2 m1 m2 show ?thesis by (auto simp: emit_def)
qed

theorem main_call_machine_witness:
  "unary_contract (greet_with_deadline (grpc_stub (fake_server 3000000000 10)))
   \<and> quiet_call (greet_with_deadline (grpc_stub (fake_server 3000000000 10)))
   \<and> (\<exists>es1 es2 o1 o2. out (snd (main None (grpc_stub (fake_server 3000000000 10)) init_rt))
                        = [Print ''Hello I'm a client'', Dialed dial_target] @ es1 @ es2 @ [ConnClosed]
        \<and> (\<forall>q. spec_run Idle (map observe es1) q \<longleftrightarrow> q = final_state o1)
        \<and> (\<forall>q. spec_run Idle (map observe es2) q \<longleftrightarrow> q = final_state o2))"
proof -
  let ?c = "grpc_stub (fake_server 3000000000 10)"
  have c: "unary_contract (greet_with_deadline ?c)"
    by (simp add: grpc_stub_def grpc_unary_meets_contract)
  have q: "quiet_call (greet_with_deadline ?c)"
    by (simp add: grpc_stub_def grpc_unary_quiet)
  from c q main_call_machine [OF c q, of init_rt] show ?thesis by (simp add: init_rt_def)
qed

end
